(* ===== verification/Prelude.thy ===== *)
theory Prelude
  imports Main "HOL-Library.AList" "HOL-Library.Sublist"
begin

text \<open>
  Shared vocabulary of the development.  A Python \<^verbatim>\<open>dict\<close> is an association list in
  insertion order: reading is \<^const>\<open>map_of\<close>, assignment is \<^const>\<open>AList.update\<close> (which
  overwrites in place and otherwise appends, as Python does) and \<^verbatim>\<open>pop\<close> is
  \<^const>\<open>AList.delete\<close>.  The collections below carry the component proofs.
\<close>

named_theorems py_eval \<open>equations that evaluate Python string and number operations\<close>
named_theorems gw_simps \<open>rewrite rules shared by the component proofs\<close>
named_theorems gw_inv \<open>preservation of the components' invariants\<close>

type_synonym ('k, 'v) dict = "('k \<times> 'v) list"
type_synonym ('e, 'a) result = "'e + 'a"

section \<open>Results\<close>

text \<open>The exceptions of the language that the modelled code raises or catches.\<close>

datatype py_error = ValueError | TypeError | KeyError | OverflowError | RecursionError | OSError
  | AttributeError
  | LibraryError \<comment> \<open>an exception of a library that no modelled code names\<close>

definition is_ok :: "('e, 'a) result \<Rightarrow> bool" where
  "is_ok r = (case r of Inl _ \<Rightarrow> False | Inr _ \<Rightarrow> True)"

lemma is_ok_simps [simp]: "is_ok (Inr x)" "\<not> is_ok (Inl e)"
  by (simp_all add: is_ok_def)

lemma is_ok_iff: "is_ok r \<longleftrightarrow> (\<exists>x. r = Inr x)"
  by (cases r) auto

section \<open>Dictionaries\<close>

definition dict_of_items :: "('k \<times> 'v) list \<Rightarrow> ('k, 'v) dict" where
  \<comment> \<open>\<^verbatim>\<open>{k: v for k, v in items}\<close>: a later item overwrites an earlier one of the same key\<close>
  "dict_of_items kvs = fold (\<lambda>(k, v) d. AList.update k v d) kvs []"

definition dict_get :: "('k, 'v) dict \<Rightarrow> 'k \<Rightarrow> 'v \<Rightarrow> 'v" where
  "dict_get d k def = (case map_of d k of None \<Rightarrow> def | Some v \<Rightarrow> v)"

definition dict_wf :: "('k, 'v) dict \<Rightarrow> bool" where
  "dict_wf d = distinct (map fst d)"

lemma dict_wf_simps [simp]:
  "dict_wf []"
  "dict_wf ((k, v) # d) \<longleftrightarrow> k \<notin> fst ` set d \<and> dict_wf d"
  by (simp_all add: dict_wf_def)

lemma dict_wf_update [simp, intro]: "dict_wf d \<Longrightarrow> dict_wf (AList.update k v d)"
  by (simp add: dict_wf_def distinct_update)

lemma dict_wf_delete [simp, intro]: "dict_wf d \<Longrightarrow> dict_wf (AList.delete k d)"
  by (simp add: dict_wf_def distinct_delete)

lemma dict_wf_filter [simp, intro]: "dict_wf d \<Longrightarrow> dict_wf (filter P d)"
  by (induction d) (auto simp: dict_wf_def)

lemma map_of_update [simp]: "map_of (AList.update k v d) = (map_of d)(k \<mapsto> v)"
  by (rule update_conv')

lemma map_of_delete [simp]: "map_of (AList.delete k d) = (map_of d)(k := None)"
  by (rule delete_conv')

lemma map_of_fold_update:
  "map_of (fold (\<lambda>(k, v) d. AList.update k v d) kvs d) = map_of d ++ map_of (rev kvs)"
proof (induction kvs arbitrary: d)
  case Nil
  then show ?case by simp
next
  case (Cons kv kvs)
  then show ?case by (cases kv) (auto simp: map_add_def fun_eq_iff split: option.splits)
qed

lemma map_of_dict_of_items: "map_of (dict_of_items kvs) = map_of (rev kvs)"
  by (simp add: dict_of_items_def map_of_fold_update)

lemma dict_wf_dict_of_items [simp]: "dict_wf (dict_of_items kvs)"
proof -
  have "dict_wf d \<Longrightarrow> dict_wf (fold (\<lambda>(k, v) d. AList.update k v d) kvs d)" for d :: "('a, 'b) dict"
    by (induction kvs arbitrary: d) auto
  then show ?thesis by (simp add: dict_of_items_def)
qed

lemma dict_of_items_wf: "dict_wf d \<Longrightarrow> dict_of_items d = d"
proof -
  have new: "AList.update k v d = d @ [(k, v)]" if "k \<notin> fst ` set d"
    for k and v :: 'b and d :: "('a, 'b) dict"
    using that by (induction d) auto
  have "distinct (map fst (a @ b)) \<Longrightarrow> fold (\<lambda>(k, v) d. AList.update k v d) b a = a @ b"
    for a b :: "('a, 'b) dict"
  proof (induction b arbitrary: a)
    case Nil
    then show ?case by simp
  next
    case (Cons kv b)
    obtain k v where kv: "kv = (k, v)" by (cases kv)
    from Cons.prems kv have "k \<notin> fst ` set a" by auto
    then have "fold (\<lambda>(k, v) d. AList.update k v d) (kv # b) a =
        fold (\<lambda>(k, v) d. AList.update k v d) b (a @ [(k, v)])"
      using kv new [of k a v] by simp
    also have "\<dots> = (a @ [(k, v)]) @ b" using Cons.prems kv by (intro Cons.IH) auto
    finally show ?case using kv by simp
  qed
  from this [of "[]" d] show "dict_wf d \<Longrightarrow> dict_of_items d = d"
    by (simp add: dict_wf_def dict_of_items_def)
qed

lemma map_of_filter_key:
  "map_of (filter (\<lambda>kv. P (fst kv)) d) k = (if P k then map_of d k else None)"
  by (induction d) auto

lemma map_of_fold_delete:
  "map_of (fold AList.delete ks d) k = (if k \<in> set ks then None else map_of d k)"
  by (induction ks arbitrary: d) auto

lemma map_of_map_values: "map_of (map (\<lambda>(k, v). (k, f v)) d) k = map_option f (map_of d k)"
  by (induction d) auto

lemma fst_set_delete: "fst ` set (AList.delete k d) = fst ` set d - {k}"
  by (induction d) auto

lemma fst_set_update: "fst ` set (AList.update k v d) = insert k (fst ` set d)"
  by (induction d) auto

section \<open>Lists\<close>

lemma takeWhile_length_le: "length (takeWhile P xs) \<le> length xs"
  by (induction xs) auto

lemma dropWhile_length_le: "length (dropWhile P xs) \<le> length xs"
  by (induction xs) auto

lemma sum_list_mem_le: "x \<in> set xs \<Longrightarrow> f x \<le> sum_list (map f xs)" for f :: "'a \<Rightarrow> nat"
  by (induction xs) auto

end
