(* ===== verification/Py_String.thy ===== *)
theory Py_String
  imports Prelude
begin

text \<open>
  Python's \<^verbatim>\<open>str\<close> operations used by the gateway.  A character is a code point below 256:
  HTTP header text reaches the application decoded as Latin-1, which is exactly this range.
  Case mapping, white space and printability follow Python's tables on that range.
\<close>

section \<open>Characters\<close>

definition ccode :: "char \<Rightarrow> nat" where
  "ccode c = of_char c"

definition py_isspace :: "char \<Rightarrow> bool" where
  "py_isspace c =
     (let n = ccode c in 9 \<le> n \<and> n \<le> 13 \<or> 28 \<le> n \<and> n \<le> 32 \<or> n = 133 \<or> n = 160)"

definition py_lower_char :: "char \<Rightarrow> char" where
  "py_lower_char c =
     (let n = ccode c
      in if 65 \<le> n \<and> n \<le> 90 \<or> 192 \<le> n \<and> n \<le> 222 \<and> n \<noteq> 215 then char_of (n + 32) else c)"

definition is_digit :: "char \<Rightarrow> bool" where
  "is_digit c = (let n = ccode c in 48 \<le> n \<and> n \<le> 57)"

definition digit_val :: "char \<Rightarrow> nat" where
  "digit_val c = ccode c - 48"

definition is_ascii_letter :: "char \<Rightarrow> bool" where
  "is_ascii_letter c = (let n = ccode c in 65 \<le> n \<and> n \<le> 90 \<or> 97 \<le> n \<and> n \<le> 122)"

definition py_isprintable_char :: "char \<Rightarrow> bool" where
  "py_isprintable_char c =
     (let n = ccode c in 32 \<le> n \<and> n \<le> 126 \<or> 161 \<le> n \<and> n \<noteq> 173)"

section \<open>Strings\<close>

definition py_lower :: "string \<Rightarrow> string" where
  "py_lower s = map py_lower_char s"

definition py_isascii :: "string \<Rightarrow> bool" where
  "py_isascii s = list_all (\<lambda>c. ccode c < 128) s"

definition py_isprintable :: "string \<Rightarrow> bool" where
  "py_isprintable s = list_all py_isprintable_char s"

definition py_rstrip_by :: "(char \<Rightarrow> bool) \<Rightarrow> string \<Rightarrow> string" where
  "py_rstrip_by P s = rev (dropWhile P (rev s))"

definition py_lstrip_by :: "(char \<Rightarrow> bool) \<Rightarrow> string \<Rightarrow> string" where
  "py_lstrip_by P s = dropWhile P s"

definition py_strip :: "string \<Rightarrow> string" where
  "py_strip s = py_rstrip_by py_isspace (py_lstrip_by py_isspace s)"

definition py_partition :: "char \<Rightarrow> string \<Rightarrow> string \<times> bool \<times> string" where
  \<comment> \<open>\<^verbatim>\<open>s.partition(c)\<close>: the text before the first \<open>c\<close>, whether there is one, the text after\<close>
  "py_partition c s =
     (let h = takeWhile (\<lambda>x. x \<noteq> c) s; r = dropWhile (\<lambda>x. x \<noteq> c) s
      in (h, r \<noteq> [], drop 1 r))"

fun py_split :: "char \<Rightarrow> string \<Rightarrow> string list" where
  "py_split c [] = [[]]"
| "py_split c (x # xs) =
     (if x = c then [] # py_split c xs
      else (case py_split c xs of [] \<Rightarrow> [[x]] | w # ws \<Rightarrow> (x # w) # ws))"

fun py_join :: "string \<Rightarrow> string list \<Rightarrow> string" where
  "py_join sep [] = []"
| "py_join sep [s] = s"
| "py_join sep (s # ss) = s @ sep @ py_join sep ss"

abbreviation py_startswith :: "string \<Rightarrow> string \<Rightarrow> bool" where
  "py_startswith s p \<equiv> prefix p s"

abbreviation py_endswith :: "string \<Rightarrow> string \<Rightarrow> bool" where
  "py_endswith s p \<equiv> suffix p s"

fun py_contains :: "string \<Rightarrow> string \<Rightarrow> bool" where
  \<comment> \<open>\<^verbatim>\<open>sub in s\<close>\<close>
  "py_contains sub [] = (sub = [])"
| "py_contains sub (c # s) = (prefix sub (c # s) \<or> py_contains sub s)"

section \<open>Decimal numerals\<close>

definition digit_char :: "nat \<Rightarrow> char" where
  "digit_char d = char_of (48 + d)"

fun str_of_nat :: "nat \<Rightarrow> string" where
  "str_of_nat n =
     (if n < 10 then [digit_char n] else str_of_nat (n div 10) @ [digit_char (n mod 10)])"

declare str_of_nat.simps [simp del]

definition str_of_int :: "int \<Rightarrow> string" where
  "str_of_int i = (if i < 0 then CHR ''-'' # str_of_nat (nat (- i)) else str_of_nat (nat i))"

definition nat_of_digits :: "string \<Rightarrow> nat" where
  "nat_of_digits s = foldl (\<lambda>a c. a * 10 + digit_val c) 0 s"

lemmas py_string_eval [py_eval] =
  ccode_def py_isspace_def py_lower_char_def is_digit_def digit_val_def is_ascii_letter_def
  py_isprintable_char_def py_lower_def py_isascii_def py_isprintable_def py_rstrip_by_def
  py_lstrip_by_def py_strip_def py_partition_def digit_char_def str_of_nat.simps str_of_int_def
  nat_of_digits_def char_of_def

section \<open>Lemmas\<close>

lemma py_split_nonempty [simp]: "py_split c s \<noteq> []"
  by (induction s) (auto split: list.splits)

lemma py_lower_length [simp]: "length (py_lower s) = length s"
  by (simp add: py_lower_def)

lemma py_partition_tail_less:
  "py_partition c s = (h, f, t) \<Longrightarrow> t \<noteq> [] \<Longrightarrow> length t < length s"
proof -
  assume a: "py_partition c s = (h, f, t)" "t \<noteq> []"
  then have t: "t = drop 1 (dropWhile (\<lambda>x. x \<noteq> c) s)"
    by (auto simp: py_partition_def Let_def)
  show ?thesis using a(2) dropWhile_length_le [of "\<lambda>x. x \<noteq> c" s] unfolding t by simp
qed

lemma py_lower_char_idem: "py_lower_char (py_lower_char c) = py_lower_char c"
proof -
  have "ccode c < 256" unfolding ccode_def by (rule nat_of_char_less_256)
  then show ?thesis
    by (auto simp: py_lower_char_def Let_def ccode_def of_char_of)
qed

lemma py_lower_idem [simp]: "py_lower (py_lower s) = py_lower s"
  by (simp add: py_lower_def py_lower_char_idem)

lemma digit_char_digit: "d < 10 \<Longrightarrow> is_digit (digit_char d) \<and> digit_val (digit_char d) = d"
  by (simp add: is_digit_def digit_val_def digit_char_def ccode_def Let_def)

lemma str_of_nat_digits: "list_all is_digit (str_of_nat n) \<and> str_of_nat n \<noteq> []"
proof (induction n rule: str_of_nat.induct)
  case (1 n)
  then show ?case
    by (subst (1 2) str_of_nat.simps) (auto simp: digit_char_digit)
qed

lemma nat_of_digits_snoc: "nat_of_digits (s @ [c]) = nat_of_digits s * 10 + digit_val c"
  by (simp add: nat_of_digits_def)

lemma nat_of_digits_str_of_nat [simp]: "nat_of_digits (str_of_nat n) = n"
proof (induction n rule: str_of_nat.induct)
  case (1 n)
  show ?case
  proof (cases "n < 10")
    case True
    then show ?thesis
      by (subst str_of_nat.simps) (simp add: nat_of_digits_def digit_char_digit)
  next
    case False
    with "1.IH" have "nat_of_digits (str_of_nat (n div 10)) = n div 10" by simp
    with False show ?thesis
      by (subst str_of_nat.simps) (simp add: nat_of_digits_snoc digit_char_digit)
  qed
qed

lemma str_of_nat_inj: "str_of_nat m = str_of_nat n \<longleftrightarrow> m = n"
  by (metis nat_of_digits_str_of_nat)

lemma py_join_split: "py_join [c] (py_split c s) = s"
proof (induction s)
  case Nil
  then show ?case by simp
next
  case (Cons x s)
  then show ?case
    by (cases "py_split c s"; cases "tl (py_split c s)") auto
qed

lemma py_split_no_sep: "w \<in> set (py_split c s) \<Longrightarrow> c \<notin> set w"
proof (induction s arbitrary: w)
  case Nil
  then show ?case by simp
next
  case (Cons x s)
  then show ?case by (cases "py_split c s") (auto split: if_splits)
qed

lemma py_split_no_occ: "c \<notin> set w \<Longrightarrow> py_split c w = [w]"
  by (induction w) auto

lemma py_split_append: "c \<notin> set w \<Longrightarrow> py_split c (w @ c # s) = w # py_split c s"
  by (induction w) auto

lemma py_split_join:
  "ws \<noteq> [] \<Longrightarrow> list_all (\<lambda>w. c \<notin> set w) ws \<Longrightarrow> py_split c (py_join [c] ws) = ws"
proof (induction ws)
  case (Cons w ws)
  then show ?case by (cases ws) (auto simp: py_split_no_occ py_split_append)
qed simp

end
