(* ===== verification/Py_Float.thy ===== *)
theory Py_Float
  imports Complex_Main "HOL-Library.Log_Nat" Py_String
begin

text \<open>
  Python's \<^verbatim>\<open>float\<close>: IEEE 754 binary64 with round-to-nearest, ties to even.
  A finite float is the rational number it stands for; the two zeros are identified, since
  no code modelled here tells them apart.  Every arithmetic operation is the exact operation
  on rationals followed by \<open>b64\<close>, the rounding function, which is executable.
  The lemmas give what the client proofs use of rounding: it is monotone, it is the identity
  on representable numbers, and it keeps signs.
\<close>

datatype pyfloat = Fin rat | PosInf | NegInf | NaN

section \<open>Rounding\<close>

definition ilog2 :: "rat \<Rightarrow> int" where
  "ilog2 q =
     (let (a, b) = quotient_of q; e = bitlen a - bitlen b
      in if 2 powi e \<le> q then e else e - 1)"

definition round_half_even :: "rat \<Rightarrow> int" where
  "round_half_even x =
     (let f = \<lfloor>x\<rfloor>; d = x - of_int f
      in if d < 1 / 2 then f
         else if d > 1 / 2 then f + 1
         else if even f then f else f + 1)"

text \<open>The exponent of the last mantissa bit: 53 bits of precision, subnormals below.\<close>

definition b64_ulp_exp :: "rat \<Rightarrow> int" where
  "b64_ulp_exp q = max (ilog2 q - 52) (- 1074)"

definition b64_abs :: "rat \<Rightarrow> rat" where
  "b64_abs q =
     (if q = 0 then 0
      else let k = b64_ulp_exp q in of_int (round_half_even (q / 2 powi k)) * 2 powi k)"

definition b64 :: "rat \<Rightarrow> pyfloat" where
  "b64 q =
     (let v = b64_abs \<bar>q\<bar>
      in if 2 ^ 1024 \<le> v then (if q < 0 then NegInf else PosInf)
         else Fin (if q < 0 then - v else v))"

section \<open>Operations\<close>

fun f_isfinite :: "pyfloat \<Rightarrow> bool" where
  "f_isfinite (Fin _) = True"
| "f_isfinite _ = False"

fun f_lt :: "pyfloat \<Rightarrow> pyfloat \<Rightarrow> bool" where
  "f_lt (Fin a) (Fin b) = (a < b)"
| "f_lt NegInf (Fin _) = True"
| "f_lt NegInf PosInf = True"
| "f_lt (Fin _) PosInf = True"
| "f_lt _ _ = False"

fun f_le :: "pyfloat \<Rightarrow> pyfloat \<Rightarrow> bool" where
  "f_le (Fin a) (Fin b) = (a \<le> b)"
| "f_le NaN _ = False"
| "f_le _ NaN = False"
| "f_le NegInf _ = True"
| "f_le _ PosInf = True"
| "f_le _ _ = False"

fun f_neg :: "pyfloat \<Rightarrow> pyfloat" where
  "f_neg (Fin a) = Fin (- a)"
| "f_neg PosInf = NegInf"
| "f_neg NegInf = PosInf"
| "f_neg NaN = NaN"

fun f_add :: "pyfloat \<Rightarrow> pyfloat \<Rightarrow> pyfloat" where
  "f_add (Fin a) (Fin b) = b64 (a + b)"
| "f_add NaN _ = NaN"
| "f_add _ NaN = NaN"
| "f_add PosInf NegInf = NaN"
| "f_add NegInf PosInf = NaN"
| "f_add PosInf _ = PosInf"
| "f_add _ PosInf = PosInf"
| "f_add NegInf _ = NegInf"
| "f_add _ NegInf = NegInf"

definition f_sub :: "pyfloat \<Rightarrow> pyfloat \<Rightarrow> pyfloat" where
  "f_sub x y = f_add x (f_neg y)"

definition f_inf_sgn :: "rat \<Rightarrow> pyfloat" where
  "f_inf_sgn a = (if a = 0 then NaN else if a > 0 then PosInf else NegInf)"

fun f_mul :: "pyfloat \<Rightarrow> pyfloat \<Rightarrow> pyfloat" where
  "f_mul (Fin a) (Fin b) = b64 (a * b)"
| "f_mul NaN _ = NaN"
| "f_mul _ NaN = NaN"
| "f_mul PosInf (Fin b) = f_inf_sgn b"
| "f_mul (Fin a) PosInf = f_inf_sgn a"
| "f_mul NegInf (Fin b) = f_inf_sgn (- b)"
| "f_mul (Fin a) NegInf = f_inf_sgn (- a)"
| "f_mul PosInf PosInf = PosInf"
| "f_mul NegInf NegInf = PosInf"
| "f_mul _ _ = NegInf"

definition f_max :: "pyfloat \<Rightarrow> pyfloat \<Rightarrow> pyfloat" where
  \<comment> \<open>the built-in \<^verbatim>\<open>max(x, y)\<close>: the first argument unless the second is greater\<close>
  "f_max x y = (if f_lt x y then y else x)"

text \<open>The floats that exist: what rounding leaves alone.\<close>

definition f_valid :: "pyfloat \<Rightarrow> bool" where
  "f_valid x = (case x of Fin a \<Rightarrow> b64 a = Fin a | _ \<Rightarrow> True)"

section \<open>Rounding is monotone and exact on floats\<close>

lemma quotient_of_pos:
  assumes "0 < q" "quotient_of q = (a, b)"
  shows "0 < a" "0 < b" "q = of_int a / of_int b"
proof -
  show b: "0 < b" using assms(2) by (rule quotient_of_denom_pos)
  show q: "q = of_int a / of_int b" using assms(2) by (rule quotient_of_div)
  show "0 < a" using assms(1) b unfolding q by (simp add: zero_less_divide_iff)
qed

lemma bitlen_rat_bounds:
  assumes "0 < (a::int)"
  shows "2 powi (bitlen a - 1) \<le> (of_int a :: rat)" "(of_int a :: rat) < 2 powi (bitlen a)"
proof -
  have p: "1 \<le> bitlen a" using assms bitlen_eq_zero_iff [of a] bitlen_nonneg [of a] by linarith
  note b = bitlen_bounds [OF assms]
  have "(of_int (2 ^ nat (bitlen a - 1)) :: rat) \<le> of_int a"
    using b(1) by (simp only: of_int_le_iff)
  then show "2 powi (bitlen a - 1) \<le> (of_int a :: rat)"
    using p by (simp add: power_int_nonneg_exp)
  have "(of_int a :: rat) < of_int (2 ^ nat (bitlen a))"
    using b by (simp only: of_int_less_iff)
  then show "(of_int a :: rat) < 2 powi (bitlen a)"
    using p by (simp add: power_int_nonneg_exp)
qed

lemma ilog2_bounds:
  assumes "0 < q"
  shows "2 powi (ilog2 q) \<le> q" "q < 2 powi (ilog2 q + 1)"
proof -
  obtain a b where ab: "quotient_of q = (a, b)" by fastforce
  note p = quotient_of_pos [OF assms ab]
  define e where "e = bitlen a - bitlen b"
  have il: "ilog2 q = (if 2 powi e \<le> q then e else e - 1)"
    by (simp add: ilog2_def ab e_def Let_def)
  note A = bitlen_rat_bounds [OF p(1)] and B = bitlen_rat_bounds [OF p(2)]
  have "q < 2 powi (bitlen a) / 2 powi (bitlen b - 1)"
    unfolding p(3) using A B p by (intro frac_less) auto
  also have "\<dots> = 2 powi (e + 1)" by (simp add: e_def power_int_diff [symmetric] algebra_simps)
  finally have up: "q < 2 powi (e + 1)" .
  have "2 powi (bitlen a - 1) / 2 powi (bitlen b) \<le> q"
    unfolding p(3) using A B p by (intro frac_le) auto
  moreover have "2 powi (bitlen a - 1) / 2 powi (bitlen b) = (2 powi (e - 1) :: rat)"
    by (simp add: e_def power_int_diff [symmetric] algebra_simps)
  ultimately have lo: "2 powi (e - 1) \<le> q" by simp
  show "2 powi (ilog2 q) \<le> q" using il lo by auto
  show "q < 2 powi (ilog2 q + 1)" using il up by auto
qed

lemma ilog2_mono: "0 < p \<Longrightarrow> p \<le> q \<Longrightarrow> ilog2 p \<le> ilog2 q"
proof -
  assume a: "0 < p" "p \<le> q"
  have "2 powi (ilog2 p) < (2 powi (ilog2 q + 1) :: rat)"
    using ilog2_bounds [of p] ilog2_bounds [of q] a by linarith
  then have "ilog2 p < ilog2 q + 1"
    using power_int_increasing [of "ilog2 q + 1" "ilog2 p" "2::rat"] by linarith
  then show ?thesis by simp
qed

lemma round_half_even_of_int [simp]: "round_half_even (of_int n) = n"
  by (simp add: round_half_even_def)

lemma round_half_even_mono: "x \<le> y \<Longrightarrow> round_half_even x \<le> round_half_even y"
proof -
  assume xy: "x \<le> y"
  then have "\<lfloor>x\<rfloor> \<le> \<lfloor>y\<rfloor>" by (rule floor_mono)
  then consider "\<lfloor>x\<rfloor> = \<lfloor>y\<rfloor>" | "\<lfloor>x\<rfloor> + 1 \<le> \<lfloor>y\<rfloor>" by linarith
  then show ?thesis
  proof cases
    case 1
    with xy show ?thesis by (auto simp: round_half_even_def Let_def)
  next
    case 2
    then show ?thesis by (auto simp: round_half_even_def Let_def)
  qed
qed

lemma round_half_even_nonneg: "0 \<le> x \<Longrightarrow> 0 \<le> round_half_even x"
  using round_half_even_mono [of 0 x] round_half_even_of_int [of 0] by simp

lemma b64_abs_nonneg: "0 \<le> q \<Longrightarrow> 0 \<le> b64_abs q"
  by (auto simp: b64_abs_def Let_def intro!: mult_nonneg_nonneg round_half_even_nonneg
      divide_nonneg_nonneg)

lemma b64_abs_bounds:
  assumes "0 < q"
  shows "b64_abs q \<le> 2 powi (b64_ulp_exp q + 53)"
    and "ilog2 q - 52 \<ge> - 1074 \<Longrightarrow> 2 powi (b64_ulp_exp q + 52) \<le> b64_abs q"
proof -
  let ?k = "b64_ulp_exp q"
  have s: "b64_abs q = of_int (round_half_even (q / 2 powi ?k)) * 2 powi ?k"
    using assms by (simp add: b64_abs_def Let_def)
  have "q < 2 powi (ilog2 q + 1)" by (rule ilog2_bounds(2)[OF assms])
  also have "\<dots> \<le> 2 powi (?k + 53)"
    by (rule power_int_increasing) (auto simp: b64_ulp_exp_def)
  also have "\<dots> = 2 ^ 53 * 2 powi ?k" by (simp add: power_int_add)
  finally have "q / 2 powi ?k \<le> of_int (2 ^ 53)" by (simp add: field_simps)
  from round_half_even_mono [OF this] have "round_half_even (q / 2 powi ?k) \<le> 2 ^ 53"
    by (simp only: round_half_even_of_int)
  then have "(of_int (round_half_even (q / 2 powi ?k)) :: rat) \<le> of_int (2 ^ 53)"
    by (simp only: of_int_le_iff)
  then have "b64_abs q \<le> 2 ^ 53 * 2 powi ?k"
    unfolding s by (intro mult_right_mono) auto
  then show "b64_abs q \<le> 2 powi (?k + 53)" by (simp add: power_int_add)
  assume "ilog2 q - 52 \<ge> - 1074"
  then have k: "?k = ilog2 q - 52" by (simp add: b64_ulp_exp_def)
  have "2 ^ 52 * 2 powi ?k = (2 powi (ilog2 q) :: rat)"
    unfolding k by (simp add: power_int_diff)
  then have "of_int (2 ^ 52) \<le> q / 2 powi ?k"
    using ilog2_bounds(1)[OF assms] by (simp add: field_simps)
  from round_half_even_mono [OF this] have "2 ^ 52 \<le> round_half_even (q / 2 powi ?k)"
    by (simp only: round_half_even_of_int)
  then have "(of_int (2 ^ 52) :: rat) \<le> of_int (round_half_even (q / 2 powi ?k))"
    by (simp only: of_int_le_iff)
  then have "2 ^ 52 * 2 powi ?k \<le> b64_abs q"
    unfolding s by (intro mult_right_mono) auto
  then show "2 powi (?k + 52) \<le> b64_abs q" by (simp add: power_int_add)
qed

lemma b64_abs_mono:
  assumes "0 \<le> p" "p \<le> q"
  shows "b64_abs p \<le> b64_abs q"
proof (cases "p = 0")
  case True
  with assms show ?thesis using b64_abs_nonneg [of q] by (simp add: b64_abs_def)
next
  case False
  with assms have p: "0 < p" and q: "0 < q" by auto
  have "b64_ulp_exp p \<le> b64_ulp_exp q"
    using ilog2_mono [OF p assms(2)] by (simp add: b64_ulp_exp_def)
  then consider "b64_ulp_exp p = b64_ulp_exp q" | "b64_ulp_exp p + 1 \<le> b64_ulp_exp q" by linarith
  then show ?thesis
  proof cases
    case 1
    have "round_half_even (p / 2 powi b64_ulp_exp q) \<le> round_half_even (q / 2 powi b64_ulp_exp q)"
      using assms by (intro round_half_even_mono divide_right_mono) auto
    with 1 p q show ?thesis by (simp add: b64_abs_def Let_def)
  next
    case 2
    then have "ilog2 q - 52 \<ge> - 1074" by (auto simp: b64_ulp_exp_def)
    then have "2 powi (b64_ulp_exp q + 52) \<le> b64_abs q" by (rule b64_abs_bounds(2)[OF q])
    moreover have "(2 powi (b64_ulp_exp p + 53) :: rat) \<le> 2 powi (b64_ulp_exp q + 52)"
      using 2 by (intro power_int_increasing) auto
    ultimately show ?thesis using b64_abs_bounds(1)[OF p] by linarith
  qed
qed

lemma b64_abs_idem:
  assumes "0 \<le> q"
  shows "b64_abs (b64_abs q) = b64_abs q"
proof (cases "b64_abs q = 0")
  case True
  then show ?thesis by (simp add: b64_abs_def)
next
  case False
  let ?v = "b64_abs q" and ?k = "b64_ulp_exp q"
  have q: "0 < q" using assms False by (cases "q = 0") (auto simp: b64_abs_def)
  have v: "0 < ?v" using False b64_abs_nonneg [OF assms] by simp
  obtain m :: int where m: "?v = of_int m * 2 powi ?k"
    using q by (auto simp: b64_abs_def Let_def)
  have "b64_ulp_exp ?v = ?k \<or> b64_ulp_exp ?v = ?k + 1 \<and> ?v = 2 powi (?k + 53)
        \<or> b64_ulp_exp ?v < ?k"
  proof -
    have a: "2 powi (ilog2 ?v) \<le> ?v" by (rule ilog2_bounds(1)[OF v])
    have le: "?v \<le> 2 powi (?k + 53)" by (rule b64_abs_bounds(1)[OF q])
    have "2 powi (ilog2 ?v) \<le> (2 powi (?k + 53) :: rat)" using a le by linarith
    then have il: "ilog2 ?v \<le> ?k + 53"
      using power_int_strict_increasing [of "?k + 53" "ilog2 ?v" "2::rat"] by force
    have km: "- 1074 \<le> ?k" by (simp add: b64_ulp_exp_def)
    show ?thesis
    proof (cases "ilog2 ?v = ?k + 53")
      case True
      then have "?v = 2 powi (?k + 53)" using a le by simp
      moreover have "b64_ulp_exp ?v = ?k + 1" using True km by (simp add: b64_ulp_exp_def)
      ultimately show ?thesis by simp
    next
      case False
      then have "b64_ulp_exp ?v \<le> ?k" using il km by (simp add: b64_ulp_exp_def)
      then show ?thesis by linarith
    qed
  qed
  then obtain n :: int where n: "?v = of_int n * 2 powi (b64_ulp_exp ?v)"
  proof (elim disjE)
    assume "b64_ulp_exp ?v = ?k"
    then show thesis using m that by simp
  next
    assume a: "b64_ulp_exp ?v = ?k + 1 \<and> ?v = 2 powi (?k + 53)"
    have "(2 powi (?k + 53) :: rat) = of_int (2 ^ 52) * 2 powi (?k + 1)"
      by (simp add: power_int_add)
    with a show thesis using that [of "2 ^ 52"] by metis
  next
    assume lt: "b64_ulp_exp ?v < ?k"
    define d where "d = nat (?k - b64_ulp_exp ?v)"
    have "(2 powi ?k :: rat) = 2 powi (int d + b64_ulp_exp ?v)" using lt by (simp add: d_def)
    also have "\<dots> = of_int (2 ^ d) * 2 powi (b64_ulp_exp ?v)"
      by (simp add: power_int_add)
    finally show thesis using m that [of "m * 2 ^ d"] by simp
  qed
  have "?v / 2 powi (b64_ulp_exp ?v) = of_int n"
    using n by (simp add: field_simps)
  then have "round_half_even (?v / 2 powi (b64_ulp_exp ?v)) = n"
    by (simp only: round_half_even_of_int)
  then have "b64_abs ?v = of_int n * 2 powi (b64_ulp_exp ?v)"
    using False by (simp add: b64_abs_def [of ?v] Let_def)
  then show ?thesis using n by simp
qed

section \<open>Facts the clients use\<close>

lemma b64_abs_0 [simp]: "b64_abs 0 = 0"
  by (simp add: b64_abs_def)

lemma b64_0 [simp]: "b64 0 = Fin 0"
  by (simp add: b64_def)

lemma b64_neg: "b64 (- q) = f_neg (b64 q)"
  by (cases "q = 0") (auto simp: b64_def Let_def abs_if)

lemma b64_not_NaN [simp]: "b64 q \<noteq> NaN"
  by (simp add: b64_def Let_def)

lemma f_valid_b64: "f_valid (b64 q)"
proof (cases "b64 q")
  case (Fin a)
  let ?v = "b64_abs \<bar>q\<bar>"
  have nn: "0 \<le> ?v" by (rule b64_abs_nonneg) simp
  have lt: "\<not> 2 ^ 1024 \<le> ?v" and a: "a = (if q < 0 then - ?v else ?v)"
    using Fin by (auto simp: b64_def Let_def split: if_splits)
  have "b64_abs \<bar>a\<bar> = ?v" using nn a by (simp add: b64_abs_idem)
  moreover have "q < 0 \<Longrightarrow> a < 0 \<or> a = 0" and "\<not> q < 0 \<Longrightarrow> \<not> a < 0" using a nn by auto
  ultimately have "b64 a = Fin a" using lt a by (auto simp: b64_def Let_def)
  then show ?thesis using Fin by (simp add: f_valid_def)
qed (auto simp: f_valid_def)

lemma f_valid_Fin: "f_valid (Fin a) \<longleftrightarrow> b64 a = Fin a"
  by (simp add: f_valid_def)

lemma f_le_refl: "x \<noteq> NaN \<Longrightarrow> f_le x x"
  by (cases x) auto

lemma f_le_trans: "f_le x y \<Longrightarrow> f_le y z \<Longrightarrow> f_le x z"
  by (cases x; cases y; cases z) auto

lemma f_not_le_lt: "x \<noteq> NaN \<Longrightarrow> y \<noteq> NaN \<Longrightarrow> \<not> f_le x y \<longleftrightarrow> f_lt y x"
  by (cases x; cases y) auto

lemma f_lt_le: "f_lt x y \<Longrightarrow> f_le x y"
  by (cases x; cases y) auto

lemma f_lt_le_trans: "f_lt x y \<Longrightarrow> f_le y z \<Longrightarrow> f_lt x z"
  by (cases x; cases y; cases z) auto

lemma f_le_lt_trans: "f_le x y \<Longrightarrow> f_lt y z \<Longrightarrow> f_lt x z"
  by (cases x; cases y; cases z) auto

lemma b64_mono: "p \<le> q \<Longrightarrow> f_le (b64 p) (b64 q)"
proof -
  assume pq: "p \<le> q"
  consider "0 \<le> p" | "p < 0" "0 \<le> q" | "q < 0" using pq by linarith
  then show ?thesis
  proof cases
    case 1
    then show ?thesis using pq b64_abs_mono [of p q] by (auto simp: b64_def Let_def)
  next
    case 2
    then show ?thesis using b64_abs_nonneg [of "- p"] b64_abs_nonneg [of q]
      by (auto simp: b64_def Let_def)
  next
    case 3
    then show ?thesis using pq b64_abs_mono [of "- q" "- p"] by (auto simp: b64_def Let_def)
  qed
qed

lemma b64_nonneg: "0 \<le> q \<Longrightarrow> f_le (Fin 0) (b64 q)"
  using b64_mono [of 0 q] by simp

lemma f_add_nonneg:
  "f_le (Fin 0) x \<Longrightarrow> f_le (Fin 0) y \<Longrightarrow> f_le (Fin 0) (f_add x y)"
  by (cases x; cases y) (auto intro: b64_nonneg)

lemma f_mul_nonneg:
  "f_le (Fin 0) (Fin a) \<Longrightarrow> f_le (Fin 0) (Fin b) \<Longrightarrow> f_le (Fin 0) (f_mul (Fin a) (Fin b))"
  by (auto intro: b64_nonneg)


lemma b64_abs_int: "0 \<le> n \<Longrightarrow> n \<le> 2 ^ 53 \<Longrightarrow> b64_abs (of_int n) = of_int n"
proof (cases "n = 0")
  case False
  assume n: "0 \<le> n" "n \<le> 2 ^ 53"
  let ?q = "of_int n :: rat"
  have q: "0 < ?q" using n False by simp
  show ?thesis
  proof (cases "n = 2 ^ 53")
    case True
    then have "2 powi (ilog2 ?q) \<le> (2 powi 53 :: rat)" "(2 powi 53 :: rat) < 2 powi (ilog2 ?q + 1)"
      using ilog2_bounds [OF q] by simp_all
    then have "ilog2 ?q = 53"
      using power_int_strict_increasing [of 53 "ilog2 ?q" "2::rat"]
        power_int_increasing [of "ilog2 ?q + 1" 53 "2::rat"] by force
    then have k: "b64_ulp_exp ?q = 1" by (simp add: b64_ulp_exp_def)
    have "?q / 2 = of_int (2 ^ 52)" using True by simp
    then have "round_half_even (?q / 2) = 2 ^ 52" by (simp only: round_half_even_of_int)
    with k True show ?thesis by (simp add: b64_abs_def)
  next
    case nb: False
    then have "n < 2 ^ 53" using n by simp
    then have "?q < of_int (2 ^ 53)" by (simp only: of_int_less_iff)
    then have "2 powi (ilog2 ?q) < (2 powi 53 :: rat)" using ilog2_bounds(1)[OF q] by simp
    then have "ilog2 ?q \<le> 52"
      using power_int_increasing [of 53 "ilog2 ?q" "2::rat"] by force
    then have k: "b64_ulp_exp ?q \<le> 0" by (simp add: b64_ulp_exp_def)
    define d where "d = nat (- b64_ulp_exp ?q)"
    have e: "?q / 2 powi (b64_ulp_exp ?q) = of_int (n * 2 ^ d)"
    proof -
      have "b64_ulp_exp ?q = - int d" using k by (simp add: d_def)
      then show ?thesis by (simp add: power_int_minus field_simps)
    qed
    have "round_half_even (?q / 2 powi (b64_ulp_exp ?q)) = n * 2 ^ d"
      unfolding e by (simp only: round_half_even_of_int)
    then have "b64_abs ?q = of_int (n * 2 ^ d) * 2 powi (b64_ulp_exp ?q)"
      using q by (simp add: b64_abs_def Let_def)
    also have "\<dots> = ?q" unfolding e [symmetric] by simp
    finally show ?thesis .
  qed
qed simp

lemma b64_of_int: "\<bar>n\<bar> \<le> 2 ^ 53 \<Longrightarrow> b64 (of_int n) = Fin (of_int n)"
proof -
  assume n: "\<bar>n\<bar> \<le> 2 ^ 53"
  have "b64_abs (of_int \<bar>n\<bar>) = of_int \<bar>n\<bar>" using n by (intro b64_abs_int) auto
  moreover have "(of_int \<bar>n\<bar> :: rat) \<le> of_int (2 ^ 53)" using n by (simp only: of_int_le_iff)
  then have "\<not> 2 ^ 1024 \<le> (of_int \<bar>n\<bar> :: rat)" by (simp add: not_le)
  ultimately show ?thesis by (simp add: b64_def Let_def abs_if split: if_splits)
qed

lemma f_valid_of_int: "\<bar>n\<bar> \<le> 2 ^ 53 \<Longrightarrow> f_valid (Fin (of_int n))"
  by (simp add: f_valid_Fin b64_of_int)

section \<open>Scaling by a power of two\<close>

lemma ilog2_unique: "2 powi n \<le> q \<Longrightarrow> q < 2 powi (n + 1) \<Longrightarrow> ilog2 q = n"
proof -
  assume a: "2 powi n \<le> q" "q < 2 powi (n + 1)"
  have q: "0 < q" using a(1) zero_less_power_int [of "2 :: rat" n] by linarith
  have "2 powi (ilog2 q) < (2 powi (n + 1) :: rat)" "2 powi n < (2 powi (ilog2 q + 1) :: rat)"
    using ilog2_bounds [OF q] a by linarith+
  then show ?thesis
    using power_int_increasing [of "n + 1" "ilog2 q" "2::rat"] power_int_increasing [of "ilog2 q + 1" n "2::rat"] by linarith
qed

lemma ilog2_scale: "0 < q \<Longrightarrow> ilog2 (q * 2 ^ k) = ilog2 q + int k"
proof (rule ilog2_unique)
  assume q: "0 < q"
  have pow: "2 powi (n + int k) = (2 powi n :: rat) * 2 ^ k" for n by (simp add: power_int_add)
  show "2 powi (ilog2 q + int k) \<le> q * 2 ^ k" using ilog2_bounds(1) [OF q] by (simp add: pow)
  show "q * 2 ^ k < 2 powi (ilog2 q + int k + 1)"
    using ilog2_bounds(2) [OF q] pow [of "ilog2 q + 1"] by (simp add: algebra_simps)
qed

lemma b64_abs_exact:
  assumes "0 < q" "q = of_int m * 2 powi j" "b64_ulp_exp q \<le> j"
  shows "b64_abs q = q"
proof -
  define u where "u = b64_ulp_exp q"
  define d where "d = nat (j - u)"
  have "j = int d + u" using assms(3) by (simp add: d_def u_def)
  then have eq: "q = of_int (m * 2 ^ d) * 2 powi u" using assms(2) by (simp add: power_int_add)
  then have "q / 2 powi u = of_int (m * 2 ^ d)" by simp
  then have "round_half_even (q / 2 powi u) = m * 2 ^ d" by (simp only: round_half_even_of_int)
  then have "b64_abs q = of_int (m * 2 ^ d) * 2 powi u"
    using assms(1) unfolding b64_abs_def Let_def u_def [symmetric] by simp
  then show ?thesis by (simp only: eq [symmetric])
qed

lemma b64_abs_scale:
  assumes "b64_abs a = a" "0 \<le> a"
  shows "b64_abs (a * 2 ^ k) = a * 2 ^ k"
proof (cases "a = 0")
  case False
  then have a: "0 < a" using assms(2) by simp
  define m where "m = round_half_even (a / 2 powi b64_ulp_exp a)"
  have "a = of_int m * 2 powi b64_ulp_exp a" using assms(1) a by (simp add: b64_abs_def Let_def m_def)
  then have eq: "a * 2 ^ k = of_int m * 2 powi (b64_ulp_exp a + int k)" by (simp add: power_int_add)
  show ?thesis
    by (rule b64_abs_exact [OF _ eq]) (use a in \<open>simp_all add: b64_ulp_exp_def ilog2_scale\<close>)
qed simp

lemma round_half_even_error: "of_int (round_half_even x) \<le> x + 1 / 2"
  by (simp add: round_half_even_def Let_def) linarith

text \<open>Below 1 the rounding error is at most a quarter of the distance from 1 to the next float.\<close>

lemma b64_abs_error_below_1:
  assumes "0 \<le> q" "q < 1"
  shows "b64_abs q \<le> q + 2 powi (- 54)"
proof (cases "q = 0")
  case False
  then have q: "0 < q" using assms(1) by simp
  let ?k = "b64_ulp_exp q"
  have "2 powi (ilog2 q) < (2 powi 0 :: rat)" using ilog2_bounds(1) [OF q] assms(2) by simp
  then have "ilog2 q < 0" using power_int_increasing [of 0 "ilog2 q" "2::rat"] by (meson not_le one_le_numeral)
  then have k: "?k \<le> - 53" by (simp add: b64_ulp_exp_def)
  have "b64_abs q = of_int (round_half_even (q / 2 powi ?k)) * 2 powi ?k" using q by (simp add: b64_abs_def Let_def)
  also have "\<dots> \<le> (q / 2 powi ?k + 1 / 2) * 2 powi ?k"
    by (intro mult_right_mono round_half_even_error) simp
  also have "\<dots> = q + 2 powi (?k - 1)" by (simp add: distrib_right power_int_diff)
  also have "\<dots> \<le> q + 2 powi (- 54)" using k by (intro add_left_mono power_int_increasing) simp_all
  finally show ?thesis .
qed simp

lemma b64_abs_just_above: "b64_abs ((1 + 2 powi (- 54)) * 2 ^ k) = 2 ^ k"
proof -
  let ?e = "2 powi (- 54) :: rat"
  have e: "0 < ?e" "?e < 1" "2 ^ 52 * ?e < 1 / 2" by (simp_all add: power_int_minus)
  let ?q = "(1 + ?e) * 2 ^ k"
  have q: "0 < ?q" using e by (simp add: add_pos_pos)
  have "ilog2 (1 + ?e) = 0" using e by (intro ilog2_unique) simp_all
  then have il: "b64_ulp_exp ?q = int k - 52" using ilog2_scale [of "1 + ?e" k] e by (simp add: b64_ulp_exp_def)
  have "?q / 2 powi (int k - 52) = 2 ^ 52 + 2 ^ 52 * ?e" by (simp add: power_int_diff field_simps)
  moreover have "round_half_even (2 ^ 52 + 2 ^ 52 * ?e) = 2 ^ 52"
  proof -
    have "\<lfloor>2 ^ 52 + 2 ^ 52 * ?e\<rfloor> = 2 ^ 52" using e by (intro floor_unique) simp_all
    then show ?thesis using e by (simp add: round_half_even_def)
  qed
  ultimately have "b64_abs ?q = of_int (2 ^ 52) * 2 powi (int k - 52)" using q il by (simp only: b64_abs_def Let_def) simp
  then show ?thesis by (simp add: power_int_diff)
qed

text \<open>
  Hence a weighted mean never rounds above a power of two that bounds its arguments, although the
  two weights are rounded and add up to slightly more than 1.
\<close>

lemma mean_bounded:
  assumes a: "b64 a = Fin a" "0 < a" "a \<le> 1" and le: "0 \<le> x" "x \<le> 2 ^ k" "0 \<le> e" "e \<le> 2 ^ k" and k: "k < 1024"
  shows "f_le (f_add (f_mul (Fin a) (Fin x)) (f_mul (f_sub (Fin 1) (Fin a)) (Fin e))) (Fin (2 ^ k))"
proof -
  define c where "c = b64_abs (1 - a)"
  have M: "(2 :: rat) ^ k < 2 ^ 1024" using k by (rule power_strict_increasing) simp
  have fin: "b64 q = Fin (b64_abs q) \<and> 0 \<le> b64_abs q \<and> b64_abs q \<le> r"
    if "0 \<le> q" "q \<le> r" "b64_abs r = r" "r \<le> 2 ^ k" for q r
    using b64_abs_mono [OF that(1,2)] b64_abs_nonneg [OF that(1)] that M by (auto simp: b64_def Let_def)
  have one: "b64_abs 1 = 1" using b64_abs_int [of 1] by simp
  have va: "b64_abs a = a" using a by (auto simp: b64_def Let_def split: if_splits)
  have c: "b64 (1 - a) = Fin c" "0 \<le> c" "c \<le> 1" "b64_abs c = c"
    using fin [of "1 - a" 1] a one by (auto simp: c_def b64_abs_idem)
  have mul: "\<exists>v. f_mul (Fin w) (Fin y) = Fin v \<and> 0 \<le> v \<and> v \<le> w * 2 ^ k"
    if "b64_abs w = w" "0 \<le> w" "w \<le> 1" "0 \<le> y" "y \<le> 2 ^ k" for w y
    using fin [of "w * y" "w * 2 ^ k"] b64_abs_scale [OF that(1,2)] that
    by (auto simp: mult_left_mono mult_left_le_one_le)
  obtain u v where uv: "f_mul (Fin a) (Fin x) = Fin u" "0 \<le> u" "u \<le> a * 2 ^ k"
      "f_mul (Fin c) (Fin e) = Fin v" "0 \<le> v" "v \<le> c * 2 ^ k"
    using mul [OF va _ a(3) le(1,2)] mul [OF c(4,2,3) le(3,4)] a(2) by auto
  have "a + c \<le> 1 + 2 powi (- 54)" using b64_abs_error_below_1 [of "1 - a"] a by (simp add: c_def)
  then have "u + v \<le> (1 + 2 powi (- 54)) * 2 ^ k"
    using uv(3,6) mult_right_mono [of "a + c" "1 + 2 powi (- 54)" "2 ^ k :: rat"] by (simp add: distrib_right)
  from b64_abs_mono [OF _ this, unfolded b64_abs_just_above] have "b64_abs (u + v) \<le> 2 ^ k" using uv(2,5) by simp
  then have "f_le (b64 (u + v)) (Fin (2 ^ k))" using uv(2,5) M by (simp add: b64_def Let_def)
  then show ?thesis using uv c(1) by (simp add: f_sub_def)
qed

section \<open>Text to float and back\<close>

text \<open>
  \<^verbatim>\<open>float(s)\<close> on a string: surrounding white space is dropped, an underscore may stand
  between two digits, then a sign and either a spelling of infinity or NaN, or a decimal numeral
  with an optional exponent.  \<^const>\<open>None\<close> is \<^verbatim>\<open>ValueError\<close>.
\<close>

fun underscores_ok :: "bool \<Rightarrow> string \<Rightarrow> bool" where
  \<comment> \<open>the flag: the previous character is a digit\<close>
  "underscores_ok d [] = True"
| "underscores_ok d (c # s) =
     (if c = CHR ''_''
      then d \<and> (case s of [] \<Rightarrow> False | c' # _ \<Rightarrow> is_digit c') \<and> underscores_ok False s
      else underscores_ok (is_digit c) s)"

definition parse_exponent :: "string \<Rightarrow> int option" where
  \<comment> \<open>what follows the mantissa: nothing, or \<open>e\<close>, an optional sign and digits\<close>
  "parse_exponent s =
     (case s of
        [] \<Rightarrow> Some 0
      | e # r \<Rightarrow>
          if e = CHR ''e'' \<or> e = CHR ''E''
          then let (neg, ds) =
                 (case r of
                    c # r' \<Rightarrow> if c = CHR ''-'' then (True, r')
                              else if c = CHR ''+'' then (False, r') else (False, r)
                  | [] \<Rightarrow> (False, r))
               in if ds \<noteq> [] \<and> list_all is_digit ds
                  then Some (if neg then - int (nat_of_digits ds) else int (nat_of_digits ds))
                  else None
          else None)"

definition parse_decimal :: "string \<Rightarrow> rat option" where
  "parse_decimal s =
     (let ip = takeWhile is_digit s; r = dropWhile is_digit s;
          (fp, r') = (case r of
              c # t \<Rightarrow> if c = CHR ''.'' then (takeWhile is_digit t, dropWhile is_digit t) else ([], r)
            | [] \<Rightarrow> ([], r))
      in if ip = [] \<and> fp = [] then None
         else case parse_exponent r' of
                None \<Rightarrow> None
              | Some e \<Rightarrow>
                  Some (of_nat (nat_of_digits (ip @ fp)) * 10 powi (e - int (length fp))))"

definition parse_unsigned_float :: "string \<Rightarrow> pyfloat option" where
  "parse_unsigned_float s =
     (let l = py_lower s
      in if l = ''inf'' \<or> l = ''infinity'' then Some PosInf
         else if l = ''nan'' then Some NaN
         else map_option b64 (parse_decimal s))"

definition py_float_of_str :: "string \<Rightarrow> pyfloat option" where
  "py_float_of_str s0 =
     (let s1 = py_strip s0 in
      if \<not> underscores_ok False s1 then None
      else let s = filter (\<lambda>c. c \<noteq> CHR ''_'') s1
           in case s of
                [] \<Rightarrow> None
              | c # r \<Rightarrow>
                  if c = CHR ''-'' then map_option f_neg (parse_unsigned_float r)
                  else if c = CHR ''+'' then parse_unsigned_float r
                  else parse_unsigned_float s)"

text \<open>\<^verbatim>\<open>f"{x:.df}"\<close>: the exact value rounded half to even at \<open>d\<close> decimals.\<close>

definition pad_left :: "nat \<Rightarrow> string \<Rightarrow> string" where
  "pad_left n s = replicate (n - length s) (CHR ''0'') @ s"

definition fmt_fixed_abs :: "nat \<Rightarrow> rat \<Rightarrow> string" where
  "fmt_fixed_abs d a =
     (let m = nat (round_half_even (a * 10 ^ d))
      in str_of_nat (m div 10 ^ d) @
         (if d = 0 then [] else CHR ''.'' # pad_left d (str_of_nat (m mod 10 ^ d))))"

fun fmt_fixed :: "nat \<Rightarrow> pyfloat \<Rightarrow> string" where
  "fmt_fixed d (Fin a) = (if a < 0 then CHR ''-'' # fmt_fixed_abs d (- a) else fmt_fixed_abs d a)"
| "fmt_fixed d PosInf = ''inf''"
| "fmt_fixed d NegInf = ''-inf''"
| "fmt_fixed d NaN = ''nan''"

lemmas py_float_eval [py_eval] =
  parse_exponent_def parse_decimal_def parse_unsigned_float_def py_float_of_str_def
  f_sub_def f_max_def pad_left_def fmt_fixed_abs_def

lemma py_float_of_str_valid: "py_float_of_str s = Some x \<Longrightarrow> f_valid x"
proof -
  have p: "parse_unsigned_float r = Some y \<Longrightarrow> f_valid y \<and> f_valid (f_neg y)" for r y
    using f_valid_b64 b64_neg
    by (auto simp: parse_unsigned_float_def Let_def f_valid_def split: if_splits pyfloat.splits)
       (metis b64_neg f_neg.simps(1) f_valid_b64 f_valid_Fin)+
  then show "py_float_of_str s = Some x \<Longrightarrow> f_valid x"
    by (auto simp: py_float_of_str_def Let_def split: if_splits list.splits)
qed

end
