(* ===== verification/Rtt_State.thy ===== *)
theory Rtt_State
  imports Py_Float
begin

text \<open>
  The RTT tier state machine of \<^verbatim>\<open>gateway/middleware/rtt_state.py\<close>: the state kept per
  client, the dwell-band classifier \<open>candidate_tier\<close> and the transition function \<open>advance\<close>,
  over binary64 arithmetic.  The lemmas show that the classifier is monotone with the dwell band
  it documents, and that a run of \<open>advance\<close> commits a tier change exactly when
  \<open>transition_samples\<close> consecutive samples vote for it.
\<close>

section \<open>Model\<close>

datatype tier = GOOD | DEGRADED | POOR

fun tier_order :: "tier \<Rightarrow> nat" where
  "tier_order GOOD = 0"
| "tier_order DEGRADED = 1"
| "tier_order POOR = 2"

record rtt_state =
  ewma :: "pyfloat option"
  cur_tier :: tier
  pending_tier :: "tier option"
  pending_count :: int

record thresholds =
  good_ms :: pyfloat
  degraded_ms :: pyfloat
  hysteresis_ms :: pyfloat
  transition_samples :: int
  alpha :: pyfloat

definition RttState_default :: rtt_state where
  "RttState_default = \<lparr>ewma = None, cur_tier = GOOD, pending_tier = None, pending_count = 0\<rparr>"

definition candidate_tier :: "pyfloat \<Rightarrow> tier \<Rightarrow> thresholds \<Rightarrow> tier" where
  "candidate_tier value current t =
     (let up = (if f_le (degraded_ms t) value then POOR
                else if f_le (good_ms t) value then DEGRADED
                else GOOD)
      in if tier_order up \<ge> tier_order current then up
         else let good_down = f_sub (good_ms t) (hysteresis_ms t);
                  deg_down = f_sub (degraded_ms t) (hysteresis_ms t)
              in if current = POOR
                 then if f_le deg_down value then POOR
                      else if f_lt value good_down then GOOD else DEGRADED
                 else if f_lt value good_down then GOOD else DEGRADED)"

definition sample_ok :: "pyfloat \<Rightarrow> bool" where
  "sample_ok x = (f_isfinite x \<and> \<not> f_lt x (Fin 0))"

definition next_ewma :: "rtt_state \<Rightarrow> pyfloat \<Rightarrow> thresholds \<Rightarrow> pyfloat" where
  "next_ewma s sample_ms t =
     (case ewma s of
        None \<Rightarrow> sample_ms
      | Some e \<Rightarrow> f_add (f_mul (alpha t) sample_ms) (f_mul (f_sub (Fin 1) (alpha t)) e))"

definition advance :: "rtt_state \<Rightarrow> pyfloat \<Rightarrow> thresholds \<Rightarrow> rtt_state" where
  "advance s sample_ms t =
     (if \<not> sample_ok sample_ms then s
      else let e = next_ewma s sample_ms t;
               candidate = candidate_tier e (cur_tier s) t
           in if candidate = cur_tier s
              then \<lparr>ewma = Some e, cur_tier = cur_tier s, pending_tier = None, pending_count = 0\<rparr>
              else let count = (if Some candidate = pending_tier s then pending_count s + 1 else 1)
                   in if count \<ge> transition_samples t
                      then \<lparr>ewma = Some e, cur_tier = candidate,
                            pending_tier = None, pending_count = 0\<rparr>
                      else \<lparr>ewma = Some e, cur_tier = cur_tier s,
                            pending_tier = Some candidate, pending_count = count\<rparr>)"

section \<open>Runs, votes and the well-formed states\<close>

definition run_samples :: "thresholds \<Rightarrow> rtt_state \<Rightarrow> pyfloat list \<Rightarrow> rtt_state" where
  "run_samples t s xs = foldl (\<lambda>s x. advance s x t) s xs"

definition vote :: "thresholds \<Rightarrow> rtt_state \<Rightarrow> pyfloat \<Rightarrow> tier" where
  "vote t s x = candidate_tier (next_ewma s x t) (cur_tier s) t"

fun votes :: "thresholds \<Rightarrow> rtt_state \<Rightarrow> pyfloat list \<Rightarrow> tier list" where
  "votes t s [] = []"
| "votes t s (x # xs) =
     (if sample_ok x then vote t s x # votes t (advance s x t) xs else votes t s xs)"

text \<open>The smoothed values a run classifies, and the dwell band of a tier.\<close>

fun smoothed :: "thresholds \<Rightarrow> rtt_state \<Rightarrow> pyfloat list \<Rightarrow> pyfloat list" where
  "smoothed t s [] = []"
| "smoothed t s (x # xs) =
     (if sample_ok x then next_ewma s x t # smoothed t (advance s x t) xs else smoothed t s xs)"

definition in_band :: "thresholds \<Rightarrow> tier \<Rightarrow> pyfloat \<Rightarrow> bool" where
  "in_band t c v =
     (case c of
        GOOD \<Rightarrow> f_lt v (good_ms t)
      | DEGRADED \<Rightarrow> f_le (f_sub (good_ms t) (hysteresis_ms t)) v \<and> f_lt v (degraded_ms t)
      | POOR \<Rightarrow> f_le (f_sub (degraded_ms t) (hysteresis_ms t)) v)"

text \<open>What \<open>Settings.validate_boundaries\<close> guarantees of the knobs.\<close>

definition thresholds_ok :: "thresholds \<Rightarrow> bool" where
  "thresholds_ok t =
     (f_valid (good_ms t) \<and> f_valid (degraded_ms t) \<and> f_valid (hysteresis_ms t) \<and>
      f_valid (alpha t) \<and>
      f_isfinite (good_ms t) \<and> f_isfinite (degraded_ms t) \<and> f_isfinite (hysteresis_ms t) \<and>
      f_isfinite (alpha t) \<and>
      f_lt (Fin 0) (good_ms t) \<and> f_lt (good_ms t) (degraded_ms t) \<and>
      f_le (Fin 0) (hysteresis_ms t) \<and> f_lt (hysteresis_ms t) (good_ms t) \<and>
      f_lt (Fin 0) (alpha t) \<and> f_le (alpha t) (Fin 1) \<and>
      0 < transition_samples t)"

definition pending_ok :: "thresholds \<Rightarrow> rtt_state \<Rightarrow> bool" where
  "pending_ok t s =
     (case pending_tier s of
        None \<Rightarrow> pending_count s = 0
      | Some c \<Rightarrow> c \<noteq> cur_tier s \<and> 0 < pending_count s \<and> pending_count s < transition_samples t)"

definition ewma_ok :: "rtt_state \<Rightarrow> bool" where
  "ewma_ok s = (case ewma s of None \<Rightarrow> True | Some x \<Rightarrow> f_isfinite x \<and> f_le (Fin 0) x)"

definition rtt_state_ok :: "thresholds \<Rightarrow> rtt_state \<Rightarrow> bool" where
  "rtt_state_ok t s = (pending_ok t s \<and> ewma_ok s)"

lemmas rtt_ok_defs = rtt_state_ok_def pending_ok_def ewma_ok_def

section \<open>One step\<close>

lemma thresholds_okE:
  assumes "thresholds_ok t"
  obtains g d h a where "good_ms t = Fin g" "degraded_ms t = Fin d" "hysteresis_ms t = Fin h"
    "alpha t = Fin a" "0 < g" "g < d" "0 \<le> h" "h < g" "0 < a" "a \<le> 1"
    "b64 g = Fin g" "b64 d = Fin d" "b64 h = Fin h" "b64 a = Fin a" "0 < transition_samples t"
  using assms
  by (cases "good_ms t"; cases "degraded_ms t"; cases "hysteresis_ms t"; cases "alpha t")
     (auto simp: thresholds_ok_def f_valid_Fin)

text \<open>The two lower edges of the dwell bands, and how they lie.\<close>

lemma down_thresholds:
  assumes "thresholds_ok t"
  shows "f_le (f_sub (good_ms t) (hysteresis_ms t)) (good_ms t)"
    and "f_le (f_sub (degraded_ms t) (hysteresis_ms t)) (degraded_ms t)"
    and "f_le (f_sub (good_ms t) (hysteresis_ms t)) (f_sub (degraded_ms t) (hysteresis_ms t))"
    and "f_sub (good_ms t) (hysteresis_ms t) \<noteq> NaN"
    and "f_sub (degraded_ms t) (hysteresis_ms t) \<noteq> NaN"
proof -
  from assms obtain g d h a where t: "good_ms t = Fin g" "degraded_ms t = Fin d"
    "hysteresis_ms t = Fin h" "g < d" "0 \<le> h" "b64 g = Fin g" "b64 d = Fin d"
    by (rule thresholds_okE)
  show "f_le (f_sub (good_ms t) (hysteresis_ms t)) (good_ms t)"
    using t b64_mono [of "g - h" g] by (simp add: f_sub_def)
  show "f_le (f_sub (degraded_ms t) (hysteresis_ms t)) (degraded_ms t)"
    using t b64_mono [of "d - h" d] by (simp add: f_sub_def)
  show "f_le (f_sub (good_ms t) (hysteresis_ms t)) (f_sub (degraded_ms t) (hysteresis_ms t))"
    using t b64_mono [of "g - h" "d - h"] by (simp add: f_sub_def)
  show "f_sub (good_ms t) (hysteresis_ms t) \<noteq> NaN"
    "f_sub (degraded_ms t) (hysteresis_ms t) \<noteq> NaN"
    using t by (simp_all add: f_sub_def)
qed

lemma candidate_tier_cases:
  assumes ok: "thresholds_ok t" and v: "v \<noteq> NaN"
  shows "candidate_tier v c t =
    (case c of
       GOOD \<Rightarrow> (if f_lt v (good_ms t) then GOOD
                else if f_lt v (degraded_ms t) then DEGRADED else POOR)
     | DEGRADED \<Rightarrow> (if f_lt v (f_sub (good_ms t) (hysteresis_ms t)) then GOOD
                else if f_lt v (degraded_ms t) then DEGRADED else POOR)
     | POOR \<Rightarrow> (if f_lt v (f_sub (good_ms t) (hysteresis_ms t)) then GOOD
                else if f_lt v (f_sub (degraded_ms t) (hysteresis_ms t)) then DEGRADED else POOR))"
proof -
  from ok obtain g d h a where t: "good_ms t = Fin g" "degraded_ms t = Fin d" "g < d"
    by (rule thresholds_okE)
  have le: "f_le (good_ms t) v \<longleftrightarrow> \<not> f_lt v (good_ms t)"
    "f_le (degraded_ms t) v \<longleftrightarrow> \<not> f_lt v (degraded_ms t)"
    "f_le (f_sub (degraded_ms t) (hysteresis_ms t)) v
      \<longleftrightarrow> \<not> f_lt v (f_sub (degraded_ms t) (hysteresis_ms t))"
    using f_not_le_lt [OF _ v] t(1,2) down_thresholds(5)[OF ok] by auto
  have gd: "f_lt v (good_ms t) \<Longrightarrow> f_lt v (degraded_ms t)"
    using t by (cases v) auto
  have dg: "f_lt v (f_sub (good_ms t) (hysteresis_ms t)) \<Longrightarrow> f_lt v (good_ms t)"
    "f_lt v (f_sub (degraded_ms t) (hysteresis_ms t)) \<Longrightarrow> f_lt v (degraded_ms t)"
    "f_lt v (f_sub (good_ms t) (hysteresis_ms t))
      \<Longrightarrow> f_lt v (f_sub (degraded_ms t) (hysteresis_ms t))"
    using down_thresholds [OF ok] by (auto intro: f_lt_le_trans)
  show ?thesis
    using gd dg by (cases c) (auto simp: candidate_tier_def Let_def le)
qed

lemma next_ewma_nonneg:
  assumes "thresholds_ok t" "ewma_ok s" "sample_ok x"
  shows "f_le (Fin 0) (next_ewma s x t)"
proof (cases "ewma s")
  case None
  with assms(3) show ?thesis by (cases x) (auto simp: next_ewma_def sample_ok_def)
next
  case (Some e)
  from assms(1) obtain a where a: "alpha t = Fin a" "0 < a" "a \<le> 1" by (rule thresholds_okE)
  from assms(3) obtain q where q: "x = Fin q" "0 \<le> q" by (cases x) (auto simp: sample_ok_def)
  from assms(2) Some obtain r where r: "e = Fin r" "0 \<le> r" by (cases e) (auto simp: ewma_ok_def)
  obtain w where w: "f_sub (Fin 1) (alpha t) = Fin w" "0 \<le> w"
    using b64_nonneg [of "1 - a"] b64_mono [of "1 - a" 1] b64_of_int [of 1] a
    by (cases "b64 (1 - a)") (auto simp: f_sub_def)
  then have "f_le (Fin 0) (f_mul (f_sub (Fin 1) (alpha t)) e)"
    using r by (auto intro: b64_nonneg)
  moreover have "f_le (Fin 0) (f_mul (alpha t) x)" using a q by (auto intro: b64_nonneg)
  ultimately show ?thesis using Some by (simp add: next_ewma_def f_add_nonneg)
qed


lemma advance_ewma: "sample_ok x \<Longrightarrow> ewma (advance s x t) = Some (next_ewma s x t)"
  by (simp add: advance_def Let_def)

lemma advance_pending_ok [gw_inv]:
  "0 < transition_samples t \<Longrightarrow> pending_ok t s \<Longrightarrow> pending_ok t (advance s x t)"
  by (auto simp: advance_def pending_ok_def Let_def split: option.splits)

definition ewma_below :: "nat \<Rightarrow> rtt_state \<Rightarrow> bool" where
  "ewma_below k s = (case ewma s of None \<Rightarrow> True | Some e \<Rightarrow> f_le e (Fin (2 ^ k)))"

lemma next_ewma_below:
  assumes "thresholds_ok t" "ewma_ok s" "ewma_below k s" "k < 1024" "sample_ok x" "f_le x (Fin (2 ^ k))"
  shows "f_le (next_ewma s x t) (Fin (2 ^ k))"
proof (cases "ewma s")
  case None
  then show ?thesis using assms(6) by (simp add: next_ewma_def)
next
  case (Some e)
  from assms(1) obtain a where a: "alpha t = Fin a" "b64 a = Fin a" "0 < a" "a \<le> 1" by (rule thresholds_okE)
  from assms(5,6) obtain q where q: "x = Fin q" "0 \<le> q" "q \<le> 2 ^ k" by (cases x) (auto simp: sample_ok_def)
  from assms(2,3) Some obtain r where r: "e = Fin r" "0 \<le> r" "r \<le> 2 ^ k"
    by (cases e) (auto simp: ewma_ok_def ewma_below_def)
  show ?thesis
    using mean_bounded [OF a(2-4) q(2,3) r(2,3) assms(4)] by (simp only: next_ewma_def Some option.case a(1) q(1) r(1))
qed

lemma advance_ewma_ok:
  assumes "thresholds_ok t" "ewma_ok s" "ewma_below k s" "k < 1024" "sample_ok x \<Longrightarrow> f_le x (Fin (2 ^ k))"
  shows "ewma_ok (advance s x t) \<and> ewma_below k (advance s x t)"
proof (cases "sample_ok x")
  case True
  then show ?thesis
    using next_ewma_nonneg [OF assms(1,2) True] next_ewma_below [OF assms(1-4) True assms(5) [OF True]]
    by (cases "next_ewma s x t") (auto simp: ewma_ok_def ewma_below_def advance_ewma)
qed (use assms in \<open>simp add: advance_def\<close>)

section \<open>Runs\<close>

lemma run_samples_simps [simp]:
  "run_samples t s [] = s"
  "run_samples t s (x # xs) = run_samples t (advance s x t) xs"
  "run_samples t s (xs @ ys) = run_samples t (run_samples t s xs) ys"
  by (simp_all add: run_samples_def)

lemma votes_append: "votes t s (xs @ ys) = votes t s xs @ votes t (run_samples t s xs) ys"
  by (induction xs arbitrary: s) (auto simp: advance_def)

definition pending_votes :: "rtt_state \<Rightarrow> tier list" where
  "pending_votes s =
     (case pending_tier s of None \<Rightarrow> [] | Some c \<Rightarrow> replicate (nat (pending_count s)) c)"

text \<open>The pending part of the state records the last votes cast, all for one other tier.\<close>

lemma advance_pending_votes:
  assumes "0 < transition_samples t" "pending_ok t s" "sample_ok x"
  shows "\<exists>p. pending_votes s @ [vote t s x] = p @ pending_votes (advance s x t)"
proof -
  have "pending_votes (advance s x t) = [] \<or>
        pending_votes (advance s x t) = pending_votes s @ [vote t s x] \<or>
        pending_votes (advance s x t) = [vote t s x]"
    using assms
    by (auto simp: advance_def pending_votes_def vote_def Let_def pending_ok_def nat_add_distrib
        replicate_append_same split: option.splits if_splits)
  then show ?thesis by auto
qed

lemma run_pending_votes:
  assumes "0 < transition_samples t" "pending_ok t s"
  shows "\<exists>p. pending_votes s @ votes t s xs = p @ pending_votes (run_samples t s xs)"
  using assms
proof (induction xs arbitrary: s)
  case Nil
  then show ?case by simp
next
  case (Cons x xs)
  show ?case
  proof (cases "sample_ok x")
    case True
    from advance_pending_votes [OF Cons.prems True] obtain p
      where p: "pending_votes s @ [vote t s x] = p @ pending_votes (advance s x t)" ..
    from Cons.IH [OF Cons.prems(1) advance_pending_ok [OF Cons.prems]] obtain q
      where "pending_votes (advance s x t) @ votes t (advance s x t) xs =
        q @ pending_votes (run_samples t (advance s x t) xs)" ..
    then have "(pending_votes s @ [vote t s x]) @ votes t (advance s x t) xs =
        (p @ q) @ pending_votes (run_samples t (advance s x t) xs)"
      unfolding p by simp
    with True show ?thesis by auto
  next
    case False
    then have "advance s x t = s" by (simp add: advance_def)
    with False Cons show ?thesis by simp
  qed
qed

lemma run_pending_ok:
  "0 < transition_samples t \<Longrightarrow> pending_ok t s \<Longrightarrow> pending_ok t (run_samples t s xs)"
  by (induction xs arbitrary: s) (auto intro: advance_pending_ok)

lemma advance_commit:
  assumes "0 < transition_samples t" "pending_ok t s" "cur_tier (advance s x t) \<noteq> cur_tier s"
  shows "sample_ok x" and "cur_tier (advance s x t) = vote t s x"
    and "\<exists>p. pending_votes s @ [vote t s x] =
               p @ replicate (nat (transition_samples t)) (vote t s x)"
proof -
  show so: "sample_ok x" using assms(3) by (cases "sample_ok x") (simp_all add: advance_def)
  show "cur_tier (advance s x t) = vote t s x"
    using assms(3) so by (auto simp: advance_def vote_def Let_def split: if_splits)
  show "\<exists>p. pending_votes s @ [vote t s x] =
      p @ replicate (nat (transition_samples t)) (vote t s x)"
  proof (cases "Some (vote t s x) = pending_tier s")
    case True
    then have pv: "pending_votes s @ [vote t s x] =
        replicate (nat (pending_count s) + 1) (vote t s x)"
      by (auto simp: pending_votes_def replicate_append_same split: option.splits)
    have "transition_samples t \<le> pending_count s + 1"
      using True so assms(3) by (auto simp: advance_def vote_def Let_def split: if_splits)
    then have "nat (pending_count s) + 1 =
        (nat (pending_count s) + 1 - nat (transition_samples t)) + nat (transition_samples t)"
      using assms(1) by linarith
    then show ?thesis unfolding pv by (metis replicate_add)
  next
    case False
    then have "transition_samples t = 1"
      using so assms(1,3) by (auto simp: advance_def vote_def Let_def split: if_splits)
    then show ?thesis by simp
  qed
qed

lemma votes_all_cur:
  "pending_tier s = None \<Longrightarrow> list_all (\<lambda>c. c = cur_tier s) (votes t s xs) \<Longrightarrow>
     cur_tier (run_samples t s xs) = cur_tier s \<and> pending_tier (run_samples t s xs) = None"
proof (induction xs arbitrary: s)
  case (Cons x xs)
  show ?case
  proof (cases "sample_ok x")
    case True
    with Cons.prems have "vote t s x = cur_tier s" by simp
    with True have "cur_tier (advance s x t) = cur_tier s" "pending_tier (advance s x t) = None"
      by (auto simp: advance_def vote_def Let_def)
    with True Cons show ?thesis by simp
  next
    case False
    with Cons show ?thesis by (simp add: advance_def)
  qed
qed simp

text \<open>A streak that is still too short leaves the tier and is counted exactly.\<close>

lemma short_streak:
  assumes "pending_ok t s" "c \<noteq> cur_tier s" "list_all (\<lambda>v. v = c) (votes t s xs)"
    "pending_tier s = None \<or> pending_tier s = Some c"
    "pending_count s + int (length (votes t s xs)) < transition_samples t"
  shows "cur_tier (run_samples t s xs) = cur_tier s \<and>
     pending_count (run_samples t s xs) = pending_count s + int (length (votes t s xs)) \<and>
     (pending_tier (run_samples t s xs) = None \<or> pending_tier (run_samples t s xs) = Some c)"
  using assms
proof (induction xs arbitrary: s)
  case (Cons x xs)
  show ?case
  proof (cases "sample_ok x")
    case True
    then have v: "vote t s x = c" using Cons.prems(3) by simp
    have cnt: "pending_tier s = None \<Longrightarrow> pending_count s = 0"
      using Cons.prems(1) by (simp add: pending_ok_def)
    have a: "advance s x t = \<lparr>ewma = Some (next_ewma s x t), cur_tier = cur_tier s,
        pending_tier = Some c, pending_count = pending_count s + 1\<rparr>"
      using True v cnt Cons.prems(2,4,5)
      by (auto simp: advance_def vote_def Let_def)
    have "0 \<le> pending_count s"
      using Cons.prems(1) by (auto simp: pending_ok_def split: option.splits)
    moreover have "pending_ok t (advance s x t)"
      unfolding a using Cons.prems(2,5) True calculation by (auto simp: pending_ok_def)
    ultimately show ?thesis
      using Cons.IH [of "advance s x t"] Cons.prems True by (auto simp: a)
  next
    case False
    with Cons show ?thesis by (simp add: advance_def)
  qed
qed simp

lemma in_band_candidate:
  assumes "thresholds_ok t" "in_band t c v"
  shows "candidate_tier v c t = c"
proof -
  have v: "v \<noteq> NaN" using assms(2) by (cases c; cases v) (auto simp: in_band_def elim: f_le.elims)
  have nl: "f_le y v \<Longrightarrow> \<not> f_lt v y" for y by (cases y; cases v) auto
  have "f_lt v (f_sub (good_ms t) (hysteresis_ms t)) \<Longrightarrow>
      f_lt v (f_sub (degraded_ms t) (hysteresis_ms t))"
    by (rule f_lt_le_trans [OF _ down_thresholds(3)[OF assms(1)]])
  then show ?thesis
    using assms(2) nl unfolding candidate_tier_cases [OF assms(1) v]
    by (cases c) (auto simp: in_band_def)
qed

lemma candidate_tier_mono:
  assumes ok: "thresholds_ok t" and vw: "f_le v w"
  shows "tier_order (candidate_tier v c t) \<le> tier_order (candidate_tier w c t)"
proof -
  have "v \<noteq> NaN" "w \<noteq> NaN" using vw by (cases v; cases w; simp)+
  moreover have "f_lt w y \<Longrightarrow> f_lt v y" for y using f_le_lt_trans [OF vw] .
  ultimately show ?thesis
    by (cases c) (auto simp: candidate_tier_cases [OF ok])
qed

lemma last_ok_sample:
  assumes "votes t s xs \<noteq> []"
  obtains ys x zs where "xs = ys @ x # zs" "sample_ok x" "run_samples t s xs = run_samples t s (ys @ [x])"
    "votes t s xs = votes t s ys @ [vote t (run_samples t s ys) x]"
proof -
  have no: "\<forall>z \<in> set zs. \<not> sample_ok z \<Longrightarrow> votes t r zs = [] \<and> run_samples t r zs = r" for r zs
    by (induction zs arbitrary: r) (auto simp: advance_def)
  have "\<exists>x \<in> set xs. sample_ok x" using no [of xs s] assms by blast
  from split_list_last_prop [OF this] obtain ys x zs where
    x: "xs = ys @ x # zs" "sample_ok x" "\<forall>z \<in> set zs. \<not> sample_ok z" by blast
  show thesis
    using that [OF x(1,2)] no [OF x(3)] x(1,2) by (simp add: votes_append)
qed

lemma streak_reaches_tier:
  assumes N: "0 < transition_samples t" and ok: "pending_ok t s" and none: "pending_tier s = None"
    and c: "c \<noteq> cur_tier s" and all: "list_all (\<lambda>v. v = c) (votes t s xs)"
    and len: "int (length (votes t s xs)) = transition_samples t"
  shows "cur_tier (run_samples t s xs) = c"
proof -
  have "votes t s xs \<noteq> []" using len N by auto
  then obtain ys x zs where d: "sample_ok x"
    "run_samples t s xs = run_samples t s (ys @ [x])"
    "votes t s xs = votes t s ys @ [vote t (run_samples t s ys) x]"
    by (rule last_ok_sample)
  let ?r = "run_samples t s ys"
  have cnt: "pending_count s = 0" using ok none by (simp add: pending_ok_def)
  have sh: "cur_tier ?r = cur_tier s \<and> pending_count ?r = pending_count s + int (length (votes t s ys)) \<and>
      (pending_tier ?r = None \<or> pending_tier ?r = Some c)"
    using short_streak [OF ok c, of ys] all len d(3) none cnt by simp
  have v: "vote t ?r x = c" using all d(3) by simp
  have L: "pending_count ?r + 1 = transition_samples t" using sh cnt len d(3) by simp
  have "pending_tier ?r = None \<Longrightarrow> pending_count ?r = 0"
    using run_pending_ok [OF N ok, of ys] by (simp add: pending_ok_def)
  then have "cur_tier (advance ?r x t) = c"
    using v L sh c d(1) by (auto simp: advance_def vote_def Let_def)
  then show ?thesis using d(2) by simp
qed

section \<open>Properties\<close>

text \<open>
  C11.  No flapping: whenever a run of samples changes the tier, the last
  \<open>transition_samples\<close> accepted samples all voted for the tier that is committed.
\<close>

theorem tier_change_needs_streak:
  assumes "0 < transition_samples t" "pending_ok t s" "pending_tier s = None"
    and "cur_tier (run_samples t s (xs @ [x])) \<noteq> cur_tier (run_samples t s xs)"
  shows "\<exists>p. votes t s (xs @ [x]) =
      p @ replicate (nat (transition_samples t)) (cur_tier (run_samples t s (xs @ [x])))"
proof -
  let ?r = "run_samples t s xs"
  have r: "pending_ok t ?r" by (rule run_pending_ok [OF assms(1,2)])
  have ch: "cur_tier (advance ?r x t) \<noteq> cur_tier ?r" using assms(4) by simp
  note c = advance_commit [OF assms(1) r ch]
  obtain p where "votes t s xs = p @ pending_votes ?r"
    using run_pending_votes [OF assms(1,2), of xs] assms(3) by (auto simp: pending_votes_def [of s])
  then have "votes t s (xs @ [x]) = p @ (pending_votes ?r @ [vote t ?r x])"
    using c(1) by (simp add: votes_append)
  with c(2,3) show ?thesis by (metis append_assoc run_samples_simps)
qed

text \<open>
  C35.  Responsiveness: from a settled state, \<open>transition_samples\<close> accepted samples that all
  vote for one other tier bring the client to that tier.
\<close>

theorem streak_commits:
  assumes "0 < transition_samples t" "pending_ok t s" "pending_tier s = None" "c \<noteq> cur_tier s"
    "votes t s xs = replicate (nat (transition_samples t)) c"
  shows "cur_tier (run_samples t s xs) = c"
  using streak_reaches_tier [OF assms(1-4)] assms(1,5) by (simp add: list_all_length)

text \<open>
  The dwell band: while every smoothed value lies in the current tier's band (whose lower
  edge is the up-threshold minus the hysteresis), the tier never changes and nothing is pending.
\<close>

theorem dwell_band_stable:
  assumes "thresholds_ok t" "pending_tier s = None"
    "list_all (in_band t (cur_tier s)) (smoothed t s xs)"
  shows "cur_tier (run_samples t s xs) = cur_tier s \<and> pending_tier (run_samples t s xs) = None"
  using assms(2,3)
proof (induction xs arbitrary: s)
  case (Cons x xs)
  show ?case
  proof (cases "sample_ok x")
    case True
    with Cons.prems have "candidate_tier (next_ewma s x t) (cur_tier s) t = cur_tier s"
      by (intro in_band_candidate [OF assms(1)]) simp
    with True have "cur_tier (advance s x t) = cur_tier s" "pending_tier (advance s x t) = None"
      by (simp_all add: advance_def Let_def)
    with Cons True show ?thesis by simp
  next
    case False
    with Cons show ?thesis by (simp add: advance_def)
  qed
qed simp

text \<open>
  C34.  Samples keep the state well formed, however many there are: the pending pair stays consistent
  and below the commit count, and the smoothed value stays a nonnegative finite float.  When the
  samples that are used, and the value that was stored, are at most a power of two below \<open>2 ^ 1024\<close>,
  so is every later value: the rounded weights and products never drift above that bound, and the
  smoothing cannot overflow.
\<close>

theorem samples_keep_state_ok:
  assumes "thresholds_ok t" "rtt_state_ok t s" "ewma_below k s" "k < 1024"
    and "list_all (\<lambda>x. sample_ok x \<longrightarrow> f_le x (Fin (2 ^ k))) xs"
  shows "rtt_state_ok t (run_samples t s xs) \<and> ewma_below k (run_samples t s xs)"
  using assms(2,3,5)
proof (induction xs arbitrary: s)
  case (Cons x xs)
  have "0 < transition_samples t" using assms(1) by (simp add: thresholds_ok_def)
  then have "rtt_state_ok t (advance s x t) \<and> ewma_below k (advance s x t)"
    using Cons.prems advance_pending_ok [of t s x] advance_ewma_ok [OF assms(1) _ _ assms(4), of s x]
    by (simp add: rtt_state_ok_def)
  then show ?case using Cons by simp
qed simp

section \<open>Witnesses\<close>

text \<open>The default settings with smoothing off, and a run of three slow samples.\<close>

definition demo_thresholds :: thresholds where
  "demo_thresholds = \<lparr>good_ms = Fin 150, degraded_ms = Fin 500, hysteresis_ms = Fin 30,
     transition_samples = 3, alpha = Fin 1\<rparr>"

lemma b64_small_ints [simp]:
  "b64 1 = Fin 1" "b64 30 = Fin 30" "b64 120 = Fin 120" "b64 150 = Fin 150" "b64 470 = Fin 470"
  "b64 500 = Fin 500" "b64 800 = Fin 800" "b64 900 = Fin 900" "b64 200 = Fin 200" "b64 140 = Fin 140"
  using b64_of_int [of 1] b64_of_int [of 30] b64_of_int [of 120] b64_of_int [of 150]
    b64_of_int [of 470] b64_of_int [of 500] b64_of_int [of 800] b64_of_int [of 900]
    b64_of_int [of 200] b64_of_int [of 140] by simp_all

lemma demo_thresholds_ok: "thresholds_ok demo_thresholds"
  by (simp add: thresholds_ok_def demo_thresholds_def f_valid_Fin)

lemmas rtt_eval = demo_thresholds_def RttState_default_def advance_def next_ewma_def vote_def
  sample_ok_def candidate_tier_def f_sub_def Let_def pending_ok_def in_band_def rtt_state_ok_def
  ewma_ok_def

theorem tier_change_needs_streak_witness:
  "cur_tier (run_samples demo_thresholds RttState_default ([Fin 800, Fin 900] @ [Fin 800])) = POOR \<and>
   (\<exists>p. votes demo_thresholds RttState_default ([Fin 800, Fin 900] @ [Fin 800]) =
      p @ replicate (nat (transition_samples demo_thresholds))
        (cur_tier (run_samples demo_thresholds RttState_default ([Fin 800, Fin 900] @ [Fin 800]))))"
proof
  show t: "cur_tier (run_samples demo_thresholds RttState_default ([Fin 800, Fin 900] @ [Fin 800])) = POOR"
    by (simp add: rtt_eval)
  have "cur_tier (run_samples demo_thresholds RttState_default [Fin 800, Fin 900]) = GOOD"
    by (simp add: rtt_eval)
  with t show "\<exists>p. votes demo_thresholds RttState_default ([Fin 800, Fin 900] @ [Fin 800]) =
      p @ replicate (nat (transition_samples demo_thresholds))
        (cur_tier (run_samples demo_thresholds RttState_default ([Fin 800, Fin 900] @ [Fin 800])))"
    by (intro tier_change_needs_streak)
       (simp_all add: demo_thresholds_def RttState_default_def pending_ok_def)
qed

theorem streak_commits_witness:
  "cur_tier (run_samples demo_thresholds RttState_default [Fin 200, Fin 140, Fin 200, Fin 200, Fin 200])
     = DEGRADED"
proof -
  let ?s = "run_samples demo_thresholds RttState_default [Fin 200, Fin 140]"
  have s: "?s = \<lparr>ewma = Some (Fin 140), cur_tier = GOOD, pending_tier = None, pending_count = 0\<rparr>"
    by (simp add: rtt_eval)
  have "cur_tier (run_samples demo_thresholds ?s [Fin 200, Fin 200, Fin 200]) = DEGRADED"
  proof (rule streak_commits)
    show "votes demo_thresholds ?s [Fin 200, Fin 200, Fin 200] =
        replicate (nat (transition_samples demo_thresholds)) DEGRADED"
      unfolding s by (simp add: rtt_eval numeral_3_eq_3)
  qed (simp_all only: s, simp_all add: demo_thresholds_def pending_ok_def)
  then show ?thesis by simp
qed

theorem dwell_band_stable_witness:
  "cur_tier (run_samples demo_thresholds
     \<lparr>ewma = None, cur_tier = DEGRADED, pending_tier = None, pending_count = 0\<rparr>
     [Fin 140, Fin 200, Fin 120]) = DEGRADED"
  using dwell_band_stable [OF demo_thresholds_ok,
      of "\<lparr>ewma = None, cur_tier = DEGRADED, pending_tier = None, pending_count = 0\<rparr>"
         "[Fin 140, Fin 200, Fin 120]"]
  by (simp add: rtt_eval)

text \<open>A smoothing weight of a half, and a sample that is not a number among the others.\<close>

theorem samples_keep_state_ok_witness:
  "rtt_state_ok (demo_thresholds\<lparr>alpha := Fin (1 / 2)\<rparr>)
     (run_samples (demo_thresholds\<lparr>alpha := Fin (1 / 2)\<rparr>) RttState_default [Fin 800, NaN, Fin 900]) \<and>
   ewma_below 10 (run_samples (demo_thresholds\<lparr>alpha := Fin (1 / 2)\<rparr>) RttState_default [Fin 800, NaN, Fin 900])"
proof (rule samples_keep_state_ok)
  have "b64 (1 / 2) = Fin (1 / 2)" by code_simp
  then show "thresholds_ok (demo_thresholds\<lparr>alpha := Fin (1 / 2)\<rparr>)"
    by (simp add: thresholds_ok_def demo_thresholds_def f_valid_Fin)
qed (simp_all add: rtt_eval ewma_below_def)

end
