(* ===== verification/Py_Bytes.thy ===== *)
theory Py_Bytes
  imports Py_String "HOL-Library.Word"
begin

text \<open>
  Python's \<^verbatim>\<open>bytes\<close> as lists of 8-bit words, the Latin-1 codec and the Base64 codec of the
  standard library (\<^verbatim>\<open>base64.b64encode\<close>, and \<^verbatim>\<open>base64.b64decode\<close> in its default lenient
  mode), with the round trips the cache and the write queue rely on.
\<close>

type_synonym byte = "8 word"
type_synonym bytes = "byte list"

section \<open>Latin-1\<close>

definition latin1_decode :: "bytes \<Rightarrow> string" where
  "latin1_decode bs = map (\<lambda>b. char_of (unat b)) bs"

definition latin1_encode :: "string \<Rightarrow> bytes" where
  "latin1_encode s = map (\<lambda>c. of_nat (ccode c)) s"

lemma unat_byte_less: "unat (b :: byte) < 256"
  using unsigned_less [of b, where ?'a = nat] by simp

lemma latin1_roundtrip [simp]: "latin1_encode (latin1_decode bs) = bs"
  by (induction bs) (simp_all add: latin1_encode_def latin1_decode_def ccode_def unat_byte_less)

lemma latin1_roundtrip_str [simp]: "latin1_decode (latin1_encode s) = s"
proof -
  have "char_of (unat (of_nat (ccode c) :: byte)) = c" for c
    by (simp add: ccode_def unat_of_nat)
  then show ?thesis by (simp add: latin1_encode_def latin1_decode_def map_idI)
qed

section \<open>Base64\<close>

definition b64_char :: "nat \<Rightarrow> char" where
  \<comment> \<open>the alphabet: capitals, small letters, digits, plus and slash\<close>
  "b64_char n =
     (if n < 26 then char_of (n + 65)
      else if n < 52 then char_of (n + 71)
      else if n < 62 then char_of (n - 4)
      else if n = 62 then CHR ''+'' else CHR ''/'')"

definition b64_val :: "char \<Rightarrow> nat option" where
  "b64_val c =
     (let n = ccode c
      in if 65 \<le> n \<and> n \<le> 90 then Some (n - 65)
         else if 97 \<le> n \<and> n \<le> 122 then Some (n - 71)
         else if 48 \<le> n \<and> n \<le> 57 then Some (n + 4)
         else if n = 43 then Some 62
         else if n = 47 then Some 63
         else None)"

fun b64encode :: "bytes \<Rightarrow> string" where
  "b64encode [] = []"
| "b64encode [a] =
     [b64_char (unat a div 4), b64_char (unat a mod 4 * 16), CHR ''='', CHR ''='']"
| "b64encode [a, b] =
     [b64_char (unat a div 4), b64_char (unat a mod 4 * 16 + unat b div 16),
      b64_char (unat b mod 16 * 4), CHR ''='']"
| "b64encode (a # b # c # bs) =
     b64_char (unat a div 4) # b64_char (unat a mod 4 * 16 + unat b div 16) #
     b64_char (unat b mod 16 * 4 + unat c div 64) # b64_char (unat c mod 64) # b64encode bs"

text \<open>
  The decoder's loop: position in the group of four, the bits left over, the padding characters
  seen, the bytes produced so far (in reverse).  \<^const>\<open>None\<close> is \<^verbatim>\<open>binascii.Error\<close>.
\<close>

fun a2b_base64 :: "nat \<Rightarrow> nat \<Rightarrow> nat \<Rightarrow> bytes \<Rightarrow> string \<Rightarrow> bytes option" where
  "a2b_base64 quad left pads out [] = (if quad = 0 then Some (rev out) else None)"
| "a2b_base64 quad left pads out (c # s) =
     (if c = CHR ''=''
      then if quad \<ge> 2
           then if quad + (pads + 1) \<ge> 4 then Some (rev out)
                else a2b_base64 quad left (pads + 1) out s
           else a2b_base64 quad left pads out s
      else case b64_val c of
             None \<Rightarrow> a2b_base64 quad left pads out s
           | Some v \<Rightarrow>
               if quad = 0 then a2b_base64 1 v 0 out s
               else if quad = 1
                    then a2b_base64 2 (v mod 16) 0 (of_nat (left * 4 + v div 16) # out) s
               else if quad = 2
                    then a2b_base64 3 (v mod 4) 0 (of_nat (left * 16 + v div 4) # out) s
               else a2b_base64 0 0 0 (of_nat (left * 64 + v) # out) s)"

definition b64decode :: "string \<Rightarrow> bytes option" where
  "b64decode s = a2b_base64 0 0 0 [] s"

lemma b64_val_char: "n < 64 \<Longrightarrow> b64_val (b64_char n) = Some n \<and> b64_char n \<noteq> CHR ''=''"
proof -
  assume n: "n < 64"
  have "b64_val (b64_char n) = Some n"
    using n by (auto simp: b64_char_def b64_val_def ccode_def Let_def)
  moreover have "b64_val (CHR ''='') = None" by (simp add: b64_val_def ccode_def)
  ultimately show ?thesis by (metis option.distinct(1))
qed

lemma a2b_step:
  "n < 64 \<Longrightarrow> a2b_base64 quad left pads out (b64_char n # s) =
     (if quad = 0 then a2b_base64 1 n 0 out s
      else if quad = 1 then a2b_base64 2 (n mod 16) 0 (of_nat (left * 4 + n div 16) # out) s
      else if quad = 2 then a2b_base64 3 (n mod 4) 0 (of_nat (left * 16 + n div 4) # out) s
      else a2b_base64 0 0 0 (of_nat (left * 64 + n) # out) s)"
  using b64_val_char [of n] by simp

lemma byte_split_bounds:
  "unat (a :: byte) div 4 < 64" "unat a mod 4 * 16 < 64" "unat a mod 4 * 16 + unat (b :: byte) div 16 < 64"
  "unat b mod 16 * 4 < 64" "unat b mod 16 * 4 + unat (c :: byte) div 64 < 64" "unat c mod 64 < 64"
  using unat_byte_less [of a] unat_byte_less [of b] unat_byte_less [of c] by linarith+

lemma sextet_split:
  "y < 256 \<Longrightarrow> (p * 16 + y div 16) div 16 = (p :: nat)" "y < 256 \<Longrightarrow> (p * 16 + y div 16) mod 16 = y div 16"
  "y < 256 \<Longrightarrow> (p * 4 + y div 64) div 4 = p" "y < 256 \<Longrightarrow> (p * 4 + y div 64) mod 4 = y div 64"
proof -
  assume y: "y < 256"
  then have "y div 16 < 16" "y div 64 < 4" by linarith+
  then show "(p * 16 + y div 16) div 16 = p" "(p * 16 + y div 16) mod 16 = y div 16"
    "(p * 4 + y div 64) div 4 = p" "(p * 4 + y div 64) mod 4 = y div 64"
    by (simp_all add: div_add1_eq mod_add_eq)
qed

lemma byte_of_unat: "of_nat (unat (a :: byte)) = a"
  by simp

lemma byte_join:
  "unat (a :: byte) div 4 * 4 + unat a mod 4 * 16 div 16 = unat a"
  "unat a div 4 * 4 + (unat a mod 4 * 16 + unat (b :: byte) div 16) div 16 = unat a"
  "(unat a mod 4 * 16 + unat b div 16) mod 16 * 16 + unat b mod 16 * 4 div 4 = unat b"
  "(unat a mod 4 * 16 + unat b div 16) mod 16 * 16 + (unat b mod 16 * 4 + unat (c :: byte) div 64) div 4 = unat b"
  "(unat b mod 16 * 4 + unat c div 64) mod 4 * 64 + unat c mod 64 = unat c"
  by (simp_all only: sextet_split unat_byte_less div_mult_mod_eq nonzero_mult_div_cancel_right
      zero_neq_numeral not_False_eq_True)

lemma a2b_group:
  "a2b_base64 0 0 0 out (b64_char (unat (a :: byte) div 4) #
     b64_char (unat a mod 4 * 16 + unat (b :: byte) div 16) #
     b64_char (unat b mod 16 * 4 + unat (c :: byte) div 64) # b64_char (unat c mod 64) # s) =
   a2b_base64 0 0 0 (c # b # a # out) s"
  by (simp only: a2b_step byte_split_bounds byte_join byte_of_unat) simp

lemma a2b_b64encode: "a2b_base64 0 0 0 out (b64encode bs) = Some (rev out @ bs)"
proof (induction bs arbitrary: out rule: b64encode.induct)
  case (2 a)
  have "a2b_base64 0 0 0 out (b64_char (unat a div 4) # b64_char (unat a mod 4 * 16) # ''=='') =
      Some (rev (a # out))"
    by (simp only: a2b_step byte_split_bounds byte_join byte_of_unat) simp
  then show ?case by simp
next
  case (3 a b)
  have "a2b_base64 0 0 0 out (b64_char (unat a div 4) # b64_char (unat a mod 4 * 16 + unat b div 16) #
      b64_char (unat b mod 16 * 4) # ''='') = Some (rev (b # a # out))"
    by (simp only: a2b_step byte_split_bounds byte_join byte_of_unat) simp
  then show ?case by simp
next
  case (4 a b c bs)
  show ?case
    using "4.IH" [of "c # b # a # out"] by (simp only: b64encode.simps a2b_group) simp
qed simp

lemma b64_roundtrip [simp]: "b64decode (b64encode bs) = Some bs"
  by (simp add: b64decode_def a2b_b64encode)

end
