(* ===== verification/Py_Json.thy ===== *)
theory Py_Json
  imports Py_Float
begin

text \<open>
  JSON documents as \<^verbatim>\<open>json.loads\<close> returns them, with Python's distinction of \<^verbatim>\<open>int\<close> and
  \<^verbatim>\<open>float\<close>, and the conversions the gateway applies to them.  The text codec itself
  (\<^verbatim>\<open>json.loads\<close>, \<^verbatim>\<open>json.dumps\<close>) is a parameter of the definitions that use it:
  \<open>string \<Rightarrow> (py_error, json) result\<close>, where the error is \<^verbatim>\<open>ValueError\<close> for text that is not JSON
  and \<^verbatim>\<open>RecursionError\<close> for text nested too deeply.
\<close>

datatype json =
    JNull
  | JBool bool
  | JInt int
  | JFloat pyfloat
  | JStr string
  | JArr "json list"
  | JObj "(string \<times> json) list"

lemma json_arr_size [termination_simp]: "x \<in> set xs \<Longrightarrow> size (x :: json) < Suc (size_list size xs)"
  by (induction xs) auto

lemma json_obj_size [termination_simp]:
  "(k, x) \<in> set ps \<Longrightarrow> size (x :: json) < Suc (size_list (size_prod (\<lambda>k. 0) size) ps)"
  by (induction ps) auto

lemma json_zip_size [termination_simp]:
  "(x, y) \<in> set (zip xs ys) \<Longrightarrow> size (x :: json) < Suc (size_list size xs)"
  by (drule set_zip_leftD) (rule json_arr_size)

type_synonym json_loads = "string \<Rightarrow> (py_error, json) result"
type_synonym json_dumps = "json \<Rightarrow> string"

section \<open>Python equality\<close>

text \<open>
  \<^verbatim>\<open>==\<close> on documents: numbers and booleans compare by value, and NaN differs from itself, except
  that members of a container that are the same object count as equal.
\<close>

fun num_val :: "json \<Rightarrow> pyfloat option" where
  "num_val (JBool b) = Some (Fin (if b then 1 else 0))"
| "num_val (JInt i) = Some (Fin (of_int i))"
| "num_val (JFloat f) = Some f"
| "num_val _ = None"

fun py_eq :: "json \<Rightarrow> json \<Rightarrow> bool" where
  "py_eq JNull JNull = True"
| "py_eq (JStr a) (JStr b) = (a = b)"
| "py_eq (JArr xs) (JArr ys) =
     (length xs = length ys \<and> list_all (\<lambda>(x, y). x = y \<or> py_eq x y) (zip xs ys))"
| "py_eq (JObj ps) (JObj qs) =
     (length ps = length qs \<and>
      list_all (\<lambda>(k, x). case map_of qs k of None \<Rightarrow> False | Some y \<Rightarrow> x = y \<or> py_eq x y) ps)"
| "py_eq a b =
     (case (num_val a, num_val b) of (Some x, Some y) \<Rightarrow> x = y \<and> x \<noteq> NaN | _ \<Rightarrow> False)"

text \<open>Truth value testing.\<close>

fun truthy :: "json \<Rightarrow> bool" where
  "truthy JNull = False"
| "truthy (JBool b) = b"
| "truthy (JInt i) = (i \<noteq> 0)"
| "truthy (JFloat f) = (f \<noteq> Fin 0)"
| "truthy (JStr s) = (s \<noteq> [])"
| "truthy (JArr xs) = (xs \<noteq> [])"
| "truthy (JObj ps) = (ps \<noteq> [])"

section \<open>Conversions\<close>

text \<open>\<^verbatim>\<open>int(s)\<close> on a string.\<close>

definition py_int_of_str :: "string \<Rightarrow> int option" where
  "py_int_of_str s0 =
     (let s1 = py_strip s0;
          (neg, ds) = (case s1 of
              c # r \<Rightarrow> if c = CHR ''-'' then (True, r) else if c = CHR ''+'' then (False, r) else (False, s1)
            | [] \<Rightarrow> (False, s1));
          d = filter (\<lambda>c. c \<noteq> CHR ''_'') ds
      in if underscores_ok False ds \<and> d \<noteq> [] \<and> list_all is_digit d \<and> length d \<le> 4300
         then Some (if neg then - int (nat_of_digits d) else int (nat_of_digits d))
         else None)"

definition trunc_rat :: "rat \<Rightarrow> int" where
  "trunc_rat q = (if q < 0 then \<lceil>q\<rceil> else \<lfloor>q\<rfloor>)"

fun py_int_of_json :: "json \<Rightarrow> (py_error, int) result" where
  "py_int_of_json (JInt i) = Inr i"
| "py_int_of_json (JBool b) = Inr (if b then 1 else 0)"
| "py_int_of_json (JFloat (Fin q)) = Inr (trunc_rat q)"
| "py_int_of_json (JFloat NaN) = Inl ValueError"
| "py_int_of_json (JFloat _) = Inl OverflowError"
| "py_int_of_json (JStr s) = (case py_int_of_str s of None \<Rightarrow> Inl ValueError | Some i \<Rightarrow> Inr i)"
| "py_int_of_json _ = Inl TypeError"

text \<open>\<^verbatim>\<open>float(v)\<close>; a float rounds a large integer and raises beyond its range.\<close>

fun py_float_of_json :: "json \<Rightarrow> (py_error, pyfloat) result" where
  "py_float_of_json (JFloat f) = Inr f"
| "py_float_of_json (JInt i) =
     (case b64 (of_int i) of Fin q \<Rightarrow> Inr (Fin q) | _ \<Rightarrow> Inl OverflowError)"
| "py_float_of_json (JBool b) = Inr (Fin (if b then 1 else 0))"
| "py_float_of_json (JStr s) = (case py_float_of_str s of None \<Rightarrow> Inl ValueError | Some x \<Rightarrow> Inr x)"
| "py_float_of_json _ = Inl TypeError"

text \<open>
  \<^verbatim>\<open>float(str(v))\<close>: the text of a number reads back as the number, and the text of a boolean, a
  null or a container is no number.
\<close>

fun py_float_of_text :: "json \<Rightarrow> pyfloat option" where
  "py_float_of_text (JFloat f) = Some f"
| "py_float_of_text (JInt i) = Some (b64 (of_int i))"
| "py_float_of_text (JStr s) = py_float_of_str s"
| "py_float_of_text _ = None"

section \<open>Decimal integers read back\<close>

lemma length_str_of_nat: "n < 10 ^ k \<Longrightarrow> 0 < k \<Longrightarrow> length (str_of_nat n) \<le> k"
proof (induction n arbitrary: k rule: str_of_nat.induct)
  case (1 n)
  show ?case
  proof (cases "n < 10")
    case True
    then show ?thesis using "1.prems" by (subst str_of_nat.simps) simp
  next
    case False
    obtain j where k: "k = Suc j" using "1.prems"(2) by (cases k) auto
    have "n div 10 < 10 ^ j" using "1.prems"(1) unfolding k by (simp add: less_mult_imp_div_less mult.commute)
    moreover have "0 < j" using False "1.prems"(1) k by (cases j) auto
    ultimately have "length (str_of_nat (n div 10)) \<le> j" using "1.IH" False by blast
    then show ?thesis using False k by (subst str_of_nat.simps) simp
  qed
qed

lemma digit_not_special: "is_digit c \<Longrightarrow> \<not> py_isspace c \<and> c \<noteq> CHR ''_'' \<and> c \<noteq> CHR ''-'' \<and> c \<noteq> CHR ''+''"
  by (auto simp: is_digit_def py_isspace_def ccode_def Let_def)

lemma py_strip_digits: "list_all is_digit s \<Longrightarrow> py_strip s = s"
proof -
  assume d: "list_all is_digit s"
  have id: "list_all is_digit u \<Longrightarrow> dropWhile py_isspace u = u" for u
    by (cases u) (auto simp: digit_not_special)
  show ?thesis using id [OF d] id [of "rev s"] d by (simp add: py_strip_def py_lstrip_by_def py_rstrip_by_def)
qed

lemma underscores_digits: "list_all is_digit s \<Longrightarrow> s \<noteq> [] \<or> b \<Longrightarrow> underscores_ok b s"
  by (induction s arbitrary: b) (auto simp: digit_not_special)

text \<open>The interpreter converts at most 4300 digits.\<close>

definition py_int_limit :: nat where
  "py_int_limit = 10 ^ 4300"

lemma py_int_of_str_nat:
  assumes "n < py_int_limit"
  shows "py_int_of_str (str_of_nat n) = Some (int n)"
proof -
  have d: "list_all is_digit (str_of_nat n)" "str_of_nat n \<noteq> []" using str_of_nat_digits by auto
  then obtain c cs where s: "str_of_nat n = c # cs" by (cases "str_of_nat n") auto
  have c: "c \<noteq> CHR ''-''" "c \<noteq> CHR ''+''" using d s digit_not_special by auto
  have f: "filter (\<lambda>c. c \<noteq> CHR ''_'') (c # cs) = c # cs"
    using d(1) unfolding s by (auto simp: filter_id_conv list_all_iff dest: digit_not_special)
  have len: "length (c # cs) \<le> 4300" using length_str_of_nat [OF assms [unfolded py_int_limit_def]] s by simp
  have u: "underscores_ok False (c # cs)" by (rule underscores_digits) (use d s in auto)
  show ?thesis
    unfolding py_int_of_str_def Let_def s py_strip_digits [OF d(1) [unfolded s]]
    using c f len u d nat_of_digits_str_of_nat [of n] by (simp add: s)
qed

end
