(* ===== verification/Http.thy ===== *)
theory Http
  imports Rtt_State Settings Py_Bytes Py_Json
begin

text \<open>
  The request and response objects as the gateway's code sees them.  Header names reach the
  application in lower case, and a header list may repeat a name.  \<open>request_state\<close> is
  \<^verbatim>\<open>request.state\<close>: an attribute that no code has set yet is \<^const>\<open>None\<close>.  A response is what the
  code passes to the response class; filling in the remaining headers is the framework's part.
\<close>

type_synonym headers = "(string \<times> string) list"

datatype network_quality = NQ_GOOD | NQ_DEGRADED | NQ_POOR | NQ_UNKNOWN

fun quality_value :: "network_quality \<Rightarrow> string" where
  "quality_value NQ_GOOD = ''GOOD''"
| "quality_value NQ_DEGRADED = ''DEGRADED''"
| "quality_value NQ_POOR = ''POOR''"
| "quality_value NQ_UNKNOWN = ''UNKNOWN''"

fun quality_of_tier :: "tier \<Rightarrow> network_quality" where
  "quality_of_tier GOOD = NQ_GOOD"
| "quality_of_tier DEGRADED = NQ_DEGRADED"
| "quality_of_tier POOR = NQ_POOR"

record request =
  req_method :: string
  req_path :: string
  req_query :: string
  req_headers :: headers
  req_client :: "string option" \<comment> \<open>the peer address\<close>

record log_record =
  lg_method :: string
  lg_path :: string
  lg_network_quality :: string
  lg_cache_status :: string
  lg_status_code :: int
  lg_rtt_ms :: pyfloat
  lg_upstream_latency_ms :: "pyfloat option"
  lg_response_size_original :: int
  lg_response_size_optimized :: "int option"
  lg_client_id :: string

datatype auth_type = AuthJwt | AuthApiKey

record request_state =
  st_network_quality :: "network_quality option"
  st_request_start :: "pyfloat option"
  st_upstream_latency_ms :: "pyfloat option"
  st_rtt_ms :: "pyfloat option"
  st_optimizable :: "bool option"
  st_optional_fields :: "string list option"
  st_served_from_cache :: "bool option"
  st_response_size_optimized :: "int option"
  st_request_log_record :: "log_record option"
  st_authenticated :: "bool option"
  st_user_id :: "string option"
  st_is_admin :: "bool option"
  st_auth_type :: "auth_type option"

definition fresh_state :: request_state where
  "fresh_state = \<lparr>st_network_quality = None, st_request_start = None, st_upstream_latency_ms = None,
     st_rtt_ms = None, st_optimizable = None, st_optional_fields = None, st_served_from_cache = None,
     st_response_size_optimized = None, st_request_log_record = None, st_authenticated = None,
     st_user_id = None, st_is_admin = None, st_auth_type = None\<rparr>"

datatype content = Bytes bytes | JsonDoc json | NoContent

record response =
  r_status :: int
  r_headers :: headers
  r_content :: content
  r_media :: "string option"

definition json_detail :: "string \<Rightarrow> content" where
  "json_detail d = JsonDoc (JObj [(''detail'', JStr d)])"

definition json_error :: "int \<Rightarrow> string \<Rightarrow> response" where
  "json_error status detail =
     \<lparr>r_status = status, r_headers = [], r_content = json_detail detail, r_media = None\<rparr>"

text \<open>\<^verbatim>\<open>fastapi.HTTPException\<close> with its status, detail and headers.\<close>

datatype http_exception =
  HTTPException (he_status: int) (he_detail: string) (he_headers: "(string \<times> string) list")

text \<open>
  What a handler reports besides its response: rows for the log writer and calls into
  \<^verbatim>\<open>utils/metrics.py\<close>, in the order they are made.
\<close>

datatype effect =
    EnqueueLog log_record
  | CountQuality string
  | RecordRequest string string string bool
  | RecordSize string string int
  | CacheEvent string
  | ObserveUpstream string pyfloat

text \<open>
  An application answers or raises; what it did to the request's state and what it reported before
  stand in both cases.
\<close>

type_synonym 'r app =
  "request_state \<Rightarrow> 'r \<Rightarrow> ((py_error, response) result \<times> request_state \<times> effect list) \<times> 'r"

section \<open>Header access\<close>

definition header_get :: "headers \<Rightarrow> string \<Rightarrow> string option" where
  \<comment> \<open>the first value of the name\<close>
  "header_get hs name = map_of hs name"

definition header_in :: "string \<Rightarrow> headers \<Rightarrow> bool" where
  "header_in name hs = (map_of hs name \<noteq> None)"

definition header_or :: "headers \<Rightarrow> string \<Rightarrow> string \<Rightarrow> string" where
  "header_or hs name def = (case map_of hs name of None \<Rightarrow> def | Some v \<Rightarrow> v)"

definition set_header :: "string \<Rightarrow> string \<Rightarrow> headers \<Rightarrow> headers" where
  \<comment> \<open>\<^verbatim>\<open>response.headers[name] = v\<close>: one header of that name is left\<close>
  "set_header name v hs = filter (\<lambda>h. fst h \<noteq> py_lower name) hs @ [(py_lower name, v)]"

definition raw_headers :: "(string, string) dict \<Rightarrow> headers" where
  \<comment> \<open>a response class lower-cases the names of the headers it is given\<close>
  "raw_headers d = map (\<lambda>(k, v). (py_lower k, v)) d"

definition dict_of_headers :: "headers \<Rightarrow> (string, string) dict" where
  \<comment> \<open>\<^verbatim>\<open>dict(headers)\<close>: the keys in order, each with its first value\<close>
  "dict_of_headers hs = dict_of_items (map (\<lambda>h. (fst h, header_or hs (fst h) [])) hs)"

lemma header_get_set [simp]:
  "header_get (set_header n v hs) m = (if m = py_lower n then Some v else header_get hs m)"
  by (auto simp: header_get_def set_header_def map_of_filter_key map_add_def
      map_of_filter_key [where P = "\<lambda>k. k \<noteq> py_lower n"] split: option.splits)

lemma map_of_dict_of_headers [simp]: "map_of (dict_of_headers hs) k = header_get hs k"
proof -
  have m: "map_of (rev (map (\<lambda>h. (fst h, f (fst h))) xs)) k = (if k \<in> fst ` set xs then Some (f k) else None)"
    for xs :: headers and f :: "string \<Rightarrow> string"
    by (induction xs) (auto simp: map_add_def split: option.splits)
  have "map_of (dict_of_headers hs) k = (if k \<in> fst ` set hs then Some (header_or hs k []) else None)"
    unfolding dict_of_headers_def map_of_dict_of_items by (rule m)
  moreover have "k \<in> fst ` set hs \<longleftrightarrow> map_of hs k \<noteq> None"
    by (simp only: map_of_eq_None_iff not_not)
  ultimately show ?thesis
    by (cases "map_of hs k") (simp_all add: header_get_def header_or_def)
qed

lemma dict_wf_dict_of_headers [simp]: "dict_wf (dict_of_headers hs)"
  by (simp add: dict_of_headers_def)

end
