(* ===== verification/Client_Identity.thy ===== *)
theory Client_Identity
  imports Http
begin

text \<open>
  \<^verbatim>\<open>gateway/utils/client_identity.py\<close>: the client address behind trusted proxies.  Address
  parsing and network membership (\<^verbatim>\<open>ipaddress\<close>) are the parameter \<open>'ip ip_lib\<close>; the settings
  validator has already parsed every configured network.
\<close>

record 'ip ip_lib =
  ip_address :: "string \<Rightarrow> 'ip option" \<comment> \<open>\<^const>\<open>None\<close>: ValueError\<close>
  ip_str :: "'ip \<Rightarrow> string"
  ip_in_network :: "'ip \<Rightarrow> string \<Rightarrow> bool"
  ip_is_global :: "'ip \<Rightarrow> bool"

definition trusted :: "'ip ip_lib \<Rightarrow> settings \<Rightarrow> string \<Rightarrow> bool" where
  "trusted ipl cfg value =
     (case ip_address ipl value of
        None \<Rightarrow> False
      | Some address \<Rightarrow> list_ex (ip_in_network ipl address) (trusted_proxy_networks cfg))"

fun walk_hops :: "'ip ip_lib \<Rightarrow> settings \<Rightarrow> string \<Rightarrow> string \<Rightarrow> string list \<Rightarrow> string" where
  "walk_hops ipl cfg peer current [] = current"
| "walk_hops ipl cfg peer current (hop # hops) =
     (if \<not> trusted ipl cfg current then current
      else case ip_address ipl (py_strip hop) of
             None \<Rightarrow> peer
           | Some a \<Rightarrow> walk_hops ipl cfg peer (ip_str ipl a) hops)"

definition client_ip :: "'ip ip_lib \<Rightarrow> settings \<Rightarrow> string option \<Rightarrow> string option \<Rightarrow> string" where
  \<comment> \<open>the peer address of the connection, then the X-Forwarded-For header\<close>
  "client_ip ipl cfg host forwarded_for =
     (let peer = (case host of Some h \<Rightarrow> h | None \<Rightarrow> ''unknown'')
      in if \<not> trusted ipl cfg peer then peer
         else let chain = py_split (CHR '','') (case forwarded_for of Some v \<Rightarrow> v | None \<Rightarrow> [])
              in if length chain > 32 then peer
                 else walk_hops ipl cfg peer peer (rev chain))"

definition request_client_ip :: "'ip ip_lib \<Rightarrow> settings \<Rightarrow> request \<Rightarrow> string" where
  "request_client_ip ipl cfg rq =
     client_ip ipl cfg (req_client rq) (header_get (req_headers rq) ''x-forwarded-for'')"

section \<open>Properties\<close>

lemma walk_hops_trusted_prefix:
  assumes "list_all (\<lambda>h. \<exists>a. ip_address ipl (py_strip h) = Some a \<and> trusted ipl cfg (ip_str ipl a)) hs"
    "trusted ipl cfg cur"
  shows "\<exists>c. trusted ipl cfg c \<and> walk_hops ipl cfg peer cur (hs @ rest) = walk_hops ipl cfg peer c rest"
  using assms
proof (induction hs arbitrary: cur)
  case (Cons h hs)
  then obtain a where "ip_address ipl (py_strip h) = Some a" "trusted ipl cfg (ip_str ipl a)" by auto
  with Cons show ?case by simp
qed auto

text \<open>
  A client that reaches the gateway directly, not through a trusted proxy, cannot choose its
  identity: the answer is the connection's peer address, whatever X-Forwarded-For says.
\<close>

theorem untrusted_peer_identity:
  assumes "\<not> trusted ipl cfg peer"
  shows "client_ip ipl cfg (Some peer) xff = peer"
  using assms by (simp add: client_ip_def)

text \<open>
  Behind trusted proxies the identity is the first untrusted hop from the right: addresses a
  client writes to the left of it do not matter.
\<close>

theorem forwarded_identity:
  assumes "trusted ipl cfg peer"
    and "list_all (\<lambda>h. \<exists>a. ip_address ipl (py_strip h) = Some a \<and> trusted ipl cfg (ip_str ipl a)) proxies"
    and "ip_address ipl (py_strip client) = Some c" and "\<not> trusted ipl cfg (ip_str ipl c)"
    and "length (spoofed @ client # rev proxies) \<le> 32"
    and "list_all (\<lambda>h. CHR '','' \<notin> set h) (spoofed @ client # rev proxies)"
  shows "client_ip ipl cfg (Some peer) (Some (py_join '','' (spoofed @ client # rev proxies))) = ip_str ipl c"
proof -
  have split: "hs \<noteq> [] \<Longrightarrow> list_all (\<lambda>h. CHR '','' \<notin> set h) hs \<Longrightarrow>
      py_split (CHR '','') (py_join '','' hs) = hs" for hs
    by (rule py_split_join)
  have rest: "walk_hops ipl cfg peer (ip_str ipl c) hs = ip_str ipl c" for hs
    using assms(4) by (cases hs) auto
  obtain d where "trusted ipl cfg d"
    "walk_hops ipl cfg peer peer (proxies @ client # rev spoofed) =
       walk_hops ipl cfg peer d (client # rev spoofed)"
    using walk_hops_trusted_prefix [OF assms(2,1)] by blast
  then have "walk_hops ipl cfg peer peer (proxies @ client # rev spoofed) = ip_str ipl c"
    using assms(3) rest by simp
  then show ?thesis
    using assms(1,5) split [OF _ assms(6)] by (simp add: client_ip_def Let_def)
qed

section \<open>Witnesses\<close>

text \<open>A two-address world: the proxy \<open>p\<close>, which is trusted, and everybody else.\<close>

definition demo_ip :: "string ip_lib" where
  "demo_ip = \<lparr>ip_address = (\<lambda>s. if s = [] then None else Some s), ip_str = id,
     ip_in_network = (\<lambda>a n. a = n), ip_is_global = (\<lambda>a. a \<noteq> ''p'')\<rparr>"

definition demo_ip_settings :: settings where
  "demo_ip_settings = default_settings\<lparr>trusted_proxy_networks := [''p'']\<rparr>"

lemmas demo_ip_defs = demo_ip_def demo_ip_settings_def trusted_def

theorem untrusted_peer_identity_witness:
  "\<not> trusted demo_ip demo_ip_settings ''x'' \<and>
   client_ip demo_ip demo_ip_settings (Some ''x'') (Some ''victim'') = ''x''"
proof
  show nt: "\<not> trusted demo_ip demo_ip_settings ''x''" by (simp add: demo_ip_defs)
  show "client_ip demo_ip demo_ip_settings (Some ''x'') (Some ''victim'') = ''x''"
    by (rule untrusted_peer_identity [OF nt])
qed

theorem forwarded_identity_witness:
  "client_ip demo_ip demo_ip_settings (Some ''p'') (Some (py_join '','' [''victim'', '' mallory'', ''p'']))
     = ''mallory''"
  using forwarded_identity [of demo_ip demo_ip_settings "''p''" "[''p'']" "'' mallory''" "''mallory''"
      "[''victim'']"]
  by (simp add: demo_ip_defs py_eval)

end
