(* ===== verification/Py_Url.thy ===== *)
theory Py_Url
  imports Py_String
begin

text \<open>
  \<^verbatim>\<open>urllib.parse.urlsplit\<close> and \<^verbatim>\<open>quote\<close> of the Python the images use (3.11).  The check of a
  bracketed host needs \<^verbatim>\<open>ipaddress\<close> and is the parameter \<open>bracket_ok\<close>; the Unicode check of the
  network location cannot fail on the Latin-1 range.
\<close>

section \<open>Splitting\<close>

record split_result =
  su_scheme :: string
  su_netloc :: string
  su_path :: string
  su_query :: string
  su_fragment :: string

definition url_clean :: "string \<Rightarrow> string" where
  \<comment> \<open>leading C0 controls and spaces, and every tab, CR and LF, are dropped\<close>
  "url_clean url = filter (\<lambda>c. ccode c \<notin> {9, 10, 13}) (dropWhile (\<lambda>c. ccode c \<le> 32) url)"

definition is_scheme_char :: "char \<Rightarrow> bool" where
  "is_scheme_char c = (is_ascii_letter c \<or> is_digit c \<or> c \<in> set ''+-.'')"

definition split_scheme :: "string \<Rightarrow> string \<times> string" where
  "split_scheme url =
     (let (h, sep, rest) = py_partition (CHR '':'') url
      in if sep \<and> h \<noteq> [] \<and> is_ascii_letter (hd h) \<and> list_all is_scheme_char h
         then (py_lower h, rest) else ([], url))"

definition is_delim :: "char \<Rightarrow> bool" where
  "is_delim c = (c \<in> set ''/?#'')"

definition split_netloc :: "string \<Rightarrow> string \<times> string" where
  "split_netloc url =
     (if prefix ''//'' url
      then (takeWhile (\<lambda>c. \<not> is_delim c) (drop 2 url), dropWhile (\<lambda>c. \<not> is_delim c) (drop 2 url))
      else ([], url))"

definition netloc_ok :: "(string \<Rightarrow> bool) \<Rightarrow> string \<Rightarrow> bool" where
  "netloc_ok bracket_ok netloc =
     (if CHR ''['' \<in> set netloc \<and> CHR '']'' \<in> set netloc
      then bracket_ok (fst (py_partition (CHR '']'') (snd (snd (py_partition (CHR ''['') netloc)))))
      else CHR ''['' \<notin> set netloc \<and> CHR '']'' \<notin> set netloc)"

definition urlsplit :: "(string \<Rightarrow> bool) \<Rightarrow> string \<Rightarrow> (py_error, split_result) result" where
  "urlsplit bracket_ok url0 =
     (let (scheme, url1) = split_scheme (url_clean url0);
          (netloc, url2) = split_netloc url1
      in if \<not> netloc_ok bracket_ok netloc then Inl ValueError
         else let (url3, has_frag, fragment) = py_partition (CHR ''#'') url2;
                  (path, has_query, query) = py_partition (CHR ''?'') url3
              in Inr \<lparr>su_scheme = scheme, su_netloc = netloc, su_path = path,
                      su_query = query, su_fragment = fragment\<rparr>)"

section \<open>The parts of a network location\<close>

definition py_rpartition :: "char \<Rightarrow> string \<Rightarrow> string \<times> bool \<times> string" where
  "py_rpartition c s =
     (if c \<in> set s
      then (let (after, found, before) = py_partition c (rev s) in (rev before, True, rev after))
      else ([], False, s))"

definition userinfo :: "split_result \<Rightarrow> string option \<times> string option" where
  \<comment> \<open>username and password\<close>
  "userinfo u =
     (let (info, have_info, host) = py_rpartition (CHR ''@'') (su_netloc u)
      in if have_info
         then (let (username, have_password, password) = py_partition (CHR '':'') info
               in (Some username, if have_password then Some password else None))
         else (None, None))"

definition hostinfo :: "split_result \<Rightarrow> string \<times> string option" where
  "hostinfo u =
     (let (info, have_info, host) = py_rpartition (CHR ''@'') (su_netloc u);
          (before, have_br, bracketed) = py_partition (CHR ''['') host;
          (hostname, port) =
            (if have_br
             then (let (h, f, after) = py_partition (CHR '']'') bracketed;
                       (x, g, p) = py_partition (CHR '':'') after
                   in (h, p))
             else (let (h, f, p) = py_partition (CHR '':'') host in (h, p)))
      in (hostname, if port = [] then None else Some port))"

definition url_hostname :: "split_result \<Rightarrow> string option" where
  "url_hostname u =
     (let h = fst (hostinfo u)
      in if h = [] then None
         else let (name, has_zone, zone) = py_partition (CHR ''%'') h
              in Some (py_lower name @ (if has_zone then ''%'' else []) @ zone))"

definition url_port :: "split_result \<Rightarrow> (py_error, int option) result" where
  "url_port u =
     (case snd (hostinfo u) of
        None \<Rightarrow> Inr None
      | Some p \<Rightarrow>
          if list_all is_digit p \<and> nat_of_digits p \<le> 65535
          then Inr (Some (int (nat_of_digits p))) else Inl ValueError)"

section \<open>Quoting\<close>

definition hex_digit :: "nat \<Rightarrow> char" where
  "hex_digit d = (if d < 10 then char_of (48 + d) else char_of (55 + d))"

definition percent :: "nat \<Rightarrow> string" where
  "percent b = [CHR ''%'', hex_digit (b div 16), hex_digit (b mod 16)]"

definition utf8_bytes :: "char \<Rightarrow> nat list" where
  "utf8_bytes c = (let n = ccode c in if n < 128 then [n] else [192 + n div 64, 128 + n mod 64])"

definition always_safe :: "char \<Rightarrow> bool" where
  "always_safe c = (is_ascii_letter c \<or> is_digit c \<or> c \<in> set ''_.-~'')"

definition quote :: "string \<Rightarrow> string \<Rightarrow> string" where
  "quote safe s =
     concat (map (\<lambda>c. if always_safe c \<or> c \<in> set safe then [c] else concat (map percent (utf8_bytes c))) s)"

section \<open>Lemmas\<close>

lemma py_partition_found: "c \<notin> set h \<Longrightarrow> py_partition c (h @ c # t) = (h, True, t)"
  by (induction h) (auto simp: py_partition_def Let_def)

lemma py_partition_none: "c \<notin> set s \<Longrightarrow> py_partition c s = (s, False, [])"
proof -
  assume "c \<notin> set s"
  then have d: "dropWhile (\<lambda>x. x \<noteq> c) s = []" and t: "takeWhile (\<lambda>x. x \<noteq> c) s = s"
    by (auto simp: dropWhile_eq_Nil_conv takeWhile_eq_all_conv)
  show ?thesis unfolding py_partition_def Let_def d t by simp
qed

lemma py_partition_parts:
  assumes "py_partition c s = (h, f, t)"
  shows "s = h @ (if f then c # t else []) \<and> c \<notin> set h \<and> (\<not> f \<longrightarrow> t = [])"
proof (cases "c \<in> set s")
  case True
  then obtain a b where "s = a @ c # b" "c \<notin> set a" by (meson split_list_first)
  then show ?thesis using assms py_partition_found by auto
next
  case False
  then show ?thesis using assms py_partition_none by auto
qed

end
