(* ===== verification/Proxy_Http.thy ===== *)
theory Proxy_Http
  imports Http Client_Identity Py_Url "HOL-Library.List_Lexorder" "HOL-Library.Char_ord"
begin

text \<open>
  \<^verbatim>\<open>gateway/utils/proxy_http.py\<close> and the URL check of \<^verbatim>\<open>gateway/config.py\<close>: the forwarding boundary
  shared by the proxy and the replay of queued writes.  The HTTP client and the resolver are
  parameters.  The lemmas show that a target stays below the configured base URL whatever path the
  client sends, that buffering is bounded, and that discovery only ever yields public addresses.
\<close>

section \<open>Header names\<close>

definition HOP_BY_HOP :: "string list" where
  "HOP_BY_HOP = [''connection'', ''keep-alive'', ''proxy-authenticate'', ''proxy-authorization'',
     ''te'', ''trailer'', ''trailers'', ''transfer-encoding'', ''upgrade'', ''host'', ''content-length'']"

definition REPRESENTATION_HEADERS :: "string list" where
  "REPRESENTATION_HEADERS = [''etag'', ''last-modified'', ''content-md5'', ''digest'',
     ''content-digest'', ''repr-digest'', ''content-range'', ''accept-ranges'']"

definition clean_headers :: "(string, string) dict \<Rightarrow> (string, string) dict" where
  "clean_headers hs =
     (let nominated = map (\<lambda>part. py_lower (py_strip part))
            (py_split (CHR '','') (dict_get hs ''connection'' []))
      in filter (\<lambda>(key, value). py_lower key \<notin> set HOP_BY_HOP \<union> set nominated) hs)"

section \<open>Targets\<close>

definition validate_upstream_url :: "(string \<Rightarrow> bool) \<Rightarrow> string \<Rightarrow> (py_error, string) result" where
  "validate_upstream_url bracket_ok base =
     (case urlsplit bracket_ok base of
        Inl e \<Rightarrow> Inl e
      | Inr parsed \<Rightarrow>
          if su_scheme parsed \<notin> {''http'', ''https''} \<or> url_hostname parsed = None \<or>
             userinfo parsed \<noteq> (None, None) \<or> su_query parsed \<noteq> [] \<or> su_fragment parsed \<noteq> [] \<or>
             CHR 0x5C \<in> set base
          then Inl ValueError
          else case url_port parsed of Inl e \<Rightarrow> Inl e | Inr _ \<Rightarrow> Inr base)"

definition target_safe :: string where
  "target_safe = ''/-._~:@!$&'' @ [CHR 0x27] @ ''()*+,;=''"

definition build_target :: "(string \<Rightarrow> bool) \<Rightarrow> string \<Rightarrow> string \<Rightarrow> string \<Rightarrow> (py_error, string) result" where
  "build_target bracket_ok base path query =
     (case validate_upstream_url bracket_ok base of
        Inl e \<Rightarrow> Inl e
      | Inr _ \<Rightarrow>
          if CHR 0x5C \<in> set path \<or> list_ex (\<lambda>part. part = ''.'' \<or> part = ''..'') (py_split (CHR ''/'') path)
          then Inl ValueError
          else Inr (py_rstrip_by (\<lambda>c. c = CHR ''/'') base @ ''/'' @ quote target_safe path
                    @ (if query \<noteq> [] then ''?'' @ query else [])))"

section \<open>Discovery\<close>

definition is_host_char :: "char \<Rightarrow> bool" where
  "is_host_char c = (is_ascii_letter c \<or> is_digit c)"

definition discovery_name_ok :: "string \<Rightarrow> bool" where
  \<comment> \<open>fullmatch of \<^verbatim>\<open>[A-Za-z0-9](?:[A-Za-z0-9.-]{0,251}[A-Za-z0-9])?\<close>\<close>
  "discovery_name_ok s =
     (s \<noteq> [] \<and> length s \<le> 253 \<and> is_host_char (hd s) \<and> is_host_char (last s) \<and>
      list_all (\<lambda>c. is_host_char c \<or> c \<in> set ''.-'') s)"

definition discover_upstream ::
  "'ip ip_lib \<Rightarrow> (string \<Rightarrow> (py_error, string list) result) \<Rightarrow> settings \<Rightarrow> string \<Rightarrow>
     (py_error, string \<times> string) result" where
  "discover_upstream ipl getaddrinfo cfg service =
     (if \<not> discovery_name_ok service then Inl ValueError
      else let host = py_lower service
           in if \<not> allow_unlisted_upstreams cfg \<or>
                 \<not> list_ex (\<lambda>d. py_endswith host (''.'' @ py_lstrip_by (\<lambda>c. c = CHR ''.'') (py_lower d)))
                     (upstream_discovery_domains cfg)
              then Inl ValueError
              else case getaddrinfo host of
                     Inl e \<Rightarrow> Inl e
                   | Inr ips \<Rightarrow>
                       if ips = [] \<or> list_ex (\<lambda>v. case ip_address ipl v of
                                            None \<Rightarrow> True | Some a \<Rightarrow> \<not> ip_is_global ipl a) ips
                       then Inl ValueError
                       else let address = hd (sort ips);
                                authority = (if CHR '':'' \<in> set address then ''['' @ address @ '']'' else address)
                            in Inr (''http://'' @ authority, host))"

section \<open>Bounded requests\<close>

datatype upstream_error = TimeoutException | ConnectError | HTTPError | BodyTooLarge | InvalidURL

record upstream_stream =
  us_status :: int
  us_headers :: headers \<comment> \<open>as received, lower-case names, possibly repeated\<close>
  us_chunks :: "bytes list" \<comment> \<open>the decoded body as it arrives\<close>

record upstream_response =
  ur_status :: int
  ur_headers :: "(string, string) dict"
  ur_content :: bytes
  ur_set_cookie :: "string list"

fun read_chunks :: "int \<Rightarrow> int \<Rightarrow> bytes list \<Rightarrow> bytes list \<Rightarrow> (upstream_error, bytes) result" where
  "read_chunks limit sz chunks [] = Inr (concat chunks)"
| "read_chunks limit sz chunks (chunk # rest) =
     (let sz' = sz + int (length chunk)
      in if sz' > limit then Inl BodyTooLarge
         else read_chunks limit sz' (chunks @ [chunk]) rest)"

definition joined_headers :: "headers \<Rightarrow> (string, string) dict" where
  \<comment> \<open>\<^verbatim>\<open>httpx.Headers.items()\<close>: repeated values are joined with a comma\<close>
  "joined_headers hs =
     fold (\<lambda>(k, v) d. AList.update k (case map_of d k of None \<Rightarrow> v | Some w \<Rightarrow> w @ '', '' @ v) d) hs []"

definition bounded_response :: "settings \<Rightarrow> upstream_stream \<Rightarrow> (upstream_error, upstream_response) result" where
  "bounded_response cfg response =
     (case read_chunks (max_response_body_bytes cfg) 0 [] (us_chunks response) of
        Inl e \<Rightarrow> Inl e
      | Inr body \<Rightarrow>
          let cleaned = clean_headers (joined_headers (us_headers response));
              hs = (if dict_get (joined_headers (us_headers response)) ''content-encoding'' [] \<noteq> []
                    then filter (\<lambda>(key, value). py_lower key \<notin>
                           set REPRESENTATION_HEADERS \<union> {''content-encoding''}) cleaned
                    else cleaned)
          in Inr \<lparr>ur_status = us_status response, ur_headers = hs, ur_content = body,
                  ur_set_cookie = map snd (filter (\<lambda>h. fst h = ''set-cookie'') (us_headers response))\<rparr>)"

type_synonym http_client =
  "string \<Rightarrow> string \<Rightarrow> (string, string) dict \<Rightarrow> bytes \<Rightarrow> (upstream_error, upstream_stream) result"

definition bounded_request ::
  "settings \<Rightarrow> http_client \<Rightarrow> string \<Rightarrow> string \<Rightarrow> (string, string) dict \<Rightarrow> bytes \<Rightarrow>
     (upstream_error, upstream_response) result" where
  "bounded_request cfg client verb url hs content =
     (case client verb url hs content of Inl e \<Rightarrow> Inl e | Inr response \<Rightarrow> bounded_response cfg response)"

section \<open>Destinations\<close>

fun find_destination ::
  "(string \<Rightarrow> bool) \<Rightarrow> split_result \<Rightarrow> (string, string) dict \<Rightarrow> (py_error, string option) result" where
  "find_destination bracket_ok parsed [] = Inr None"
| "find_destination bracket_ok parsed ((service, base) # services) =
     (case urlsplit bracket_ok base of
        Inl e \<Rightarrow> Inl e
      | Inr approved \<Rightarrow>
          if su_scheme parsed = su_scheme approved \<and> su_netloc parsed = su_netloc approved \<and>
             py_startswith (su_path parsed) (py_rstrip_by (\<lambda>c. c = CHR ''/'') (su_path approved) @ ''/'')
          then Inr (Some service)
          else find_destination bracket_ok parsed services)"

definition destination_service ::
  "(string \<Rightarrow> bool) \<Rightarrow> settings \<Rightarrow> string \<Rightarrow> (py_error, string option) result" where
  "destination_service bracket_ok cfg url =
     (case urlsplit bracket_ok url of
        Inl e \<Rightarrow> Inl e
      | Inr parsed \<Rightarrow> find_destination bracket_ok parsed (upstream_services cfg))"

section \<open>Lemmas\<close>

abbreviation is_slash :: "char \<Rightarrow> bool" where
  "is_slash \<equiv> \<lambda>c. c = CHR ''/''"

definition graphic :: "string \<Rightarrow> bool" where
  \<comment> \<open>no control character and no space\<close>
  "graphic s = list_all (\<lambda>c. 32 < ccode c) s"

lemma graphic_simps [simp]:
  "graphic []" "graphic (c # s) \<longleftrightarrow> 32 < ccode c \<and> graphic s" "graphic (s @ t) \<longleftrightarrow> graphic s \<and> graphic t"
  by (auto simp: graphic_def)

lemma url_clean_graphic: "graphic s \<Longrightarrow> url_clean s = s"
  by (cases s) (auto simp: url_clean_def graphic_def list_all_iff filter_id_conv)

lemma graphic_rstrip: "graphic s \<Longrightarrow> graphic (py_rstrip_by P s)"
  by (auto simp: graphic_def py_rstrip_by_def list_all_iff dest!: set_dropWhileD)

lemma rstrip_set: "set (py_rstrip_by P s) \<subseteq> set s"
  by (auto simp: py_rstrip_by_def dest!: set_dropWhileD)

lemma rstrip_append:
  "a \<noteq> [] \<Longrightarrow> \<not> P (last a) \<Longrightarrow> py_rstrip_by P (a @ b) = a @ py_rstrip_by P b"
proof -
  assume a: "a \<noteq> []" "\<not> P (last a)"
  then have stop: "dropWhile P (rev a) = rev a"
    by (cases "rev a") (auto simp: last_rev [symmetric] hd_rev dest: arg_cong [where f = hd])
  show ?thesis
    by (cases "dropWhile P (rev b) = []")
       (auto simp: py_rstrip_by_def dropWhile_append stop dropWhile_append2 dropWhile_append3)
qed

lemma rstrip_hd: "py_rstrip_by P s = [] \<or> hd (py_rstrip_by P s) = hd s"
proof -
  have "suffix (dropWhile P (rev s)) (rev s)" by (rule suffix_dropWhile)
  then have "prefix (py_rstrip_by P s) s" by (simp add: py_rstrip_by_def suffix_to_prefix)
  then show ?thesis by (metis hd_append2 prefix_def)
qed

lemma hex_digit_code: "d < 16 \<Longrightarrow> ccode (hex_digit d) \<in> {48..57} \<union> {65..70}"
  by (auto simp: hex_digit_def ccode_def of_char_of)

lemma utf8_bytes_bound: "b \<in> set (utf8_bytes c) \<Longrightarrow> b < 256"
proof -
  have "ccode c < 256" unfolding ccode_def by (rule nat_of_char_less_256)
  moreover from this have "ccode c div 64 < 4" by simp
  ultimately show "b \<in> set (utf8_bytes c) \<Longrightarrow> b < 256"
    by (auto simp: utf8_bytes_def Let_def split: if_splits)
qed

lemma quote_char:
  assumes "c \<in> set (quote target_safe s)"
  shows "32 < ccode c \<and> c \<noteq> CHR ''?'' \<and> c \<noteq> CHR ''#''"
proof -
  have hex: "32 < ccode (hex_digit d) \<and> hex_digit d \<noteq> CHR ''?'' \<and> hex_digit d \<noteq> CHR ''#''" if "d < 16" for d
    using hex_digit_code [OF that] by (auto simp: ccode_def)
  have safe: "always_safe c \<or> c \<in> set target_safe \<Longrightarrow> 32 < ccode c \<and> c \<noteq> CHR ''?'' \<and> c \<noteq> CHR ''#''" for c
    by (auto simp: always_safe_def target_safe_def is_ascii_letter_def is_digit_def ccode_def Let_def)
  have enc: "c \<in> set (percent b) \<Longrightarrow> b < 256 \<Longrightarrow> 32 < ccode c \<and> c \<noteq> CHR ''?'' \<and> c \<noteq> CHR ''#''" for c b
    using hex [of "b div 16", OF less_mult_imp_div_less] hex [of "b mod 16"]
    by (auto simp: percent_def ccode_def)
  from assms consider "always_safe c \<or> c \<in> set target_safe" | b where "c \<in> set (percent b)" "b < 256"
    by (auto simp: quote_def split: if_splits dest: utf8_bytes_bound)
  then show ?thesis using safe enc by cases blast+
qed

lemma urlsplit_compose:
  assumes "h \<noteq> []" "is_ascii_letter (hd h)" "list_all is_scheme_char h"
    and "list_all (\<lambda>c. \<not> is_delim c) n" "netloc_ok bok n"
    and "p = [] \<or> hd p = CHR ''/''" "CHR ''?'' \<notin> set p" "CHR ''#'' \<notin> set p" "CHR ''#'' \<notin> set q"
    and "graphic h" "graphic n" "graphic p" "graphic q"
  shows "urlsplit bok (h @ '':'' @ ''//'' @ n @ p @ (if q = [] then [] else ''?'' @ q)) =
     Inr \<lparr>su_scheme = py_lower h, su_netloc = n, su_path = p, su_query = q, su_fragment = []\<rparr>"
proof -
  define tail where "tail = p @ (if q = [] then [] else ''?'' @ q)"
  have g: "url_clean (h @ '':'' @ ''//'' @ n @ tail) = h @ '':'' @ ''//'' @ n @ tail"
    by (rule url_clean_graphic) (use assms in \<open>simp add: tail_def ccode_def\<close>)
  have "CHR '':'' \<notin> set h" using assms(3)
    by (auto simp: list_all_iff is_scheme_char_def is_ascii_letter_def is_digit_def ccode_def Let_def)
  then have sch: "split_scheme (h @ '':'' @ ''//'' @ n @ tail) = (py_lower h, ''//'' @ n @ tail)"
    using assms(1-3) by (simp add: split_scheme_def py_partition_found)
  have t: "tail = [] \<or> is_delim (hd tail)" using assms(6) by (cases p) (auto simp: tail_def is_delim_def)
  have net: "split_netloc (''//'' @ n @ tail) = (n, tail)"
  proof -
    have "takeWhile (\<lambda>c. \<not> is_delim c) (n @ tail) = n" "dropWhile (\<lambda>c. \<not> is_delim c) (n @ tail) = tail"
      using assms(4) t by (cases tail; force simp: list_all_iff takeWhile_append dropWhile_append)+
    then show ?thesis by (simp add: split_netloc_def)
  qed
  have frag: "py_partition (CHR ''#'') tail = (tail, False, [])"
    by (rule py_partition_none) (use assms(8,9) in \<open>auto simp: tail_def\<close>)
  have query: "\<exists>f. py_partition (CHR ''?'') tail = (p, f, q)"
    using assms(7) py_partition_found [of "CHR ''?''" p q] py_partition_none [of "CHR ''?''" p]
    by (auto simp: tail_def)
  show ?thesis
    unfolding tail_def [symmetric] using query assms(5) g sch net frag by (auto simp: urlsplit_def)
qed

lemma urlsplit_parts:
  assumes "urlsplit bok base = Inr b" "graphic base" "CHR ''?'' \<notin> set base" "CHR ''#'' \<notin> set base"
    and "su_scheme b \<noteq> []" "su_netloc b \<noteq> []"
  obtains h where "base = h @ '':'' @ ''//'' @ su_netloc b @ su_path b" "h \<noteq> []" "is_ascii_letter (hd h)"
    "list_all is_scheme_char h" "py_lower h = su_scheme b"
    "list_all (\<lambda>c. \<not> is_delim c) (su_netloc b)" "netloc_ok bok (su_netloc b)"
    "su_path b = [] \<or> hd (su_path b) = CHR ''/''"
proof -
  obtain h sep rest where part: "py_partition (CHR '':'') base = (h, sep, rest)" by (cases "py_partition (CHR '':'') base")
  note eq = py_partition_parts [OF part]
  obtain n u where nu: "split_netloc (snd (split_scheme base)) = (n, u)" by fastforce
  have nq: "CHR ''?'' \<notin> set u \<and> CHR ''#'' \<notin> set u"
  proof -
    have "set (snd (split_scheme base)) \<subseteq> set base"
      using eq part by (auto simp: split_scheme_def split: if_splits)
    moreover have "set u \<subseteq> set (snd (split_scheme base))"
      using nu by (auto simp: split_netloc_def split: if_splits dest!: set_dropWhileD in_set_dropD)
    ultimately show ?thesis using assms(3,4) by blast
  qed
  have b: "su_scheme b = fst (split_scheme base)" "su_netloc b = n" "su_path b = u" "netloc_ok bok n"
    using assms(1) nu nq py_partition_none [of "CHR ''#''" u] py_partition_none [of "CHR ''?''" u]
    by (auto simp: urlsplit_def url_clean_graphic [OF assms(2)] split: prod.splits if_splits)
  have sch: "sep" "h \<noteq> []" "is_ascii_letter (hd h)" "list_all is_scheme_char h"
    "split_scheme base = (py_lower h, rest)"
    using assms(5) b(1) part by (auto simp: split_scheme_def split: if_splits)
  have net: "prefix ''//'' rest" "n = takeWhile (\<lambda>c. \<not> is_delim c) (drop 2 rest)"
    "u = dropWhile (\<lambda>c. \<not> is_delim c) (drop 2 rest)"
    using nu sch(5) assms(6) b(2) by (auto simp: split_netloc_def split: if_splits)
  then have "rest = ''//'' @ n @ u" by (auto simp: prefix_def)
  moreover have "u = [] \<or> hd u = CHR ''/''"
  proof (cases "u = []")
    case False
    then have "is_delim (hd u)"
      using hd_dropWhile [of "\<lambda>c. \<not> is_delim c" "drop 2 rest"] unfolding net(3) by simp
    then show ?thesis using nq hd_in_set [OF False] by (auto simp: is_delim_def)
  qed simp
  moreover have "list_all (\<lambda>c. \<not> is_delim c) n" using net(2) by (auto simp: list_all_iff dest: set_takeWhileD)
  ultimately show thesis using that [of h] eq sch b by simp
qed

lemma read_chunks_eq:
  "read_chunks limit (int (length (concat chunks))) chunks rest =
     (if int (length (concat (chunks @ rest))) \<le> limit \<or> rest = [] then Inr (concat (chunks @ rest))
      else Inl BodyTooLarge)"
proof (induction rest arbitrary: chunks)
  case (Cons chunk rest)
  have "int (length (concat chunks)) + int (length chunk) = int (length (concat (chunks @ [chunk])))" by simp
  then show ?case using Cons [of "chunks @ [chunk]"] by (cases rest) (auto simp: Let_def)
qed simp

lemma rstrip_slash_hd:
  assumes "p = [] \<or> hd p = CHR ''/''"
  shows "hd (py_rstrip_by is_slash p @ ''/'' @ x) = CHR ''/''"
proof (cases "py_rstrip_by is_slash p = []")
  case False
  then have "p \<noteq> []" by (auto simp: py_rstrip_by_def)
  then show ?thesis using False rstrip_hd [of is_slash p] assms by simp
qed simp

lemma hostname_netloc: "url_hostname u \<noteq> None \<Longrightarrow> su_netloc u \<noteq> []"
  by (auto simp: url_hostname_def hostinfo_def py_rpartition_def py_partition_def Let_def)

section \<open>Properties\<close>

text \<open>
  C23.  A forwarded request stays below the configured base: whatever path and query the client sends,
  a target that is built splits into the base's scheme and network location, a path below the
  base's path, the client's query and no fragment.  The base has to be free of spaces, control
  characters and of an empty query or fragment mark, which the validation lets through.
\<close>

theorem build_target_confined:
  assumes "build_target bok base path query = Inr target" "urlsplit bok base = Inr b"
    and "graphic base" "CHR ''?'' \<notin> set base" "CHR ''#'' \<notin> set base"
    and "graphic query" "CHR ''#'' \<notin> set query"
  shows "urlsplit bok target = Inr \<lparr>su_scheme = su_scheme b, su_netloc = su_netloc b,
      su_path = py_rstrip_by is_slash (su_path b) @ ''/'' @ quote target_safe path,
      su_query = query, su_fragment = []\<rparr>"
proof -
  have valid: "su_scheme b \<noteq> []" "url_hostname b \<noteq> None"
    using assms(1,2) by (auto simp: build_target_def validate_upstream_url_def split: if_splits sum.splits)
  note ne = hostname_netloc [OF valid(2)]
  obtain h where h: "base = h @ '':'' @ ''//'' @ su_netloc b @ su_path b" "h \<noteq> []" "is_ascii_letter (hd h)"
    "list_all is_scheme_char h" "py_lower h = su_scheme b"
    "list_all (\<lambda>c. \<not> is_delim c) (su_netloc b)" "netloc_ok bok (su_netloc b)"
    "su_path b = [] \<or> hd (su_path b) = CHR ''/''"
    using urlsplit_parts [OF assms(2-5) valid(1) ne] by blast
  let ?p = "py_rstrip_by is_slash (su_path b) @ ''/'' @ quote target_safe path"
  have last: "last (h @ '':'' @ ''//'' @ su_netloc b) \<noteq> CHR ''/''"
    using h(6) ne by (auto simp: list_all_iff is_delim_def dest: last_in_set)
  have "py_rstrip_by is_slash base = (h @ '':'' @ ''//'' @ su_netloc b) @ py_rstrip_by is_slash (su_path b)"
    using rstrip_append [of "h @ '':'' @ ''//'' @ su_netloc b" is_slash "su_path b"] last h(1) by simp
  then have target: "target = h @ '':'' @ ''//'' @ su_netloc b @ ?p @ (if query = [] then [] else ''?'' @ query)"
    using assms(1) by (auto simp: build_target_def split: if_splits sum.splits)
  have chars: "CHR ''?'' \<notin> set ?p" "CHR ''#'' \<notin> set ?p"
    using rstrip_set [of is_slash "su_path b"] h(1) assms(4,5) quote_char by auto
  have q: "graphic (quote target_safe path)" unfolding graphic_def list_all_iff using quote_char by blast
  have g: "graphic h" "graphic (su_netloc b)" "graphic (su_path b)" using h(1) assms(3) by auto
  show ?thesis
    unfolding target h(5) [symmetric]
    by (rule urlsplit_compose)
       (use h chars assms(6,7) g q rstrip_slash_hd [OF h(8)] in \<open>auto simp: graphic_rstrip ccode_def\<close>)
qed

text \<open>
  Buffering is bounded and exact: an upstream body is returned whole when it fits the configured
  limit and the request fails otherwise; nothing is truncated.
\<close>

theorem bounded_response_exact:
  assumes "0 < max_response_body_bytes cfg"
  shows "case bounded_response cfg s of
       Inr resp \<Rightarrow> ur_content resp = concat (us_chunks s) \<and> ur_status resp = us_status s \<and>
         int (length (ur_content resp)) \<le> max_response_body_bytes cfg
     | Inl e \<Rightarrow> e = BodyTooLarge \<and> max_response_body_bytes cfg < int (length (concat (us_chunks s)))"
  using assms read_chunks_eq [of "max_response_body_bytes cfg" "[]" "us_chunks s"]
  by (auto simp: bounded_response_def Let_def split: sum.splits if_splits)

text \<open>
  C40.  Discovery is confined: it succeeds only when enabled, for a name below a configured domain, when
  the name resolves and every address it resolves to is public, and the URL names one of those
  addresses rather than the host, so that a later resolution cannot redirect the request.
\<close>

theorem discovery_public:
  assumes "discover_upstream ipl getaddrinfo cfg service = Inr (url, host)"
  shows "allow_unlisted_upstreams cfg \<and> host = py_lower service \<and>
     (\<exists>d \<in> set (upstream_discovery_domains cfg).
        py_endswith host (''.'' @ py_lstrip_by (\<lambda>c. c = CHR ''.'') (py_lower d))) \<and>
     (\<exists>ips v. getaddrinfo host = Inr ips \<and> v \<in> set ips \<and> url \<in> {''http://'' @ v, ''http://['' @ v @ '']''} \<and>
        list_all (\<lambda>v. \<exists>a. ip_address ipl v = Some a \<and> ip_is_global ipl a) ips)"
proof -
  obtain ips where ips: "getaddrinfo (py_lower service) = Inr ips" "ips \<noteq> []"
    using assms by (auto simp: discover_upstream_def Let_def split: if_splits sum.splits)
  have "hd (sort ips) \<in> set ips" using ips(2) by (metis hd_in_set list.set_sel(1) set_empty set_sort)
  moreover have "url \<in> {''http://'' @ hd (sort ips), ''http://['' @ hd (sort ips) @ '']''}"
    using assms ips by (auto simp: discover_upstream_def Let_def split: if_splits)
  moreover have "list_all (\<lambda>v. \<exists>a. ip_address ipl v = Some a \<and> ip_is_global ipl a) ips"
    using assms ips by (auto simp: discover_upstream_def Let_def list_ex_iff list_all_iff split: if_splits option.splits)
  moreover have "allow_unlisted_upstreams cfg" "host = py_lower service"
    "\<exists>d \<in> set (upstream_discovery_domains cfg).
        py_endswith host (''.'' @ py_lstrip_by (\<lambda>c. c = CHR ''.'') (py_lower d))"
    using assms ips by (auto simp: discover_upstream_def Let_def list_ex_iff split: if_splits)
  ultimately show ?thesis using ips(1) by blast
qed

section \<open>Witnesses\<close>

lemma demo_target: "build_target (\<lambda>_. True) ''http://h/a/'' ''b c'' ''q=1'' = Inr ''http://h/a/b%20c?q=1''"
  by code_simp

lemma demo_base: "urlsplit (\<lambda>_. True) ''http://h/a/'' =
    Inr \<lparr>su_scheme = ''http'', su_netloc = ''h'', su_path = ''/a/'', su_query = [], su_fragment = []\<rparr>"
  by code_simp

theorem build_target_confined_witness:
  "urlsplit (\<lambda>_. True) ''http://h/a/b%20c?q=1'' = Inr \<lparr>su_scheme = ''http'', su_netloc = ''h'',
      su_path = ''/a/b%20c'', su_query = ''q=1'', su_fragment = []\<rparr>"
proof -
  have "py_rstrip_by is_slash ''/a/'' = ''/a''" "quote target_safe ''b c'' = ''b%20c''" by code_simp+
  then show ?thesis
    using build_target_confined [OF demo_target demo_base] by (simp add: ccode_def)
qed

text \<open>
  An empty query mark passes the validation of a base URL, and then the client's path becomes the
  query of the target: it no longer reaches the configured path.
\<close>

lemma empty_query_base_accepted:
  "build_target (\<lambda>_. True) ''http://h/a?'' ''b'' [] = Inr ''http://h/a?/b'' \<and>
   map_sum id su_path (urlsplit (\<lambda>_. True) ''http://h/a?/b'') = Inr ''/a''"
  by code_simp

definition demo_stream :: upstream_stream where
  "demo_stream = \<lparr>us_status = 200, us_headers = [], us_chunks = [[1, 2], [3]]\<rparr>"

theorem bounded_response_exact_witness:
  "\<exists>resp. bounded_response default_settings demo_stream = Inr resp \<and> ur_content resp = [1, 2, 3]"
  using bounded_response_exact [of default_settings demo_stream]
  by (auto simp: default_settings_def demo_stream_def split: sum.splits)

theorem discovery_public_witness:
  "discover_upstream demo_ip (\<lambda>_. Inr [''x'']) (default_settings\<lparr>allow_unlisted_upstreams := True,
      upstream_discovery_domains := [''d'']\<rparr>) ''a.d'' = Inr (''http://x'', ''a.d'') \<and>
   ip_is_global demo_ip ''x''"
proof
  show r: "discover_upstream demo_ip (\<lambda>_. Inr [''x'']) (default_settings\<lparr>allow_unlisted_upstreams := True,
      upstream_discovery_domains := [''d'']\<rparr>) ''a.d'' = Inr (''http://x'', ''a.d'')"
    by (simp add: discover_upstream_def discovery_name_ok_def is_host_char_def demo_ip_def Let_def
        suffix_to_prefix py_eval)
  show "ip_is_global demo_ip ''x''"
    using discovery_public [OF r] by (auto simp: demo_ip_def)
qed

end
