(* ===== verification/Redis_Service.thy ===== *)
theory Redis_Service
  imports Py_Float
begin

text \<open>
  The Redis server as the gateway uses it.  Redis is a service, so the model takes its commands
  as a parameter: a record \<open>redis_kv\<close> of functions over an abstract server state \<open>'r\<close>.  Every
  command takes the server clock in milliseconds and returns its reply, or the exception the
  client library raises, with the server state afterwards.  The locale \<open>redis_kv_laws\<close> states the
  documented behaviour the gateway relies on, through the live contents \<open>view\<close> of a state: what
  a key holds at a given time (for a key that holds a hash or a stream, some text that stands for
  it).  Of hashes and streams a key-value command is only said to leave alone what it cannot reach:
  GET and INCR change none, SET NX writes only where there is nothing, and DEL of a key that GET has
  just read removes that string.  A command that raised may or may not have taken effect.
  \<open>mem_kv\<close> is an in-memory server and the interpretation shows that it satisfies the laws.
\<close>

section \<open>Commands\<close>

datatype redis_error = RedisError | WatchError | ResponseError string

type_synonym ('r, 'a) command = "'r \<Rightarrow> (redis_error, 'a) result \<times> 'r"
type_synonym 'r kv_view = "int \<Rightarrow> 'r \<Rightarrow> string \<rightharpoonup> string"

record 'r redis_kv =
  rk_get :: "int \<Rightarrow> string \<Rightarrow> ('r, string option) command"
  rk_set :: "int \<Rightarrow> string \<Rightarrow> string \<Rightarrow> int \<Rightarrow> ('r, unit) command" \<comment> \<open>SET key value EX seconds\<close>
  rk_setnx :: "int \<Rightarrow> string \<Rightarrow> string \<Rightarrow> int \<Rightarrow> ('r, bool) command" \<comment> \<open>SET key value NX EX seconds\<close>
  rk_del :: "int \<Rightarrow> string \<Rightarrow> ('r, int) command"
  rk_incr :: "int \<Rightarrow> string \<Rightarrow> ('r, int) command"
  rk_expire :: "int \<Rightarrow> string \<Rightarrow> int \<Rightarrow> ('r, bool) command"
  rk_exec_set :: "'r \<Rightarrow> int \<Rightarrow> string \<Rightarrow> string \<Rightarrow> int \<Rightarrow> ('r, unit) command"
    \<comment> \<open>MULTI, SET, EXEC of a transaction that watches the key since the first state\<close>

section \<open>Effects on the live contents\<close>

definition same_from :: "'r kv_view \<Rightarrow> int \<Rightarrow> 'r \<Rightarrow> 'r \<Rightarrow> bool" where
  "same_from view t r r' = (\<forall>t' \<ge> t. \<forall>k. view t' r' k = view t' r k)"

definition put_from :: "'r kv_view \<Rightarrow> int \<Rightarrow> string \<Rightarrow> string \<Rightarrow> int \<Rightarrow> 'r \<Rightarrow> 'r \<Rightarrow> bool" where
  "put_from view t k v ex r r' =
     (\<forall>t' \<ge> t. \<forall>k'. view t' r' k' =
        (if k' = k then (if t' < t + ex * 1000 then Some v else None) else view t' r k'))"

definition gone_from :: "'r kv_view \<Rightarrow> int \<Rightarrow> string \<Rightarrow> 'r \<Rightarrow> 'r \<Rightarrow> bool" where
  "gone_from view t k r r' =
     (\<forall>t' \<ge> t. \<forall>k'. view t' r' k' = (if k' = k then None else view t' r k'))"

definition counter_val :: "string option \<Rightarrow> int" where
  "counter_val v = (case v of None \<Rightarrow> 0 | Some s \<Rightarrow> int (nat_of_digits s))"

text \<open>INCR keeps the time to live of an existing key and creates a missing one without.\<close>

definition bumped_from :: "'r kv_view \<Rightarrow> int \<Rightarrow> string \<Rightarrow> 'r \<Rightarrow> 'r \<Rightarrow> bool" where
  "bumped_from view t k r r' =
     (\<forall>t' \<ge> t. \<forall>k'. view t' r' k' =
        (if k' = k
         then (if view t r k \<noteq> None \<and> view t' r k = None then None
               else Some (str_of_int (counter_val (view t r k) + 1)))
         else view t' r k'))"

definition expiring_from :: "'r kv_view \<Rightarrow> int \<Rightarrow> string \<Rightarrow> int \<Rightarrow> 'r \<Rightarrow> 'r \<Rightarrow> bool" where
  "expiring_from view t k ex r r' =
     (\<forall>t' \<ge> t. \<forall>k'. view t' r' k' =
        (if k' = k then (if t' < t + ex * 1000 then view t r k else None) else view t' r k'))"

lemmas kv_effects = same_from_def put_from_def gone_from_def bumped_from_def expiring_from_def

text \<open>A reply means the effect happened; an exception leaves open whether it did.\<close>

definition effected :: "(redis_error, 'a) result \<Rightarrow> ('r \<Rightarrow> 'r \<Rightarrow> bool) \<Rightarrow> ('r \<Rightarrow> 'r \<Rightarrow> bool) \<Rightarrow> 'r \<Rightarrow> 'r \<Rightarrow> bool" where
  "effected res eff same r r' = (case res of Inr _ \<Rightarrow> eff r r' | Inl _ \<Rightarrow> eff r r' \<or> same r r')"

section \<open>The laws\<close>

locale redis_kv_laws =
  fixes ops :: "'r redis_kv" and view :: "'r kv_view"
  assumes expiry: "t \<le> t' \<Longrightarrow> view t' r k = Some v \<Longrightarrow> view t r k = Some v"
    and get_reply: "rk_get ops t k r = (Inr x, r') \<Longrightarrow> x = view t r k"
    and get_same: "rk_get ops t k r = (gr, r') \<Longrightarrow> same_from view t r r'"
    and set_effect: "rk_set ops t k v ex r = (sr, r') \<Longrightarrow> 0 < ex \<Longrightarrow>
      effected sr (put_from view t k v ex) (same_from view t) r r'"
    and setnx_reply: "rk_setnx ops t k v ex r = (Inr b, r') \<Longrightarrow> b = (view t r k = None)"
    and setnx_effect: "rk_setnx ops t k v ex r = (nr, r') \<Longrightarrow> 0 < ex \<Longrightarrow>
      effected nr (if view t r k = None then put_from view t k v ex else same_from view t)
        (same_from view t) r r'"
    and del_effect: "rk_del ops t k r = (dr, r') \<Longrightarrow>
      effected dr (gone_from view t k) (same_from view t) r r'"
    and incr_reply: "rk_incr ops t k r = (Inr n, r') \<Longrightarrow> n = counter_val (view t r k) + 1"
    and incr_effect: "rk_incr ops t k r = (ir, r') \<Longrightarrow>
      effected ir (bumped_from view t k) (same_from view t) r r'"
    and expire_effect: "rk_expire ops t k ex r = (xr, r') \<Longrightarrow> 0 < ex \<Longrightarrow>
      effected xr (expiring_from view t k ex) (same_from view t) r r'"
    and exec_effect: "rk_exec_set ops r0 t k v ex r = (er, r') \<Longrightarrow> 0 < ex \<Longrightarrow>
      effected er (put_from view t k v ex) (same_from view t) r r'"
    and exec_watch: "rk_exec_set ops r0 t k v ex r = (er, r') \<Longrightarrow>
      put_from view t k v ex r r' \<and> \<not> same_from view t r r' \<or> is_ok er \<Longrightarrow>
      view t r k = view t r0 k"
    and exec_aborted: "rk_exec_set ops r0 t k v ex r = (Inl WatchError, r') \<Longrightarrow> same_from view t r r'"

section \<open>An in-memory server\<close>

record mem_redis =
  m_kv :: "string \<rightharpoonup> string \<times> int option" \<comment> \<open>value and expiry time\<close>
  m_hash :: "string \<Rightarrow> string \<rightharpoonup> string"
  m_stream :: "string \<Rightarrow> (string \<times> (string, string) dict) list"
  m_seq :: nat \<comment> \<open>the number of stream entries ever added\<close>
  m_up :: bool \<comment> \<open>whether the server can be reached\<close>

definition mem_view :: "mem_redis kv_view" where
  "mem_view t r k =
     (case m_kv r k of
        None \<Rightarrow> None
      | Some (v, e) \<Rightarrow> (case e of None \<Rightarrow> Some v | Some x \<Rightarrow> if t < x then Some v else None))"

definition mem_put :: "string \<Rightarrow> string \<Rightarrow> int option \<Rightarrow> mem_redis \<Rightarrow> mem_redis" where
  "mem_put k v e r = r\<lparr>m_kv := (m_kv r)(k \<mapsto> (v, e))\<rparr>"

definition mem_drop :: "string \<Rightarrow> mem_redis \<Rightarrow> mem_redis" where
  "mem_drop k r = r\<lparr>m_kv := (m_kv r)(k := None)\<rparr>"

definition mem_ttl :: "int \<Rightarrow> mem_redis \<Rightarrow> string \<Rightarrow> int option" where
  "mem_ttl t r k = (if mem_view t r k = None then None else Option.bind (m_kv r k) snd)"

definition mem_kv :: "mem_redis redis_kv" where
  "mem_kv = \<lparr>
     rk_get = (\<lambda>t k r. if m_up r then (Inr (mem_view t r k), r) else (Inl RedisError, r)),
     rk_set = (\<lambda>t k v ex r.
       if m_up r then (Inr (), mem_put k v (Some (t + ex * 1000)) r) else (Inl RedisError, r)),
     rk_setnx = (\<lambda>t k v ex r.
       if \<not> m_up r then (Inl RedisError, r)
       else if mem_view t r k = None then (Inr True, mem_put k v (Some (t + ex * 1000)) r)
       else (Inr False, r)),
     rk_del = (\<lambda>t k r.
       if m_up r then (Inr (if mem_view t r k = None then 0 else 1), mem_drop k r)
       else (Inl RedisError, r)),
     rk_incr = (\<lambda>t k r.
       if \<not> m_up r then (Inl RedisError, r)
       else let n = counter_val (mem_view t r k) + 1
            in (Inr n, mem_put k (str_of_int n) (mem_ttl t r k) r)),
     rk_expire = (\<lambda>t k ex r.
       if \<not> m_up r then (Inl RedisError, r)
       else case mem_view t r k of
              None \<Rightarrow> (Inr False, mem_drop k r)
            | Some v \<Rightarrow> (Inr True, mem_put k v (Some (t + ex * 1000)) r)),
     rk_exec_set = (\<lambda>r0 t k v ex r.
       if \<not> m_up r then (Inl RedisError, r)
       else if m_kv r k = m_kv r0 k then (Inr (), mem_put k v (Some (t + ex * 1000)) r)
       else (Inl WatchError, r))\<rparr>"

lemma mem_view_put:
  "mem_view t (mem_put k v e r) k' =
     (if k' = k then (case e of None \<Rightarrow> Some v | Some x \<Rightarrow> if t < x then Some v else None)
      else mem_view t r k')"
  by (simp add: mem_view_def mem_put_def)

lemma mem_view_drop: "mem_view t (mem_drop k r) k' = (if k' = k then None else mem_view t r k')"
  by (simp add: mem_view_def mem_drop_def)

lemma mem_ttl_view:
  "t \<le> t' \<Longrightarrow>
    (case mem_ttl t r k of None \<Rightarrow> Some v | Some x \<Rightarrow> if t' < x then Some v else None) =
    (if mem_view t r k \<noteq> None \<and> mem_view t' r k = None then None else Some v)"
  by (auto simp: mem_ttl_def mem_view_def split: option.splits if_splits)

lemmas mem_simps = mem_view_put mem_view_drop kv_effects effected_def Let_def

interpretation mem: redis_kv_laws mem_kv mem_view
proof (unfold_locales, goal_cases)
  case 1 then show ?case by (auto simp: mem_view_def split: option.splits if_splits)
next
  case 2 then show ?case by (auto simp: mem_kv_def split: if_splits)
next
  case 3 then show ?case by (auto simp: mem_kv_def same_from_def split: if_splits)
next
  case 4 then show ?case by (auto simp: mem_kv_def mem_simps split: if_splits)
next
  case 5 then show ?case by (auto simp: mem_kv_def split: if_splits)
next
  case 6 then show ?case by (auto simp: mem_kv_def mem_simps split: if_splits)
next
  case 7 then show ?case by (auto simp: mem_kv_def mem_simps split: if_splits)
next
  case 8 then show ?case by (auto simp: mem_kv_def Let_def split: if_splits)
next
  case 9 then show ?case
    by (auto simp: mem_kv_def mem_simps mem_ttl_view split: if_splits)
next
  case 10 then show ?case
    by (auto simp: mem_kv_def mem_simps split: if_splits option.splits)
next
  case 11 then show ?case by (auto simp: mem_kv_def mem_simps split: if_splits)
next
  case 12 then show ?case by (auto simp: mem_kv_def mem_view_def kv_effects split: if_splits)
next
  case 13 then show ?case by (auto simp: mem_kv_def kv_effects split: if_splits)
qed

definition mem_empty :: mem_redis where
  "mem_empty = \<lparr>m_kv = Map.empty, m_hash = (\<lambda>_. Map.empty), m_stream = (\<lambda>_. []), m_seq = 0, m_up = True\<rparr>"

section \<open>Hashes and streams\<close>

text \<open>
  The commands behind the offline queue.  Their contents are seen through \<open>hv\<close> (the fields of a hash)
  and \<open>sv\<close> (the entries of a stream in order).  The laws extend those of the key-value commands,
  which leave hashes and streams alone.
\<close>

type_synonym stream_entry = "string \<times> (string, string) dict"

record 'r redis_queue =
  rq_hget :: "string \<Rightarrow> string \<Rightarrow> ('r, string option) command"
  rq_hset :: "string \<Rightarrow> string \<Rightarrow> string \<Rightarrow> ('r, unit) command"
  rq_hdel :: "string \<Rightarrow> string \<Rightarrow> ('r, unit) command"
  rq_xlen :: "string \<Rightarrow> ('r, int) command"
  rq_xadd :: "string \<Rightarrow> (string, string) dict \<Rightarrow> ('r, string) command"
  rq_xack :: "string \<Rightarrow> string \<Rightarrow> string \<Rightarrow> ('r, unit) command" \<comment> \<open>stream, group, entry\<close>
  rq_xdel :: "string \<Rightarrow> string \<Rightarrow> ('r, unit) command"
  rq_xreadgroup :: "string \<Rightarrow> string \<Rightarrow> string \<Rightarrow> nat \<Rightarrow> ('r, stream_entry list) command"
    \<comment> \<open>stream, group, consumer, count: entries not delivered before\<close>
  rq_xautoclaim :: "int \<Rightarrow> string \<Rightarrow> string \<Rightarrow> string \<Rightarrow> int \<Rightarrow> string \<Rightarrow> nat \<Rightarrow>
      ('r, string \<times> stream_entry list) command"
    \<comment> \<open>clock, stream, group, consumer, minimal idle time, cursor, count: next cursor and claimed entries\<close>

type_synonym 'r hash_view = "'r \<Rightarrow> string \<Rightarrow> string \<rightharpoonup> string"
type_synonym 'r stream_view = "'r \<Rightarrow> string \<Rightarrow> stream_entry list"

definition hash_put :: "'r hash_view \<Rightarrow> string \<Rightarrow> string \<Rightarrow> string option \<Rightarrow> 'r \<Rightarrow> 'r \<Rightarrow> bool" where
  "hash_put hv h f x r r' = (hv r' = (hv r)(h := (hv r h)(f := x)))"

definition hash_same :: "'r hash_view \<Rightarrow> 'r \<Rightarrow> 'r \<Rightarrow> bool" where
  "hash_same hv r r' = (hv r' = hv r)"

definition stream_without :: "'r stream_view \<Rightarrow> string \<Rightarrow> string \<Rightarrow> 'r \<Rightarrow> 'r \<Rightarrow> bool" where
  "stream_without sv s i r r' = (sv r' = (sv r)(s := filter (\<lambda>e. fst e \<noteq> i) (sv r s)))"

definition stream_same :: "'r stream_view \<Rightarrow> 'r \<Rightarrow> 'r \<Rightarrow> bool" where
  "stream_same sv r r' = (sv r' = sv r)"

locale redis_queue_laws = redis_kv_laws ops view
  for ops :: "'r redis_kv" and view :: "'r kv_view" +
  fixes qops :: "'r redis_queue" and hv :: "'r hash_view" and sv :: "'r stream_view"
  assumes hget_reply: "rq_hget qops h f r = (Inr hx, r') \<Longrightarrow> hx = hv r h f"
    and hget_same: "rq_hget qops h f r = (hgr, r') \<Longrightarrow> hash_same hv r r' \<and> stream_same sv r r'"
    and hset_effect: "rq_hset qops h f hval r = (hsr, r') \<Longrightarrow>
      effected hsr (hash_put hv h f (Some hval)) (hash_same hv) r r' \<and> stream_same sv r r'"
    and hdel_effect: "rq_hdel qops h f r = (hdr, r') \<Longrightarrow>
      effected hdr (hash_put hv h f None) (hash_same hv) r r' \<and> stream_same sv r r'"
    and xlen_reply: "rq_xlen qops st r = (Inr len, r') \<Longrightarrow> len = int (length (sv r st))"
    and xlen_same: "rq_xlen qops st r = (xlr, r') \<Longrightarrow> hash_same hv r r' \<and> stream_same sv r r'"
    and xadd_reply: "rq_xadd qops st flds r = (Inr i, r') \<Longrightarrow>
      sv r' = (sv r)(st := sv r st @ [(i, flds)]) \<and> i \<notin> fst ` set (sv r st)"
    and xadd_raised: "rq_xadd qops st flds r = (Inl xe, r') \<Longrightarrow>
      (\<exists>i. sv r' = (sv r)(st := sv r st @ [(i, flds)])) \<or> stream_same sv r r'"
    and xack_same: "rq_xack qops st g i r = (xar, r') \<Longrightarrow> hash_same hv r r' \<and> stream_same sv r r'"
    and xdel_effect: "rq_xdel qops st i r = (xdr, r') \<Longrightarrow>
      hash_same hv r r' \<and> effected xdr (stream_without sv st i) (stream_same sv) r r'"
    and get_quiet: "rk_get ops t k r = (qg, r') \<Longrightarrow> hash_same hv r r' \<and> stream_same sv r r'"
    and setnx_quiet: "rk_setnx ops t k v ex r = (qn, r') \<Longrightarrow> hash_same hv r r' \<and> stream_same sv r r'"
    and del_quiet: "rk_get ops t k r0 = (Inr (Some gv), r) \<Longrightarrow> rk_del ops t k r = (qd, r') \<Longrightarrow> hash_same hv r r' \<and> stream_same sv r r'"

definition mem_queue :: "mem_redis redis_queue" where
  "mem_queue = \<lparr>
     rq_hget = (\<lambda>h f r. if m_up r then (Inr (m_hash r h f), r) else (Inl RedisError, r)),
     rq_hset = (\<lambda>h f v r.
       if m_up r then (Inr (), r\<lparr>m_hash := (m_hash r)(h := (m_hash r h)(f \<mapsto> v))\<rparr>) else (Inl RedisError, r)),
     rq_hdel = (\<lambda>h f r.
       if m_up r then (Inr (), r\<lparr>m_hash := (m_hash r)(h := (m_hash r h)(f := None))\<rparr>) else (Inl RedisError, r)),
     rq_xlen = (\<lambda>s r. if m_up r then (Inr (int (length (m_stream r s))), r) else (Inl RedisError, r)),
     rq_xadd = (\<lambda>s fs r.
       if m_up r \<and> str_of_nat (m_seq r) \<notin> fst ` set (m_stream r s)
       then (Inr (str_of_nat (m_seq r)),
             r\<lparr>m_stream := (m_stream r)(s := m_stream r s @ [(str_of_nat (m_seq r), fs)]), m_seq := Suc (m_seq r)\<rparr>)
       else (Inl RedisError, r)),
     rq_xack = (\<lambda>s g i r. if m_up r then (Inr (), r) else (Inl RedisError, r)),
     rq_xdel = (\<lambda>s i r.
       if m_up r then (Inr (), r\<lparr>m_stream := (m_stream r)(s := filter (\<lambda>e. fst e \<noteq> i) (m_stream r s))\<rparr>)
       else (Inl RedisError, r)),
     rq_xreadgroup = (\<lambda>s g c n r. if m_up r then (Inr (take n (m_stream r s)), r) else (Inl RedisError, r)),
     rq_xautoclaim = (\<lambda>t s g c idle cur n r.
       if m_up r then (Inr (''0-0'', take n (m_stream r s)), r) else (Inl RedisError, r))\<rparr>"

lemmas queue_effects = hash_put_def hash_same_def stream_without_def stream_same_def effected_def

lemma mem_put_drop_quiet [simp]:
  "m_hash (mem_put k v e r) = m_hash r" "m_stream (mem_put k v e r) = m_stream r"
  "m_hash (mem_drop k r) = m_hash r" "m_stream (mem_drop k r) = m_stream r"
  by (simp_all add: mem_put_def mem_drop_def)

interpretation memq: redis_queue_laws mem_kv mem_view mem_queue m_hash m_stream
  by unfold_locales
     (auto simp: mem_queue_def mem_kv_def queue_effects split: if_splits)

end
