(* ===== verification/Redis_Client.thy ===== *)
theory Redis_Client
  imports Http Redis_Service
begin

text \<open>
  \<^verbatim>\<open>gateway/cache/redis_client.py\<close>: cache keys, the response envelope, stale-while-revalidate
  lookup and the single-flight lock.  The Redis commands, the digest and pydantic's JSON form of
  an envelope are parameters; the clock and the random token are arguments.  The lemmas show that
  keys keep different requests apart, what a stored response is read back as over time, and that
  the lock excludes a second holder for as long as its lease runs.
\<close>

section \<open>Cache keys and envelopes\<close>

definition STALE_GRACE_SECONDS :: int where
  "STALE_GRACE_SECONDS = 86400"

datatype cache_status = HIT | MISS | STALE

definition upper_char :: "char \<Rightarrow> char" where
  "upper_char c = (let n = ccode c in if 97 \<le> n \<and> n \<le> 122 then char_of (n - 32) else c)"

definition py_upper :: "string \<Rightarrow> string" where
  \<comment> \<open>on the ASCII text of a request method\<close>
  "py_upper s = map upper_char s"

definition NUL :: char where
  "NUL = char_of (0 :: nat)"

definition cache_key_text :: "string \<Rightarrow> string \<Rightarrow> string \<Rightarrow> string \<Rightarrow> string" where
  "cache_key_text verb path query_string variant =
     py_upper verb @ [NUL] @ path @ [NUL] @ query_string @ [NUL] @ variant"

definition build_cache_key :: "(string \<Rightarrow> string) \<Rightarrow> string \<Rightarrow> string \<Rightarrow> string \<Rightarrow> string \<Rightarrow> string" where
  "build_cache_key sha256_hex verb path query_string variant =
     ''cache:v2:'' @ sha256_hex (cache_key_text verb path query_string variant)"

record cached_response =
  cr_status :: int
  cr_headers :: "(string, string) dict"
  cr_body_b64 :: string
  cr_media_type :: "string option"
  cr_stored_at :: pyfloat
  cr_fresh_for :: int

record envelope_codec =
  model_dump_json :: "cached_response \<Rightarrow> string"
  model_validate_json :: "string \<Rightarrow> (py_error, cached_response) result"

definition CachedResponse_build ::
  "pyfloat \<Rightarrow> int \<Rightarrow> (string, string) dict \<Rightarrow> bytes \<Rightarrow> string option \<Rightarrow> int \<Rightarrow> cached_response" where
  "CachedResponse_build now status hs body media_type fresh_for =
     \<lparr>cr_status = status, cr_headers = hs, cr_body_b64 = b64encode body, cr_media_type = media_type,
      cr_stored_at = now, cr_fresh_for = fresh_for\<rparr>"

definition cr_body :: "cached_response \<Rightarrow> bytes option" where
  \<comment> \<open>\<^const>\<open>None\<close>: binascii.Error, a ValueError\<close>
  "cr_body e = b64decode (cr_body_b64 e)"

definition age_seconds :: "pyfloat \<Rightarrow> cached_response \<Rightarrow> pyfloat" where
  "age_seconds now e = f_sub now (cr_stored_at e)"

definition is_stale :: "pyfloat \<Rightarrow> cached_response \<Rightarrow> bool" where
  "is_stale now e = f_le (Fin (of_int (cr_fresh_for e))) (age_seconds now e)"

section \<open>Lookup and store\<close>

definition cache_get ::
  "'r redis_kv \<Rightarrow> envelope_codec \<Rightarrow> int \<Rightarrow> pyfloat \<Rightarrow> string \<Rightarrow> 'r \<Rightarrow>
     (py_error, cache_status \<times> cached_response option) result \<times> 'r" where
  "cache_get ops codec t now key r =
     (case rk_get ops t key r of
        (Inl _, r1) \<Rightarrow> (Inr (MISS, None), r1)
      | (Inr None, r1) \<Rightarrow> (Inr (MISS, None), r1)
      | (Inr (Some raw), r1) \<Rightarrow>
          (case model_validate_json codec raw of
             Inl e \<Rightarrow> (if e = ValueError \<or> e = TypeError then Inr (MISS, None) else Inl e, r1)
           | Inr entry \<Rightarrow>
               (case cr_body entry of
                  None \<Rightarrow> (Inr (MISS, None), r1)
                | Some _ \<Rightarrow> (Inr (if is_stale now entry then STALE else HIT, Some entry), r1))))"

definition cache_set ::
  "'r redis_kv \<Rightarrow> envelope_codec \<Rightarrow> int \<Rightarrow> string \<Rightarrow> cached_response \<Rightarrow> 'r \<Rightarrow> 'r" where
  "cache_set ops codec t key entry r =
     (let physical_ttl = cr_fresh_for entry + STALE_GRACE_SECONDS
      in snd (rk_set ops t key (model_dump_json codec entry) (max physical_ttl 1) r))"

definition cache_set_raw ::
  "'r redis_kv \<Rightarrow> int \<Rightarrow> string \<Rightarrow> string \<Rightarrow> int \<Rightarrow> 'r \<Rightarrow> (redis_error, unit) result \<times> 'r" where
  "cache_set_raw ops t key value ttl r = rk_set ops t key value ttl r"

definition cache_get_raw ::
  "'r redis_kv \<Rightarrow> int \<Rightarrow> string \<Rightarrow> 'r \<Rightarrow> (redis_error, string option) result \<times> 'r" where
  "cache_get_raw ops t key r = rk_get ops t key r"

definition cache_delete :: "'r redis_kv \<Rightarrow> int \<Rightarrow> string \<Rightarrow> 'r \<Rightarrow> (redis_error, unit) result \<times> 'r" where
  "cache_delete ops t key r = (case rk_del ops t key r of (res, r') \<Rightarrow> (map_sum id (\<lambda>_. ()) res, r'))"

section \<open>The lock\<close>

definition lock_key :: "string \<Rightarrow> string" where
  "lock_key name = ''lock:'' @ name"

definition acquire_lock ::
  "'r redis_kv \<Rightarrow> int \<Rightarrow> string \<Rightarrow> string \<Rightarrow> int \<Rightarrow> 'r \<Rightarrow> string option \<times> 'r" where
  "acquire_lock ops t token name ttl_seconds r =
     (case rk_setnx ops t (lock_key name) token ttl_seconds r of
        (Inr acquired, r') \<Rightarrow> (if acquired then Some token else None, r')
      | (Inl _, r') \<Rightarrow> (None, r'))"

definition release_lock :: "'r redis_kv \<Rightarrow> int \<Rightarrow> string \<Rightarrow> string \<Rightarrow> 'r \<Rightarrow> 'r" where
  \<comment> \<open>the script compares and deletes in one step of the server\<close>
  "release_lock ops t name token r =
     (case rk_get ops t (lock_key name) r of
        (Inl _, r1) \<Rightarrow> r1
      | (Inr v, r1) \<Rightarrow> if v = Some token then snd (rk_del ops t (lock_key name) r1) else r1)"

section \<open>Workers sharing a lock\<close>

text \<open>
  The clients of one lock, interleaved in any order: the server clock, the server, the tokens drawn
  so far and the grants that were not released yet, each with the end of its lease.
\<close>

record 'r lock_sys =
  ls_now :: int
  ls_server :: 'r
  ls_drawn :: "string set"
  ls_held :: "(string \<times> int) set"

inductive lock_step :: "'r redis_kv \<Rightarrow> 'r kv_view \<Rightarrow> string \<Rightarrow> int \<Rightarrow> 'r lock_sys \<Rightarrow> 'r lock_sys \<Rightarrow> bool"
  for ops view name ttl where
  acquire: "ls_now s \<le> t \<Longrightarrow> token \<notin> ls_drawn s \<Longrightarrow>
    acquire_lock ops t token name ttl (ls_server s) = (res, r') \<Longrightarrow>
    lock_step ops view name ttl s \<lparr>ls_now = t, ls_server = r', ls_drawn = insert token (ls_drawn s),
      ls_held = (if res = None then ls_held s else insert (token, t + ttl * 1000) (ls_held s))\<rparr>"
| release: "ls_now s \<le> t \<Longrightarrow> (token, e) \<in> ls_held s \<Longrightarrow>
    release_lock ops t name token (ls_server s) = r' \<Longrightarrow>
    lock_step ops view name ttl s \<lparr>ls_now = t, ls_server = r', ls_drawn = ls_drawn s,
      ls_held = ls_held s - {(token, e)}\<rparr>"
| crash: "lock_step ops view name ttl s (s\<lparr>ls_held := ls_held s - {h}\<rparr>)"
| other: "ls_now s \<le> t \<Longrightarrow> (\<forall>t' \<ge> t. view t' r' (lock_key name) = view t' (ls_server s) (lock_key name)) \<Longrightarrow>
    lock_step ops view name ttl s (s\<lparr>ls_now := t, ls_server := r'\<rparr>)"

definition lock_inv :: "'r kv_view \<Rightarrow> string \<Rightarrow> 'r lock_sys \<Rightarrow> bool" where
  "lock_inv view name s =
     ((\<forall>token e. (token, e) \<in> ls_held s \<longrightarrow> token \<in> ls_drawn s) \<and>
      (\<forall>token e e'. (token, e) \<in> ls_held s \<longrightarrow> (token, e') \<in> ls_held s \<longrightarrow> e = e') \<and>
      (\<forall>token e t. (token, e) \<in> ls_held s \<longrightarrow> ls_now s \<le> t \<longrightarrow> t < e \<longrightarrow>
         view t (ls_server s) (lock_key name) = Some token))"

section \<open>Lemmas\<close>

lemma char_list_split_unique:
  "c \<notin> set a \<Longrightarrow> c \<notin> set b \<Longrightarrow> a @ c # x = b @ c # y \<Longrightarrow> a = b \<and> x = y"
proof (induction a arbitrary: b)
  case Nil
  then show ?case by (cases b) auto
next
  case (Cons d a)
  then show ?case by (cases b) auto
qed

lemma char_list_rsplit_unique:
  assumes "c \<notin> set x" "c \<notin> set y" "a @ c # x = b @ c # y"
  shows "a = b \<and> x = y"
proof -
  have "rev x @ c # rev a = rev y @ c # rev b" using arg_cong [OF assms(3), of rev] by simp
  from char_list_split_unique [OF _ _ this] assms(1,2) show ?thesis by simp
qed

lemma upper_char_NUL: "upper_char c = NUL \<longleftrightarrow> c = NUL"
proof -
  have c: "c = char_of (ccode c)" by (simp add: ccode_def)
  have n: "ccode c < 256" unfolding ccode_def by (rule nat_of_char_less_256)
  show ?thesis
  proof (cases "97 \<le> ccode c \<and> ccode c \<le> 122")
    case True
    then have "ccode (char_of (ccode c - 32)) \<noteq> ccode NUL" "ccode c \<noteq> ccode NUL"
      by (auto simp: ccode_def NUL_def of_char_of)
    with True show ?thesis by (auto simp: upper_char_def Let_def)
  qed (auto simp: upper_char_def Let_def)
qed

lemma lock_invI:
  assumes "\<And>token e. (token, e) \<in> ls_held s \<Longrightarrow> token \<in> ls_drawn s"
    and "\<And>token e e'. (token, e) \<in> ls_held s \<Longrightarrow> (token, e') \<in> ls_held s \<Longrightarrow> e = e'"
    and "\<And>token e t. (token, e) \<in> ls_held s \<Longrightarrow> ls_now s \<le> t \<Longrightarrow> t < e \<Longrightarrow>
           view t (ls_server s) (lock_key name) = Some token"
  shows "lock_inv view name s"
  using assms unfolding lock_inv_def by blast

lemma lock_invD:
  assumes "lock_inv view name s"
  shows "(token, e) \<in> ls_held s \<Longrightarrow> token \<in> ls_drawn s"
    and "(token, e) \<in> ls_held s \<Longrightarrow> (token, e') \<in> ls_held s \<Longrightarrow> e = e'"
    and "(token, e) \<in> ls_held s \<Longrightarrow> ls_now s \<le> t \<Longrightarrow> t < e \<Longrightarrow>
           view t (ls_server s) (lock_key name) = Some token"
  using assms unfolding lock_inv_def by blast+

context redis_kv_laws
begin

lemma acquire_granted:
  assumes "acquire_lock ops t token name ttl r = (Some x, r')" "0 < ttl"
  shows "x = token" "view t r (lock_key name) = None"
    "t \<le> t' \<Longrightarrow> view t' r' (lock_key name) = (if t' < t + ttl * 1000 then Some token else None)"
proof -
  obtain q where q: "rk_setnx ops t (lock_key name) token ttl r = (q, r')"
    using assms by (auto simp: acquire_lock_def split: prod.splits sum.splits)
  with assms have ok: "q = Inr True" "x = token"
    by (auto simp: acquire_lock_def split: sum.splits if_splits)
  show "x = token" by fact
  show free: "view t r (lock_key name) = None" using setnx_reply q ok by blast
  show "t \<le> t' \<Longrightarrow> view t' r' (lock_key name) = (if t' < t + ttl * 1000 then Some token else None)"
    using setnx_effect [OF q assms(2)] ok free by (simp add: effected_def put_from_def)
qed

lemma acquire_busy:
  assumes "acquire_lock ops t token name ttl r = (res, r')" "0 < ttl" "view t r (lock_key name) = Some v"
  shows "res = None" "same_from view t r r'"
proof -
  obtain q where q: "rk_setnx ops t (lock_key name) token ttl r = (q, r')"
    using assms(1) by (auto simp: acquire_lock_def split: prod.splits sum.splits)
  show "res = None" using assms q setnx_reply [of t "lock_key name" token ttl r]
    by (auto simp: acquire_lock_def split: sum.splits)
  show "same_from view t r r'" using setnx_effect [OF q assms(2)] assms(3)
    by (auto simp: effected_def split: sum.splits)
qed

lemma same_from_trans: "same_from view t a b \<Longrightarrow> same_from view t b c \<Longrightarrow> same_from view t a c"
  by (simp add: same_from_def)

lemma release_other:
  assumes "view t r (lock_key name) \<noteq> Some token"
  shows "same_from view t r (release_lock ops t name token r)"
proof -
  obtain v r1 where g: "rk_get ops t (lock_key name) r = (v, r1)" by fastforce
  show ?thesis using get_same [OF g] get_reply [of t "lock_key name" r] g assms
    by (auto simp: release_lock_def split: sum.splits)
qed

lemma lock_inv_acquire:
  assumes inv: "lock_inv view name s" and ttl: "0 < ttl" and t: "ls_now s \<le> t"
    and new: "token \<notin> ls_drawn s" and acq: "acquire_lock ops t token name ttl (ls_server s) = (res, r')"
  shows "lock_inv view name \<lparr>ls_now = t, ls_server = r', ls_drawn = insert token (ls_drawn s),
      ls_held = (if res = None then ls_held s else insert (token, t + ttl * 1000) (ls_held s))\<rparr>"
proof (cases "\<exists>tok e. (tok, e) \<in> ls_held s \<and> t < e")
  case True
  then obtain v where v: "view t (ls_server s) (lock_key name) = Some v"
    using lock_invD(3) [OF inv] t by blast
  note busy = acquire_busy [OF acq ttl v]
  show ?thesis
    by (rule lock_invI)
       (use busy lock_invD [OF inv] t in \<open>auto simp: same_from_def\<close>)
next
  case False
  have granted: "view t' r' (lock_key name) = Some token"
    if "res = Some x" "t \<le> t'" "t' < t + ttl * 1000" for t' x
    using acquire_granted(3) [OF acq [unfolded that(1)] ttl that(2)] that(3) by simp
  have fresh: "(token, e) \<notin> ls_held s" for e using lock_invD(1) [OF inv] new by blast
  have old: "(tok, e) \<in> ls_held s \<Longrightarrow> e \<le> t" for tok e using False by fastforce
  show ?thesis
    by (rule lock_invI)
       (use granted fresh lock_invD(1,2) [OF inv] in \<open>auto split: if_splits dest: old\<close>)
qed

lemma lock_inv_release:
  assumes inv: "lock_inv view name s" and t: "ls_now s \<le> t" and h: "(token, e) \<in> ls_held s"
  shows "lock_inv view name \<lparr>ls_now = t, ls_server = release_lock ops t name token (ls_server s),
      ls_drawn = ls_drawn s, ls_held = ls_held s - {(token, e)}\<rparr>"
proof -
  have keep: "view t' (release_lock ops t name token (ls_server s)) (lock_key name) = Some tok"
    if g: "(tok, e') \<in> ls_held s" "(tok, e') \<noteq> (token, e)" "t \<le> t'" "t' < e'" for tok e' t'
  proof -
    have "tok \<noteq> token" using g lock_invD(2) [OF inv h] by blast
    then show ?thesis
      using release_other [of t "ls_server s" name token] lock_invD(3) [OF inv g(1)] t g(3,4)
      by (auto simp: same_from_def)
  qed
  show ?thesis by (rule lock_invI) (use keep lock_invD(1,2) [OF inv] in auto)
qed

lemma lock_inv_step:
  assumes "lock_step ops view name ttl s s'" "0 < ttl" "lock_inv view name s"
  shows "lock_inv view name s'"
  using assms(1)
proof cases
  case (acquire t token res r')
  then show ?thesis using lock_inv_acquire [OF assms(3,2)] by simp
next
  case (release t token e r')
  show ?thesis
    unfolding release(1) release(4) [symmetric] by (rule lock_inv_release [OF assms(3) release(2,3)])
next
  case (crash h)
  show ?thesis unfolding crash by (rule lock_invI) (use lock_invD [OF assms(3)] in auto)
next
  case (other t r')
  show ?thesis unfolding other(1) by (rule lock_invI) (use lock_invD [OF assms(3)] other in auto)
qed

lemma lock_inv_run:
  "(lock_step ops view name ttl)\<^sup>*\<^sup>* s s' \<Longrightarrow> 0 < ttl \<Longrightarrow> lock_inv view name s \<Longrightarrow> lock_inv view name s'"
  by (induction rule: rtranclp_induct) (auto intro: lock_inv_step)

end

lemma cr_body_build [simp]: "cr_body (CachedResponse_build now status hs body media ff) = Some body"
  by (simp add: cr_body_def CachedResponse_build_def)

section \<open>Properties\<close>

text \<open>
  C10.  Single flight: however the workers' acquisitions, releases, crashes and unrelated commands
  interleave, and whichever commands raise, two grants whose leases are both still running are the
  same grant; a holder whose lease ran out cannot release its successor's lock.
\<close>

theorem lock_mutual_exclusion:
  assumes "redis_kv_laws ops view" "0 < ttl" "ls_held s0 = {}"
    and "(lock_step ops view name ttl)\<^sup>*\<^sup>* s0 s"
    and "(token1, e1) \<in> ls_held s" "ls_now s < e1" "(token2, e2) \<in> ls_held s" "ls_now s < e2"
  shows "token1 = token2 \<and> e1 = e2"
proof -
  have "lock_inv view name s0" using assms(3) by (simp add: lock_inv_def)
  with redis_kv_laws.lock_inv_run [OF assms(1,4,2)] have inv: "lock_inv view name s" .
  have "token1 = token2"
    using lock_invD(3) [OF inv assms(5) order.refl assms(6)]
      lock_invD(3) [OF inv assms(7) order.refl assms(8)] by simp
  then show ?thesis using lock_invD(2) [OF inv] assms(5,7) by blast
qed

text \<open>
  Cache keys keep requests apart: unless the digest collides, two requests share a key only
  if they agree on the method up to case, on the path, on the query string in its order and on the
  representation variant.  A NUL in the decoded path does not blur the boundary.
\<close>

theorem cache_key_injective:
  assumes "sha256_hex (cache_key_text m p q v) = sha256_hex (cache_key_text m' p' q' v') \<Longrightarrow>
      cache_key_text m p q v = cache_key_text m' p' q' v'"
    and "NUL \<notin> set m \<union> set q \<union> set v" "NUL \<notin> set m' \<union> set q' \<union> set v'"
    and "build_cache_key sha256_hex m p q v = build_cache_key sha256_hex m' p' q' v'"
  shows "py_upper m = py_upper m' \<and> p = p' \<and> q = q' \<and> v = v'"
proof -
  have up: "NUL \<notin> set m \<Longrightarrow> NUL \<notin> set (py_upper m)" for m
    by (auto simp: py_upper_def upper_char_NUL dest: sym)
  have "py_upper m @ NUL # (p @ NUL # q @ NUL # v) = py_upper m' @ NUL # (p' @ NUL # q' @ NUL # v')"
    using assms(1,4) by (simp add: build_cache_key_def cache_key_text_def)
  from char_list_split_unique [OF _ _ this] up assms(2,3)
  have u: "py_upper m = py_upper m'" and "p @ NUL # q @ NUL # v = p' @ NUL # q' @ NUL # v'" by simp_all
  then have "(p @ NUL # q) @ NUL # v = (p' @ NUL # q') @ NUL # v'" by simp
  from char_list_rsplit_unique [OF _ _ this] assms(2,3)
  have v: "v = v'" and pq: "p @ NUL # q = p' @ NUL # q'" by simp_all
  from char_list_rsplit_unique [OF _ _ pq] assms(2,3) have "p = p' \<and> q = q'" by simp
  with u v show ?thesis by simp
qed

text \<open>
  Stale-while-revalidate: a response that was stored is read back with the same bytes, as HIT
  until its freshness ends, as STALE for one more day of server time, and as MISS afterwards,
  provided nobody else wrote the key and the server answers.
\<close>

theorem cache_roundtrip:
  assumes laws: "redis_kv_laws ops view"
    and entry: "entry = CachedResponse_build now status hs body media fresh" "0 < fresh"
    and codec: "model_validate_json codec (model_dump_json codec entry) = Inr entry"
    and stored: "rk_set ops t key (model_dump_json codec entry) (fresh + STALE_GRACE_SECONDS) r = (Inr (), r1)"
    and later: "t \<le> t2" "view t2 r2 key = view t2 r1 key"
    and answers: "rk_get ops t2 key r2 = (Inr raw, r3)"
  shows "cache_set ops codec t key entry r = r1 \<and> cr_body entry = Some body \<and>
    cache_get ops codec t2 now2 key r2 =
      (Inr (if t2 < t + (fresh + STALE_GRACE_SECONDS) * 1000
            then (if f_le (Fin (of_int fresh)) (f_sub now2 now) then STALE else HIT, Some entry)
            else (MISS, None)), r3)"
proof -
  have ttl: "max (cr_fresh_for entry + STALE_GRACE_SECONDS) 1 = fresh + STALE_GRACE_SECONDS"
    using entry by (simp add: CachedResponse_build_def STALE_GRACE_SECONDS_def)
  have "put_from view t key (model_dump_json codec entry) (fresh + STALE_GRACE_SECONDS) r r1"
    using redis_kv_laws.set_effect [OF laws stored] entry(2)
    by (simp add: effected_def STALE_GRACE_SECONDS_def)
  then have raw: "raw = (if t2 < t + (fresh + STALE_GRACE_SECONDS) * 1000
      then Some (model_dump_json codec entry) else None)"
    using redis_kv_laws.get_reply [OF laws answers] later by (simp add: put_from_def)
  have stale: "is_stale now2 entry = f_le (Fin (of_int fresh)) (f_sub now2 now)"
    using entry by (simp add: is_stale_def age_seconds_def CachedResponse_build_def)
  have "cr_body entry = Some body" by (simp add: entry)
  then show ?thesis
    using stored answers codec raw stale by (simp add: cache_set_def ttl Let_def cache_get_def)
qed

text \<open>
  A HIT is a fresh, complete entry: whatever is stored under the key, a lookup that reports HIT
  returns an entry that the stored text validates to, that is younger than its freshness time (or
  of incomparable age) and whose body decodes; corrupt text and server errors are a MISS.
\<close>

theorem cache_hit_fresh:
  assumes "redis_kv_laws ops view"
    and "cache_get ops codec t now key r = (Inr (HIT, e), r')"
  shows "\<exists>raw entry body. e = Some entry \<and> view t r key = Some raw \<and>
     model_validate_json codec raw = Inr entry \<and> cr_body entry = Some body \<and>
     \<not> f_le (Fin (of_int (cr_fresh_for entry))) (f_sub now (cr_stored_at entry))"
proof -
  obtain q r1 where g: "rk_get ops t key r = (q, r1)" by fastforce
  from assms(2) g obtain raw where q: "q = Inr (Some raw)"
    by (auto simp: cache_get_def split: sum.splits option.splits)
  have "view t r key = Some raw" using redis_kv_laws.get_reply [OF assms(1) g [unfolded q]] by simp
  then show ?thesis
    using assms(2) g q by (auto simp: cache_get_def is_stale_def age_seconds_def
        split: sum.splits option.splits if_splits)
qed

section \<open>Witnesses\<close>

definition demo_lock_sys :: "mem_redis lock_sys" where
  "demo_lock_sys = \<lparr>ls_now = 0, ls_server = mem_empty, ls_drawn = {}, ls_held = {}\<rparr>"

theorem lock_mutual_exclusion_witness:
  "\<exists>s. (lock_step mem_kv mem_view ''k'' 10)\<^sup>*\<^sup>* demo_lock_sys s \<and> (''a'', 10000) \<in> ls_held s \<and>
     (\<forall>token e. (token, e) \<in> ls_held s \<longrightarrow> ls_now s < e \<longrightarrow> token = ''a'')"
proof -
  obtain r' where acq: "acquire_lock mem_kv 0 ''a'' ''k'' 10 mem_empty = (Some ''a'', r')"
    by (simp add: acquire_lock_def mem_kv_def mem_empty_def mem_view_def lock_key_def)
  let ?s = "\<lparr>ls_now = 0, ls_server = r', ls_drawn = insert ''a'' (ls_drawn demo_lock_sys),
      ls_held = (if Some ''a'' = None then ls_held demo_lock_sys
                 else insert (''a'', 0 + 10 * 1000) (ls_held demo_lock_sys))\<rparr>"
  have "lock_step mem_kv mem_view ''k'' 10 demo_lock_sys ?s"
    by (rule lock_step.acquire) (use acq in \<open>simp_all add: demo_lock_sys_def\<close>)
  then have run: "(lock_step mem_kv mem_view ''k'' 10)\<^sup>*\<^sup>* demo_lock_sys ?s" by (rule r_into_rtranclp)
  have none: "ls_held demo_lock_sys = {}" by (simp add: demo_lock_sys_def)
  have "token = ''a''" if "(token, e) \<in> ls_held ?s" "ls_now ?s < e" for token e
    using lock_mutual_exclusion [OF mem.redis_kv_laws_axioms _ none run that, of "''a''" 10000] by simp
  with run show ?thesis by (intro exI [of _ ?s]) (auto simp: none)
qed

lemma NUL_eq: "NUL = CHR 0x00"
  by code_simp

theorem cache_key_injective_witness:
  "build_cache_key id ''get'' (''a'' @ [NUL] @ ''b'') ''q'' [] \<noteq> build_cache_key id ''GET'' ''a'' ''q'' []"
proof
  assume "build_cache_key id ''get'' (''a'' @ [NUL] @ ''b'') ''q'' [] = build_cache_key id ''GET'' ''a'' ''q'' []"
  from cache_key_injective [OF _ _ _ this] show False by (simp add: NUL_eq)
qed

definition demo_entry :: cached_response where
  "demo_entry = CachedResponse_build (Fin 1000) 200 [] [72, 105] None 60"

definition demo_codec :: envelope_codec where
  "demo_codec = \<lparr>model_dump_json = (\<lambda>_. ''{}''), model_validate_json = (\<lambda>_. Inr demo_entry)\<rparr>"

lemma demo_stored:
  "\<exists>r1. rk_set mem_kv 0 ''k'' (model_dump_json demo_codec demo_entry) (60 + STALE_GRACE_SECONDS) mem_empty = (Inr (), r1) \<and>
     (\<exists>raw r3. rk_get mem_kv 5 ''k'' r1 = (Inr raw, r3))"
  by (simp add: mem_kv_def mem_empty_def mem_put_def)

theorem cache_roundtrip_witness:
  "\<exists>r1 r3. cache_set mem_kv demo_codec 0 ''k'' demo_entry mem_empty = r1 \<and>
     cache_get mem_kv demo_codec 5 (Fin 1001) ''k'' r1 = (Inr (HIT, Some demo_entry), r3)"
proof -
  obtain r1 raw r3 where s: "rk_set mem_kv 0 ''k'' (model_dump_json demo_codec demo_entry)
      (60 + STALE_GRACE_SECONDS) mem_empty = (Inr (), r1)" "rk_get mem_kv 5 ''k'' r1 = (Inr raw, r3)"
    using demo_stored by blast
  from cache_roundtrip [OF mem.redis_kv_laws_axioms demo_entry_def _ _ s(1) _ refl s(2), of "Fin 1001"]
  show ?thesis by (simp add: demo_codec_def STALE_GRACE_SECONDS_def f_sub_def)
qed

theorem cache_hit_fresh_witness:
  "\<exists>raw entry body. Some demo_entry = Some entry \<and>
     mem_view 5 (mem_put ''k'' ''{}'' None mem_empty) ''k'' = Some raw \<and>
     model_validate_json demo_codec raw = Inr entry \<and> cr_body entry = Some body \<and>
     \<not> f_le (Fin (of_int (cr_fresh_for entry))) (f_sub (Fin 1001) (cr_stored_at entry))"
proof (rule cache_hit_fresh [OF mem.redis_kv_laws_axioms])
  show "cache_get mem_kv demo_codec 5 (Fin 1001) ''k'' (mem_put ''k'' ''{}'' None mem_empty) =
      (Inr (HIT, Some demo_entry), mem_put ''k'' ''{}'' None mem_empty)"
    by (simp add: cache_get_def mem_kv_def mem_view_put mem_empty_def mem_put_def mem_view_def demo_codec_def is_stale_def
        age_seconds_def f_sub_def demo_entry_def) (simp add: CachedResponse_build_def)
qed

end
