(* ===== verification/Sync_Worker.thy ===== *)
theory Sync_Worker
  imports Proxy_Http Redis_Client
begin

text \<open>
  \<^verbatim>\<open>gateway/offline_queue/sync_worker.py\<close>: queueing of failed writes and their replay.  Every
  operation is a step on the worker's world: the Redis server, the dead-letter table and the log of
  requests sent to upstreams.  A command may raise after it took effect, so a crash of the worker
  at a command is one of the runs.  The lemmas show that a queued write is not lost, that it is
  sent within its retry budget and no earlier than its backoff, and that it is replayed as it was
  received.
\<close>

section \<open>Effects\<close>

datatype worker_exn = PyExn py_error | RedisExn redis_error | DbExn | ClientExn

record failed_request =
  fr_method :: string
  fr_path :: string
  fr_headers :: "(string \<times> json) list"
  fr_body :: "string option"
  fr_client_id :: "string option"
  fr_retries :: int
  fr_last_error :: "string option"

record sent_request =
  sn_id :: string
  sn_method :: string
  sn_url :: string
  sn_headers :: "(string, string) dict"
  sn_body :: bytes
  sn_answer :: "(upstream_error, upstream_response) result" \<comment> \<open>what came back\<close>

record 'r world =
  w_redis :: 'r
  w_failed :: "failed_request list"
  w_sent :: "sent_request list"
  w_cursor :: string \<comment> \<open>where the next claim of idle entries starts\<close>

type_synonym ('s, 'a) io = "'s \<Rightarrow> (worker_exn, 'a) result \<times> 's"

definition io_return :: "'a \<Rightarrow> ('s, 'a) io" where
  "io_return x s = (Inr x, s)"

definition io_raise :: "worker_exn \<Rightarrow> ('s, 'a) io" where
  "io_raise e s = (Inl e, s)"

definition io_bind :: "('s, 'a) io \<Rightarrow> ('a \<Rightarrow> ('s, 'b) io) \<Rightarrow> ('s, 'b) io" where
  "io_bind m k s = (case m s of (Inl e, s') \<Rightarrow> (Inl e, s') | (Inr x, s') \<Rightarrow> k x s')"

definition redis_io :: "('r, 'a) command \<Rightarrow> ('r world, 'a) io" where
  "redis_io c w = (case c (w_redis w) of (res, r') \<Rightarrow> (map_sum RedisExn id res, w\<lparr>w_redis := r'\<rparr>))"

definition py_io :: "(py_error, 'a) result \<Rightarrow> ('s, 'a) io" where
  "py_io res = (case res of Inl e \<Rightarrow> io_raise (PyExn e) | Inr x \<Rightarrow> io_return x)"

section \<open>Parameters\<close>

datatype db_commit = Stored | Refused | StoredButRaised \<comment> \<open>a connection that is lost after the commit\<close>

record 'r worker_env =
  we_cfg :: settings
  we_rules :: route_rules
  we_kv :: "'r redis_kv"
  we_q :: "'r redis_queue"
  we_loads :: json_loads
  we_dumps :: json_dumps
  we_float_repr :: "pyfloat \<Rightarrow> string" \<comment> \<open>\<^verbatim>\<open>repr\<close> of a float\<close>
  we_bracket_ok :: "string \<Rightarrow> bool"
  we_http :: http_client
  we_exc_name :: "upstream_error \<Rightarrow> string"
  we_db :: "failed_request \<Rightarrow> db_commit" \<comment> \<open>what the database does with the row\<close>

abbreviation outside :: "http_client \<Rightarrow> (failed_request \<Rightarrow> db_commit) \<Rightarrow> 'r worker_env \<Rightarrow> 'r worker_env" where
  \<comment> \<open>upstreams and the database as they are at some time\<close>
  "outside http db env \<equiv> env\<lparr>we_http := http, we_db := db\<rparr>"

definition ATTEMPTS_HASH :: string where
  "ATTEMPTS_HASH = ''offline_queue:attempts''"

definition DUE_HASH :: string where
  "DUE_HASH = ''offline_queue:due''"

definition write_methods :: "string list" where
  "write_methods = [''POST'', ''PUT'', ''PATCH'', ''DELETE'']"

section \<open>Queueing\<close>

definition queue_entry ::
  "'r worker_env \<Rightarrow> pyfloat \<Rightarrow> string \<Rightarrow> string \<Rightarrow> string \<Rightarrow> (string, string) dict \<Rightarrow> bytes \<Rightarrow> string option \<Rightarrow>
     (string, string) dict" where
  "queue_entry env now verb url path hs body client_id =
     [(''method'', verb), (''url'', url), (''path'', path),
      (''headers'', we_dumps env (JObj (map (\<lambda>(k, v). (k, JStr v)) hs))),
      (''body'', latin1_decode body),
      (''client_id'', case client_id of Some c \<Rightarrow> c | None \<Rightarrow> []),
      (''timestamp'', we_float_repr env now)]"

definition enqueue_script :: "'r worker_env \<Rightarrow> (string, string) dict \<Rightarrow> ('r world, string option) io" where
  \<comment> \<open>XLEN against the limit and XADD in one step of the server\<close>
  "enqueue_script env entry =
     io_bind (redis_io (rq_xlen (we_q env) (queue_stream_key (we_cfg env)))) (\<lambda>n.
       if n \<ge> queue_max_depth (we_cfg env) then io_return None
       else io_bind (redis_io (rq_xadd (we_q env) (queue_stream_key (we_cfg env)) entry)) (\<lambda>i. io_return (Some i)))"

definition enqueue_write ::
  "'r worker_env \<Rightarrow> pyfloat \<Rightarrow> string \<Rightarrow> string \<Rightarrow> string \<Rightarrow> (string, string) dict \<Rightarrow> bytes \<Rightarrow> string option \<Rightarrow>
     ('r world, string) io" where
  "enqueue_write env now verb url path hs body client_id =
     io_bind (py_io (destination_service (we_bracket_ok env) (we_cfg env) url)) (\<lambda>service.
       if verb \<notin> set write_methods \<or> service = None \<or>
          \<not> rr_queue_writes (get_route_rule (we_rules env) (the service)) \<or>
          dict_get hs ''idempotency-key'' [] = [] \<or>
          int (length body) > max_request_body_bytes (we_cfg env)
       then io_raise (PyExn ValueError)
       else io_bind (enqueue_script env (queue_entry env now verb url path hs body client_id)) (\<lambda>res.
              case res of None \<Rightarrow> io_raise (PyExn ValueError)
                        | Some i \<Rightarrow> if i = [] then io_raise (PyExn ValueError) else io_return i))"

section \<open>Replay\<close>

definition backoff_seconds :: "settings \<Rightarrow> int \<Rightarrow> int" where
  "backoff_seconds cfg attempts =
     (let schedule = queue_backoff_schedule cfg;
          idx = min (max (attempts - 1) 0) (int (length schedule) - 1)
      in schedule ! nat idx)"

definition get_attempts :: "'r worker_env \<Rightarrow> string \<Rightarrow> ('r world, int) io" where
  "get_attempts env msg_id =
     io_bind (redis_io (rq_hget (we_q env) ATTEMPTS_HASH msg_id)) (\<lambda>raw.
       case raw of
         None \<Rightarrow> io_return 0
       | Some s \<Rightarrow> if s = [] then io_return 0
                   else case py_int_of_str s of None \<Rightarrow> io_raise (PyExn ValueError) | Some n \<Rightarrow> io_return n)"

definition ack :: "'r worker_env \<Rightarrow> string \<Rightarrow> ('r world, unit) io" where
  "ack env msg_id =
     (let cfg = we_cfg env; q = we_q env
      in io_bind (redis_io (rq_xack q (queue_stream_key cfg) (queue_consumer_group cfg) msg_id)) (\<lambda>_.
         io_bind (redis_io (rq_xdel q (queue_stream_key cfg) msg_id)) (\<lambda>_.
         io_bind (redis_io (rq_hdel q ATTEMPTS_HASH msg_id)) (\<lambda>_.
         redis_io (rq_hdel q DUE_HASH msg_id)))))"

definition dead_letter_row ::
  "'r worker_env \<Rightarrow> (string, string) dict \<Rightarrow> int \<Rightarrow> string option \<Rightarrow> (py_error, failed_request) result" where
  "dead_letter_row env flds attempts error =
     (let parsed = (case we_loads env (dict_get flds ''headers'' ''{}'') of
            Inr (JObj hs) \<Rightarrow> Inr hs
          | Inr _ \<Rightarrow> Inr []
          | Inl e \<Rightarrow> if e = ValueError \<or> e = TypeError then Inr [] else Inl e)
      in case parsed of
           Inl e \<Rightarrow> Inl e
         | Inr hs \<Rightarrow> Inr \<lparr>fr_method = dict_get flds ''method'' [], fr_path = dict_get flds ''path'' [],
             fr_headers = filter (\<lambda>h. py_lower (fst h) \<in> {''content-type'', ''idempotency-key''}) hs,
             fr_body = map_of flds ''body'',
             fr_client_id = (case map_of flds ''client_id'' of Some c \<Rightarrow> if c = [] then None else Some c | None \<Rightarrow> None),
             fr_retries = attempts, fr_last_error = error\<rparr>)"

definition dead_letter ::
  "'r worker_env \<Rightarrow> (string, string) dict \<Rightarrow> int \<Rightarrow> string option \<Rightarrow> ('r world, unit) io" where
  "dead_letter env flds attempts error =
     io_bind (py_io (dead_letter_row env flds attempts error)) (\<lambda>row w.
       (if we_db env row = Stored then Inr () else Inl DbExn,
        if we_db env row = Refused then w else w\<lparr>w_failed := w_failed w @ [row]\<rparr>))"

fun string_headers :: "(string \<times> json) list \<Rightarrow> (string, string) dict option" where
  "string_headers [] = Some []"
| "string_headers ((k, JStr v) # hs) = map_option (\<lambda>rest. (k, v) # rest) (string_headers hs)"
| "string_headers _ = None"

text \<open>The request itself: success, whether a failure may be retried, and its description.\<close>

definition replay_request ::
  "'r worker_env \<Rightarrow> string \<Rightarrow> (string, string) dict \<Rightarrow> (string \<times> json) list \<Rightarrow>
     ('r world, bool \<times> bool \<times> string option) io" where
  "replay_request env msg_id flds hs w =
     (case string_headers hs of
        None \<Rightarrow> (Inl (PyExn AttributeError), w)
      | Some shs \<Rightarrow>
          let verb = dict_get flds ''method'' []; url = dict_get flds ''url'' [];
              body = latin1_encode (dict_get flds ''body'' []);
              answer = bounded_request (we_cfg env) (we_http env) verb url shs body;
              w' = w\<lparr>w_sent := w_sent w @ [\<lparr>sn_id = msg_id, sn_method = verb, sn_url = url,
                                            sn_headers = shs, sn_body = body, sn_answer = answer\<rparr>]\<rparr>
          in case answer of
               Inr resp \<Rightarrow>
                 (let success = (200 \<le> ur_status resp \<and> ur_status resp < 300)
                  in (Inr (success, ur_status resp \<ge> 500 \<or> ur_status resp \<in> {408, 429},
                           if success then None else Some (''upstream '' @ str_of_int (ur_status resp))), w'))
             | Inl InvalidURL \<Rightarrow> (Inl ClientExn, w)
             | Inl e \<Rightarrow> (Inr (False, True, Some (we_exc_name env e)), w'))"

record clock =
  ck_due :: pyfloat
  ck_expiry :: pyfloat
  ck_backoff :: pyfloat
  ck_lock :: int
  ck_release :: int
  ck_token :: string

definition attempt_eligible ::
  "'r worker_env \<Rightarrow> pyfloat \<Rightarrow> (string, string) dict \<Rightarrow> (string \<times> json) list \<Rightarrow> string option \<Rightarrow> pyfloat \<Rightarrow> bool" where
  "attempt_eligible env now flds hs service timestamp =
     (let expired = f_lt (Fin (of_int (queue_max_age_seconds (we_cfg env)))) (f_sub now timestamp)
      in service \<noteq> None \<and> rr_queue_writes (get_route_rule (we_rules env) (the service)) \<and>
         (case map_of flds ''method'' of None \<Rightarrow> False | Some m \<Rightarrow> m \<in> set write_methods) \<and>
         truthy (dict_get hs ''idempotency-key'' JNull) \<and> \<not> expired)"

definition not_due :: "pyfloat \<Rightarrow> string option \<Rightarrow> (py_error, bool) result" where
  "not_due now due =
     (case due of
        None \<Rightarrow> Inr False
      | Some s \<Rightarrow> if s = [] then Inr False
                  else case py_float_of_str s of None \<Rightarrow> Inl ValueError | Some d \<Rightarrow> Inr (f_lt now d))"

definition sent_tail ::
  "'r worker_env \<Rightarrow> clock \<Rightarrow> string \<Rightarrow> (string, string) dict \<Rightarrow> (string \<times> json) list \<Rightarrow> int \<Rightarrow> ('r world, unit) io" where
  "sent_tail env ck msg_id flds hs attempts =
     io_bind (redis_io (rq_hset (we_q env) DUE_HASH msg_id
         (we_float_repr env (f_add (ck_backoff ck) (b64 (of_int (backoff_seconds (we_cfg env) attempts))))))) (\<lambda>_.
     io_bind (replay_request env msg_id flds hs) (\<lambda>(success, retryable, error).
       if success then ack env msg_id
       else if attempts \<ge> queue_max_retries (we_cfg env) + 1 \<or> \<not> retryable
       then io_bind (dead_letter env flds attempts error) (\<lambda>_. ack env msg_id)
       else io_return ()))"

definition try_send ::
  "'r worker_env \<Rightarrow> clock \<Rightarrow> string \<Rightarrow> (string, string) dict \<Rightarrow> (string \<times> json) list \<Rightarrow> int \<Rightarrow> ('r world, unit) io" where
  \<comment> \<open>the budget is persisted before the request is sent\<close>
  "try_send env ck msg_id flds hs attempts =
     io_bind (redis_io (rq_hset (we_q env) ATTEMPTS_HASH msg_id (str_of_int attempts))) (\<lambda>_.
       sent_tail env ck msg_id flds hs attempts)"

definition deliver ::
  "'r worker_env \<Rightarrow> clock \<Rightarrow> string \<Rightarrow> (string, string) dict \<Rightarrow> ('r world, unit) io" where
  "deliver env ck msg_id flds =
     io_bind (redis_io (rq_hget (we_q env) DUE_HASH msg_id)) (\<lambda>due.
     io_bind (py_io (not_due (ck_due ck) due)) (\<lambda>later.
     if later then io_return ()
     else
     io_bind (get_attempts env msg_id) (\<lambda>previous.
     io_bind (py_io (we_loads env (dict_get flds ''headers'' ''{}''))) (\<lambda>document.
     case document of
       JObj hs \<Rightarrow>
         io_bind (py_io (destination_service (we_bracket_ok env) (we_cfg env) (dict_get flds ''url'' []))) (\<lambda>service.
         io_bind (py_io (case py_float_of_str (dict_get flds ''timestamp'' ''0'') of
                           None \<Rightarrow> Inl ValueError | Some x \<Rightarrow> Inr x)) (\<lambda>timestamp.
         if \<not> attempt_eligible env (ck_expiry ck) flds hs service timestamp \<or>
            previous + 1 > queue_max_retries (we_cfg env) + 1
         then io_bind (dead_letter env flds previous (Some ''replay ineligible or expired'')) (\<lambda>_. ack env msg_id)
         else try_send env ck msg_id flds hs (previous + 1)))
     | _ \<Rightarrow> io_raise (PyExn ValueError)))))"

definition malformed :: "worker_exn \<Rightarrow> bool" where
  "malformed e = (e \<in> {PyExn ValueError, PyExn KeyError, PyExn TypeError})"

definition bury_malformed :: "'r worker_env \<Rightarrow> string \<Rightarrow> (string, string) dict \<Rightarrow> ('r world, unit) io" where
  "bury_malformed env msg_id flds =
     io_bind (get_attempts env msg_id) (\<lambda>n.
     io_bind (dead_letter env flds n (Some ''malformed queue entry'')) (\<lambda>_. ack env msg_id))"

definition deliver_or_bury ::
  "'r worker_env \<Rightarrow> clock \<Rightarrow> string \<Rightarrow> (string, string) dict \<Rightarrow> ('r world, unit) io" where
  "deliver_or_bury env ck msg_id flds w =
     (case deliver env ck msg_id flds w of
        (Inl e, w1) \<Rightarrow> if malformed e then bury_malformed env msg_id flds w1 else (Inl e, w1)
      | (Inr _, w1) \<Rightarrow> (Inr (), w1))"

definition handle ::
  "'r worker_env \<Rightarrow> clock \<Rightarrow> string \<Rightarrow> (string, string) dict \<Rightarrow> ('r world, unit) io" where
  "handle env ck msg_id flds w =
     (case acquire_lock (we_kv env) (ck_lock ck) (ck_token ck) (''replay:'' @ msg_id)
             (queue_claim_idle_seconds (we_cfg env)) (w_redis w) of
        (None, r1) \<Rightarrow> (Inr (), w\<lparr>w_redis := r1\<rparr>)
      | (Some lease, r1) \<Rightarrow>
          (case deliver_or_bury env ck msg_id flds (w\<lparr>w_redis := r1\<rparr>) of
             (res, w2) \<Rightarrow>
               (res, w2\<lparr>w_redis := release_lock (we_kv env) (ck_release ck) (''replay:'' @ msg_id) lease (w_redis w2)\<rparr>)))"

fun handle_all :: "'r worker_env \<Rightarrow> (clock \<times> stream_entry) list \<Rightarrow> ('r world, unit) io" where
  "handle_all env [] = io_return ()"
| "handle_all env ((ck, (msg_id, flds)) # rest) =
     io_bind (handle env ck msg_id flds) (\<lambda>_. handle_all env rest)"

definition tick ::
  "'r worker_env \<Rightarrow> string \<Rightarrow> int \<Rightarrow> (nat \<Rightarrow> clock) \<Rightarrow> (nat \<Rightarrow> clock) \<Rightarrow> ('r world, unit) io" where
  \<comment> \<open>the consumer, the server clock and the clocks of the two passes\<close>
  "tick env consumer t clocks clocks' =
     (let cfg = we_cfg env; q = we_q env; stream = queue_stream_key cfg; group = queue_consumer_group cfg
      in io_bind (redis_io (rq_xreadgroup q stream group consumer 16)) (\<lambda>new.
         io_bind (handle_all env (zip (map clocks [0..<length new]) new)) (\<lambda>_ w.
         io_bind (redis_io (rq_xautoclaim q t stream group consumer (queue_claim_idle_seconds cfg * 1000)
                    (w_cursor w) 64)) (\<lambda>(cursor, claimed) w'.
           handle_all env (zip (map clocks' [0..<length claimed]) (filter (\<lambda>e. snd e \<noteq> []) claimed))
             (w'\<lparr>w_cursor := cursor\<rparr>)) w)))"

section \<open>Reasoning about runs\<close>

lemma io_bindE:
  assumes "io_bind m k w = (res, w')"
  obtains e where "m w = (Inl e, w')" "res = Inl e"
  | x w1 where "m w = (Inr x, w1)" "k x w1 = (res, w')"
  using assms by (auto simp: io_bind_def split: prod.splits sum.splits)

lemma redis_ioE:
  assumes "redis_io c w = (res, w')"
  obtains e r' where "c (w_redis w) = (Inl e, r')" "w' = w\<lparr>w_redis := r'\<rparr>" "res = Inl (RedisExn e)"
  | x r' where "c (w_redis w) = (Inr x, r')" "w' = w\<lparr>w_redis := r'\<rparr>" "res = Inr x"
proof -
  obtain q r' where "c (w_redis w) = (q, r')" by fastforce
  then show thesis using assms that by (cases q) (auto simp: redis_io_def)
qed

lemma py_ioE:
  assumes "py_io q w = (res, w')"
  obtains "w' = w" "res = map_sum PyExn id q"
  using assms by (auto simp: py_io_def io_raise_def io_return_def split: sum.splits)

text \<open>A relation every run of a step keeps, and its composition.\<close>

definition io_keeps :: "('s \<Rightarrow> 's \<Rightarrow> bool) \<Rightarrow> ('s, 'a) io \<Rightarrow> bool" where
  "io_keeps P m = (\<forall>w res w'. m w = (res, w') \<longrightarrow> P w w')"

lemma io_keepsI: "(\<And>w res w'. m w = (res, w') \<Longrightarrow> P w w') \<Longrightarrow> io_keeps P m"
  by (simp add: io_keeps_def)

lemma io_keepsD: "io_keeps P m \<Longrightarrow> m w = (res, w') \<Longrightarrow> P w w'"
  by (simp add: io_keeps_def)

lemma io_keeps_bind:
  assumes "transp P" "io_keeps P m" "\<And>x. io_keeps P (k x)"
  shows "io_keeps P (io_bind m k)"
proof (rule io_keepsI)
  fix w res w' assume "io_bind m k w = (res, w')"
  then show "P w w'"
    using assms by (elim io_bindE) (blast dest: io_keepsD transpD)+
qed

lemma io_keeps_pure:
  assumes "reflp P"
  shows "io_keeps P (io_return x)" "io_keeps P (io_raise e)" "io_keeps P (py_io q)"
  using assms by (auto simp: io_keeps_def io_return_def io_raise_def py_io_def reflp_def split: sum.splits)

section \<open>What a run can change\<close>

definition stream_ids :: "'r worker_env \<Rightarrow> 'r stream_view \<Rightarrow> 'r world \<Rightarrow> string set" where
  "stream_ids env sv w = fst ` set (sv (w_redis w) (queue_stream_key (we_cfg env)))"

definition sends :: "string \<Rightarrow> 'r world \<Rightarrow> int" where
  "sends m w = int (length (filter (\<lambda>s. sn_id s = m) (w_sent w)))"

definition stored_attempts :: "'r hash_view \<Rightarrow> string \<Rightarrow> 'r world \<Rightarrow> int option" where
  "stored_attempts hv m w =
     (case hv (w_redis w) ATTEMPTS_HASH m of
        None \<Rightarrow> Some 0
      | Some s \<Rightarrow> if s = [] then Some 0 else py_int_of_str s)"

definition quiet :: "'r hash_view \<Rightarrow> 'r stream_view \<Rightarrow> 'r world \<Rightarrow> 'r world \<Rightarrow> bool" where
  "quiet hv sv w w' =
     (hv (w_redis w') = hv (w_redis w) \<and> sv (w_redis w') = sv (w_redis w) \<and>
      w_sent w' = w_sent w \<and> w_failed w' = w_failed w)"

lemma quiet_refl: "reflp (quiet hv sv)"
  by (simp add: reflp_def quiet_def)

lemma quiet_trans: "transp (quiet hv sv)"
  by (auto simp: transp_def quiet_def)

text \<open>What handling one message leaves alone of another one.\<close>

definition untouched :: "'r worker_env \<Rightarrow> 'r hash_view \<Rightarrow> 'r stream_view \<Rightarrow> string \<Rightarrow> 'r world \<Rightarrow> 'r world \<Rightarrow> bool" where
  "untouched env hv sv m w w' =
     ((\<forall>h \<in> {ATTEMPTS_HASH, DUE_HASH}. hv (w_redis w') h m = hv (w_redis w) h m) \<and>
      (m \<in> stream_ids env sv w' \<longleftrightarrow> m \<in> stream_ids env sv w) \<and> sends m w' = sends m w)"

lemma untouched_refl: "reflp (untouched env hv sv m)"
  by (simp add: reflp_def untouched_def)

lemma untouched_trans: "transp (untouched env hv sv m)"
  by (auto simp: transp_def untouched_def)

lemma quiet_untouched: "quiet hv sv w w' \<Longrightarrow> untouched env hv sv m w w'"
  by (simp add: quiet_def untouched_def stream_ids_def sends_def)

lemma io_keeps_mono: "io_keeps P m \<Longrightarrow> (\<And>w w'. P w w' \<Longrightarrow> Q w w') \<Longrightarrow> io_keeps Q m"
  by (auto simp: io_keeps_def)

lemmas keeps_untouched = io_keeps_mono [OF _ quiet_untouched]

lemma dead_letter_effect:
  assumes "dead_letter env flds n err w = (res, w')"
  shows "w_redis w' = w_redis w" "w_sent w' = w_sent w"
    and "res = Inr () \<Longrightarrow> \<exists>row. dead_letter_row env flds n err = Inr row \<and> w_failed w' = w_failed w @ [row]"
    and "prefix (w_failed w) (w_failed w')"
  using assms
  by (auto simp: dead_letter_def py_io_def io_raise_def io_return_def elim!: io_bindE split: sum.splits if_splits)

lemma dead_letter_untouched: "io_keeps (untouched env hv sv m) (dead_letter env flds n err)"
  by (rule io_keepsI) (auto simp: untouched_def stream_ids_def sends_def dead_letter_effect)

abbreviation max_attempts :: "'r worker_env \<Rightarrow> int" where
  "max_attempts env \<equiv> queue_max_retries (we_cfg env) + 1"

text \<open>
  The retry budget of a message: a run sends it at most once, only below the limit, and unless it
  removes the message the stored count grows with every request sent.
\<close>

definition spends :: "'r worker_env \<Rightarrow> 'r hash_view \<Rightarrow> 'r stream_view \<Rightarrow> string \<Rightarrow> 'r world \<Rightarrow> 'r world \<Rightarrow> bool" where
  "spends env hv sv m w w' =
     (\<forall>k. stored_attempts hv m w = Some k \<and> 0 \<le> k \<longrightarrow>
        (sends m w' = sends m w \<or> sends m w' = sends m w + 1 \<and> k < max_attempts env) \<and>
        (m \<in> stream_ids env sv w' \<longrightarrow> m \<in> stream_ids env sv w \<and>
           (stored_attempts hv m w' = Some k \<and> sends m w' = sends m w \<or>
            stored_attempts hv m w' = Some (k + 1) \<and> k < max_attempts env)))"

lemma quiet_stored:
  "quiet hv sv w w' \<Longrightarrow> stored_attempts hv m w' = stored_attempts hv m w \<and>
     stream_ids env sv w' = stream_ids env sv w \<and> sends m w' = sends m w"
  by (simp add: quiet_def stored_attempts_def stream_ids_def sends_def)

lemma spends_cong:
  assumes "spends env hv sv m w1 w'" "stored_attempts hv m w1 = stored_attempts hv m w"
    "stream_ids env sv w1 = stream_ids env sv w" "sends m w1 = sends m w"
  shows "spends env hv sv m w w'"
  using assms(1) unfolding spends_def assms(2-4) .

lemma spends_quiet: "quiet hv sv w w' \<Longrightarrow> spends env hv sv m w w'"
  using quiet_stored [of hv sv w w' m env] by (simp add: spends_def)

lemma spends_after_quiet: "quiet hv sv w w1 \<Longrightarrow> spends env hv sv m w1 w' \<Longrightarrow> spends env hv sv m w w'"
  using spends_cong [of env hv sv m w1 w' w] quiet_stored [of hv sv w w1 m env] by simp

lemma untouched_spends: "untouched env hv sv m w w' \<Longrightarrow> spends env hv sv m w w'"
  by (auto simp: untouched_def spends_def stored_attempts_def)

text \<open>The stored count stands as long as the message does, and no request is sent.\<close>

definition count_stands :: "'r worker_env \<Rightarrow> 'r hash_view \<Rightarrow> 'r stream_view \<Rightarrow> string \<Rightarrow> 'r world \<Rightarrow> 'r world \<Rightarrow> bool" where
  "count_stands env hv sv m w w' =
     (m \<in> stream_ids env sv w' \<longrightarrow>
        m \<in> stream_ids env sv w \<and> stored_attempts hv m w' = stored_attempts hv m w)"

definition no_send :: "string \<Rightarrow> 'r world \<Rightarrow> 'r world \<Rightarrow> bool" where
  "no_send m w w' = (sends m w' = sends m w)"

lemma rel_props:
  "reflp (count_stands env hv sv m)" "transp (count_stands env hv sv m)" "reflp (no_send m)" "transp (no_send m)"
  by (auto simp: reflp_def transp_def count_stands_def no_send_def)

lemma spends_then:
  "spends env hv sv m w w1 \<Longrightarrow> count_stands env hv sv m w1 w' \<Longrightarrow> no_send m w1 w' \<Longrightarrow> spends env hv sv m w w'"
  by (simp add: spends_def count_stands_def no_send_def) (metis option.inject)

lemma quiet_stands: "quiet hv sv w w' \<Longrightarrow> count_stands env hv sv m w w' \<and> no_send m w w'"
  using quiet_stored [of hv sv w w' m env] by (simp add: count_stands_def no_send_def)

lemma replay_run:
  assumes "replay_request env m flds hs w = (res, w')"
  shows "w_redis w' = w_redis w" "w_failed w' = w_failed w" "sends m w' = sends m w \<or> sends m w' = sends m w + 1"
  using assms
  by (auto simp: replay_request_def Let_def sends_def split: option.splits sum.splits upstream_error.splits)

context redis_queue_laws
begin

lemma hget_quiet: "io_keeps (quiet hv sv) (redis_io (rq_hget qops h f))"
  by (rule io_keepsI) (auto elim!: redis_ioE dest!: hget_same simp: quiet_def hash_same_def stream_same_def)

lemma xack_quiet: "io_keeps (quiet hv sv) (redis_io (rq_xack qops s g i))"
  by (rule io_keepsI) (auto elim!: redis_ioE dest!: xack_same simp: quiet_def hash_same_def stream_same_def)

lemma attempts_quiet: "we_q env = qops \<Longrightarrow> io_keeps (quiet hv sv) (get_attempts env m)"
  unfolding get_attempts_def
  by (rule io_keeps_bind [OF quiet_trans])
     (auto simp: hget_quiet io_keeps_pure [OF quiet_refl] split: option.splits)

lemma attempts_value:
  assumes "we_q env = qops" "get_attempts env m w = (Inr n, w')"
  shows "stored_attempts hv m w = Some n"
  using assms(2) unfolding get_attempts_def assms(1)
  by (auto simp: stored_attempts_def io_return_def io_raise_def
      elim!: io_bindE redis_ioE dest!: hget_reply split: option.splits if_splits)

lemma hset_run:
  assumes "redis_io (rq_hset qops h f v) w = (res, w')"
  shows "sv (w_redis w') = sv (w_redis w)" "w_sent w' = w_sent w" "w_failed w' = w_failed w"
    and "hv (w_redis w') = (hv (w_redis w))(h := (hv (w_redis w) h)(f := Some v)) \<or>
         is_ok res = False \<and> hv (w_redis w') = hv (w_redis w)"
  using assms
  by (auto elim!: redis_ioE dest!: hset_effect simp: queue_effects split: sum.splits)

lemma hdels_kept:
  "io_keeps (\<lambda>w w'. w_sent w' = w_sent w \<and> w_failed w' = w_failed w \<and> sv (w_redis w') = sv (w_redis w) \<and>
     (\<forall>h f. f \<noteq> m \<longrightarrow> hv (w_redis w') h f = hv (w_redis w) h f))
     (io_bind (redis_io (rq_hdel qops ATTEMPTS_HASH m)) (\<lambda>_. redis_io (rq_hdel qops DUE_HASH m)))"
proof -
  have del: "io_keeps (\<lambda>w w'. w_sent w' = w_sent w \<and> w_failed w' = w_failed w \<and> sv (w_redis w') = sv (w_redis w) \<and>
      (\<forall>h f. f \<noteq> m \<longrightarrow> hv (w_redis w') h f = hv (w_redis w) h f)) (redis_io (rq_hdel qops k m))" for k
    by (rule io_keepsI) (auto elim!: redis_ioE dest!: hdel_effect simp: queue_effects)
  show ?thesis by (rule io_keeps_bind [OF _ del del]) (auto simp: transp_def)
qed

lemma ack_run:
  assumes "we_q env = qops" "ack env m w = (res, w')"
  shows "w_sent w' = w_sent w" "w_failed w' = w_failed w"
    and "quiet hv sv w w' \<or>
      sv (w_redis w') = (sv (w_redis w))(queue_stream_key (we_cfg env) :=
        filter (\<lambda>e. fst e \<noteq> m) (sv (w_redis w) (queue_stream_key (we_cfg env)))) \<and>
      (\<forall>h f. f \<noteq> m \<longrightarrow> hv (w_redis w') h f = hv (w_redis w) h f)"
proof -
  let ?q = "queue_stream_key (we_cfg env)" and ?g = "queue_consumer_group (we_cfg env)"
  from assms have run: "io_bind (redis_io (rq_xack qops ?q ?g m)) (\<lambda>_.
      io_bind (redis_io (rq_xdel qops ?q m)) (\<lambda>_.
      io_bind (redis_io (rq_hdel qops ATTEMPTS_HASH m)) (\<lambda>_. redis_io (rq_hdel qops DUE_HASH m)))) w = (res, w')"
    by (simp add: ack_def Let_def)
  note dels = hdels_kept [of m]
  have "w_sent w' = w_sent w \<and> w_failed w' = w_failed w \<and> (quiet hv sv w w' \<or>
      sv (w_redis w') = (sv (w_redis w))(?q := filter (\<lambda>e. fst e \<noteq> m) (sv (w_redis w) ?q)) \<and>
      (\<forall>h f. f \<noteq> m \<longrightarrow> hv (w_redis w') h f = hv (w_redis w) h f))"
    using run
  proof (rule io_bindE)
    fix e assume a: "redis_io (rq_xack qops ?q ?g m) w = (Inl e, w')"
    show ?thesis using io_keepsD [OF xack_quiet a] by (simp add: quiet_def)
  next
    fix x w1
    assume a: "redis_io (rq_xack qops ?q ?g m) w = (Inr x, w1)"
      and rest: "io_bind (redis_io (rq_xdel qops ?q m)) (\<lambda>_.
        io_bind (redis_io (rq_hdel qops ATTEMPTS_HASH m)) (\<lambda>_. redis_io (rq_hdel qops DUE_HASH m))) w1 = (res, w')"
    have q: "quiet hv sv w w1" by (rule io_keepsD [OF xack_quiet a])
    from rest show ?thesis
    proof (rule io_bindE)
      fix e assume "redis_io (rq_xdel qops ?q m) w1 = (Inl e, w')"
      then show ?thesis using q
        by (auto elim!: redis_ioE dest!: xdel_effect simp: queue_effects quiet_def)
    next
      fix x w2 assume x: "redis_io (rq_xdel qops ?q m) w1 = (Inr x, w2)"
        and d: "io_bind (redis_io (rq_hdel qops ATTEMPTS_HASH m)) (\<lambda>_. redis_io (rq_hdel qops DUE_HASH m)) w2 = (res, w')"
      from x q have "sv (w_redis w2) = (sv (w_redis w))(?q := filter (\<lambda>e. fst e \<noteq> m) (sv (w_redis w) ?q))"
        "hv (w_redis w2) = hv (w_redis w)" "w_sent w2 = w_sent w" "w_failed w2 = w_failed w"
        by (auto elim!: redis_ioE dest!: xdel_effect simp: queue_effects quiet_def)
      then show ?thesis using io_keepsD [OF dels d] by simp
    qed
  qed
  then show "w_sent w' = w_sent w" "w_failed w' = w_failed w" "quiet hv sv w w' \<or>
      sv (w_redis w') = (sv (w_redis w))(?q := filter (\<lambda>e. fst e \<noteq> m) (sv (w_redis w) ?q)) \<and>
      (\<forall>h f. f \<noteq> m \<longrightarrow> hv (w_redis w') h f = hv (w_redis w) h f)" by blast+
qed

lemma ack_ids:
  assumes "we_q env = qops" "ack env m w = (res, w')"
  shows "quiet hv sv w w' \<or> m \<notin> stream_ids env sv w'" "m' \<noteq> m \<Longrightarrow> untouched env hv sv m' w w'"
  using ack_run [OF assms]
  by (auto simp: stream_ids_def untouched_def quiet_def sends_def)

lemma hset_untouched:
  "f \<noteq> m' \<Longrightarrow> io_keeps (untouched env hv sv m') (redis_io (rq_hset qops h f v))"
proof (rule io_keepsI)
  fix w res w' assume "f \<noteq> m'" and h: "redis_io (rq_hset qops h f v) w = (res, w')"
  then show "untouched env hv sv m' w w'"
    using hset_run [OF h] by (auto simp: untouched_def stream_ids_def sends_def)
qed

lemma replay_untouched: "f \<noteq> m' \<Longrightarrow> io_keeps (untouched env hv sv m') (replay_request env f flds hs)"
  by (rule io_keepsI)
     (auto simp: replay_request_def Let_def untouched_def stream_ids_def sends_def
       split: option.splits sum.splits upstream_error.splits)

lemma deliver_untouched:
  assumes "we_q env = qops" "m \<noteq> m'"
  shows "io_keeps (untouched env hv sv m') (deliver env ck m flds)"
proof -
  note tr = untouched_trans [of env hv sv m'] and re = untouched_refl [of env hv sv m']
  note keep = io_keeps_pure [OF re] dead_letter_untouched [of env hv sv m']
    keeps_untouched [OF hget_quiet] keeps_untouched [OF attempts_quiet [OF assms(1)]]
    hset_untouched [OF assms(2)] replay_untouched [OF assms(2)]
  have ack: "io_keeps (untouched env hv sv m') (ack env m)"
    using ack_ids(2) [OF assms(1)] assms(2) by (auto intro!: io_keepsI)
  have "io_keeps (untouched env hv sv m') (try_send env ck m flds hs n)" for hs n
    unfolding try_send_def sent_tail_def assms(1)
    by (intro io_keeps_bind [OF tr] keep) (auto intro!: io_keeps_bind [OF tr] keep ack split: prod.splits)
  then show ?thesis
    unfolding deliver_def assms(1)
    by (intro io_keeps_bind [OF tr] keep)
       (auto intro!: io_keeps_bind [OF tr] keep ack split: json.splits)
qed

lemma ack_spends:
  assumes "we_q env = qops" "ack env m w = (res, w')"
  shows "spends env hv sv m w w'"
  using ack_ids(1) [OF assms]
proof
  assume "m \<notin> stream_ids env sv w'"
  then show ?thesis using ack_run(1) [OF assms] by (simp add: spends_def sends_def)
qed (rule spends_quiet)

lemma bury_spends:
  assumes "we_q env = qops" "io_bind (dead_letter env flds n err) (\<lambda>_. ack env m) w = (res, w')"
  shows "spends env hv sv m w w'"
  using assms(2)
proof (rule io_bindE)
  fix e assume "dead_letter env flds n err w = (Inl e, w')"
  then show ?thesis using dead_letter_untouched [of env hv sv m flds n err]
    by (auto dest: io_keepsD intro: untouched_spends)
next
  fix x w1 assume d: "dead_letter env flds n err w = (Inr x, w1)" and a: "ack env m w1 = (res, w')"
  have "spends env hv sv m w1 w'" using ack_spends assms(1) a by blast
  moreover have "stored_attempts hv m w1 = stored_attempts hv m w" "sends m w1 = sends m w"
    "stream_ids env sv w1 = stream_ids env sv w"
    using dead_letter_effect [OF d] by (simp_all add: stored_attempts_def sends_def stream_ids_def)
  ultimately show ?thesis by (blast intro: spends_cong)
qed

lemma ack_stands:
  assumes "we_q env = qops"
  shows "io_keeps (count_stands env hv sv m) (ack env m)" "io_keeps (no_send m) (ack env m)"
proof -
  show "io_keeps (count_stands env hv sv m) (ack env m)"
  proof (rule io_keepsI)
    fix w res w' assume "ack env m w = (res, w')"
    from ack_ids(1) [OF assms this] show "count_stands env hv sv m w w'"
      using quiet_stored [of hv sv w w' m env] by (auto simp: count_stands_def)
  qed
  show "io_keeps (no_send m) (ack env m)"
    using ack_run(1) [OF assms] by (auto simp: io_keeps_def no_send_def sends_def)
qed

lemma dead_letter_stands:
  "io_keeps (count_stands env hv sv m) (dead_letter env flds n err)" "io_keeps (no_send m) (dead_letter env flds n err)"
  using dead_letter_effect [of env flds n err]
  by (auto simp: io_keeps_def count_stands_def no_send_def sends_def stored_attempts_def stream_ids_def)

lemma due_stands:
  "io_keeps (count_stands env hv sv m) (redis_io (rq_hset qops DUE_HASH m v))"
  "io_keeps (no_send m) (redis_io (rq_hset qops DUE_HASH m v))"
proof -
  have ne: "ATTEMPTS_HASH \<noteq> DUE_HASH" by (simp add: ATTEMPTS_HASH_def DUE_HASH_def)
  show "io_keeps (count_stands env hv sv m) (redis_io (rq_hset qops DUE_HASH m v))"
  proof (rule io_keepsI)
    fix w res w' assume "redis_io (rq_hset qops DUE_HASH m v) w = (res, w')"
    from hset_run [OF this] ne show "count_stands env hv sv m w w'"
      by (auto simp: count_stands_def stored_attempts_def stream_ids_def)
  qed
  show "io_keeps (no_send m) (redis_io (rq_hset qops DUE_HASH m v))"
    using hset_run(2) by (auto simp: io_keeps_def no_send_def sends_def)
qed

lemma tail_run:
  assumes env: "we_q env = qops" and run: "sent_tail env ck m flds hs n w = (res, w')"
  shows "count_stands env hv sv m w w' \<and> (sends m w' = sends m w \<or> sends m w' = sends m w + 1)"
proof -
  let ?after = "\<lambda>(success, retryable, error).
       if success then ack env m
       else if n \<ge> max_attempts env \<or> \<not> retryable
       then io_bind (dead_letter env flds n error) (\<lambda>_. ack env m) else io_return ()"
  have after: "io_keeps (count_stands env hv sv m) (?after x)" "io_keeps (no_send m) (?after x)" for x
    by (auto split: prod.splits intro!: io_keeps_bind rel_props ack_stands [OF env] dead_letter_stands io_keeps_pure)
  have rep: "io_keeps (count_stands env hv sv m) (replay_request env m flds hs)"
    by (rule io_keepsI) (drule replay_run(1), simp add: count_stands_def stored_attempts_def stream_ids_def)
  have keeps: "io_keeps (count_stands env hv sv m) (sent_tail env ck m flds hs n)"
    unfolding sent_tail_def env
    by (intro io_keeps_bind rel_props due_stands rep after)
  have "sends m w' = sends m w \<or> sends m w' = sends m w + 1"
    using run unfolding sent_tail_def env
    by (elim io_bindE)
       (auto dest!: replay_run(3) io_keepsD [OF due_stands(2)] io_keepsD [OF after(2) [of "(a, b, c)" for a b c, unfolded prod.case]]
         simp: no_send_def)
  then show ?thesis using io_keepsD [OF keeps run] by simp
qed

lemma try_send_spends:
  assumes env: "we_q env = qops" "max_attempts env < int py_int_limit"
    and n: "stored_attempts hv m w = Some (n - 1)" "1 \<le> n" "n \<le> max_attempts env"
    and run: "try_send env ck m flds hs n w = (res, w')"
  shows "spends env hv sv m w w'"
proof -
  have dec: "py_int_of_str (str_of_int n) = Some n" "str_of_int n \<noteq> []"
  proof -
    have "nat n < py_int_limit" using env(2) n(2,3) by linarith
    then show "py_int_of_str (str_of_int n) = Some n"
      using py_int_of_str_nat [of "nat n"] n(2) by (simp add: str_of_int_def)
    show "str_of_int n \<noteq> []" using str_of_nat_digits n(2) by (simp add: str_of_int_def)
  qed
  obtain r1 w1 where h1: "redis_io (rq_hset qops ATTEMPTS_HASH m (str_of_int n)) w = (r1, w1)" by fastforce
  note a1 = hset_run [OF h1]
  have s1: "stored_attempts hv m w1 = Some n \<or> (\<forall>x. r1 \<noteq> Inr x) \<and> stored_attempts hv m w1 = Some (n - 1)"
    using a1(4) n(1) dec by (auto simp: stored_attempts_def)
  have same1: "stream_ids env sv w1 = stream_ids env sv w" "sends m w1 = sends m w"
    using a1 by (simp_all add: stream_ids_def sends_def)
  show ?thesis
    using run unfolding try_send_def env(1)
  proof (rule io_bindE)
    fix e assume "redis_io (rq_hset qops ATTEMPTS_HASH m (str_of_int n)) w = (Inl e, w')"
    then have "w' = w1" using h1 by simp
    then show ?thesis using s1 same1 n by (auto simp: spends_def)
  next
    fix x w1'
    assume a: "redis_io (rq_hset qops ATTEMPTS_HASH m (str_of_int n)) w = (Inr x, w1')"
      and rest: "sent_tail env ck m flds hs n w1' = (res, w')"
    then have w1: "w1' = w1" "stored_attempts hv m w1 = Some n" using h1 s1 by auto
    show ?thesis
      using tail_run [OF env(1) rest] same1 n w1 by (auto simp: spends_def count_stands_def)
  qed
qed

lemma deliver_when_due:
  assumes env: "we_q env = qops"
    and due: "redis_io (rq_hget qops DUE_HASH m) w = (Inr due, w1)" "not_due (ck_due ck) due = Inr False"
    and n: "get_attempts env m w1 = (Inr n, w2)"
  shows "deliver env ck m flds w =
     (case we_loads env (dict_get flds ''headers'' ''{}'') of
        Inl e \<Rightarrow> (Inl (PyExn e), w2)
      | Inr (JObj hs) \<Rightarrow>
          (case destination_service (we_bracket_ok env) (we_cfg env) (dict_get flds ''url'' []) of
             Inl e \<Rightarrow> (Inl (PyExn e), w2)
           | Inr service \<Rightarrow>
               (case py_float_of_str (dict_get flds ''timestamp'' ''0'') of
                  None \<Rightarrow> (Inl (PyExn ValueError), w2)
                | Some timestamp \<Rightarrow>
                   (if \<not> attempt_eligible env (ck_expiry ck) flds hs service timestamp \<or> n + 1 > max_attempts env
                    then io_bind (dead_letter env flds n (Some ''replay ineligible or expired'')) (\<lambda>_. ack env m) w2
                    else try_send env ck m flds hs (n + 1) w2)))
      | Inr _ \<Rightarrow> (Inl (PyExn ValueError), w2))"
  using due n
  by (simp add: deliver_def env io_bind_def py_io_def io_return_def io_raise_def split: sum.splits json.splits option.splits)

lemma deliver_cases [consumes 2, case_names quiet bury send]:
  assumes env: "we_q env = qops" and run: "deliver env ck m flds w = (res, w')"
  obtains "quiet hv sv w w'" "is_ok res \<longrightarrow> not_due (ck_due ck) (hv (w_redis w) DUE_HASH m) \<noteq> Inr False"
  | n w1 where "quiet hv sv w w1" "stored_attempts hv m w1 = Some n"
      "not_due (ck_due ck) (hv (w_redis w) DUE_HASH m) = Inr False"
      "io_bind (dead_letter env flds n (Some ''replay ineligible or expired'')) (\<lambda>_. ack env m) w1 = (res, w')"
  | n w1 hs service timestamp where "quiet hv sv w w1" "stored_attempts hv m w1 = Some n" "n + 1 \<le> max_attempts env"
      "not_due (ck_due ck) (hv (w_redis w) DUE_HASH m) = Inr False"
      "we_loads env (dict_get flds ''headers'' ''{}'') = Inr (JObj hs)"
      "attempt_eligible env (ck_expiry ck) flds hs service timestamp"
      "try_send env ck m flds hs (n + 1) w1 = (res, w')"
proof -
  note io = io_bind_def py_io_def io_return_def io_raise_def
  obtain d w1 where h: "redis_io (rq_hget qops DUE_HASH m) w = (d, w1)" by fastforce
  have q1: "quiet hv sv w w1" by (rule io_keepsD [OF hget_quiet h])
  obtain a w2 where g: "get_attempts env m w1 = (a, w2)" by fastforce
  have q2: "quiet hv sv w w2"
    using q1 io_keepsD [OF attempts_quiet [OF env] g] by (auto dest: transpD [OF quiet_trans])
  show thesis
  proof (cases "d")
    case (Inl e)
    then show thesis using run h q1 that(1) by (auto simp: deliver_def env io)
  next
    case (Inr due)
    then have due: "due = hv (w_redis w) DUE_HASH m"
      using h by (auto elim!: redis_ioE dest!: hget_reply)
    show thesis
    proof (cases "not_due (ck_due ck) due = Inr False \<and> is_ok a")
      case False
      then show thesis using run h g Inr q1 q2 that(1)
        by (cases "not_due (ck_due ck) due"; cases a)
           (auto simp: deliver_def env io due split: if_splits)
    next
      case True
      then obtain n where a: "a = Inr n" by (auto simp: is_ok_iff)
      have st: "stored_attempts hv m w2 = Some n"
        using attempts_value [OF env] g a quiet_stored [OF io_keepsD [OF attempts_quiet [OF env] g]] by simp
      note eq = deliver_when_due [OF env h [unfolded Inr] True [THEN conjunct1] g [unfolded a], of flds]
      show thesis
        using run q2 unfolding eq
        by (auto split: sum.splits json.splits option.splits if_splits
            intro: that(1) that(2) [OF q2 st True [THEN conjunct1, unfolded due]]
              that(3) [OF q2 st _ True [THEN conjunct1, unfolded due]])
    qed
  qed
qed

lemma deliver_spends:
  assumes env: "we_q env = qops" "max_attempts env < int py_int_limit"
    and run: "deliver env ck m flds w = (res, w')"
  shows "spends env hv sv m w w'"
  using env(1) run
proof (cases rule: deliver_cases)
  case quiet
  show ?thesis by (rule spends_quiet [OF quiet(1)])
next
  case (bury n w1)
  then show ?thesis using bury_spends [OF env(1)] spends_after_quiet by blast
next
  case (send n w1 hs service timestamp)
  have "spends env hv sv m w1 w'"
  proof (cases "0 \<le> n")
    case True
    show ?thesis by (rule try_send_spends [OF env _ _ _ send(7)]) (use send True in auto)
  qed (use send in \<open>simp add: spends_def\<close>)
  then show ?thesis using spends_after_quiet send(1) by blast
qed

lemma acquire_quiet:
  assumes "we_kv env = ops" "acquire_lock (we_kv env) t token name ttl (w_redis w) = (res, r')"
  shows "quiet hv sv w (w\<lparr>w_redis := r'\<rparr>)"
  using assms(2) unfolding assms(1)
  by (auto simp: acquire_lock_def quiet_def hash_same_def stream_same_def dest!: setnx_quiet
      split: prod.splits sum.splits)

lemma release_quiet:
  "we_kv env = ops \<Longrightarrow> quiet hv sv w (w\<lparr>w_redis := release_lock (we_kv env) t name token (w_redis w)\<rparr>)"
proof -
  assume o: "we_kv env = ops"
  obtain g r1 where g: "rk_get ops t (lock_key name) (w_redis w) = (g, r1)" by fastforce
  obtain d r2 where d: "rk_del ops t (lock_key name) r1 = (d, r2)" by fastforce
  have "hash_same hv r1 r2 \<and> stream_same sv r1 r2" if "g = Inr (Some token)" using del_quiet [OF _ d] g that by simp
  then show ?thesis using get_quiet [OF g] g d o
    by (auto simp: release_lock_def quiet_def hash_same_def stream_same_def split: sum.splits if_splits)
qed

lemma bury_stands:
  assumes "we_q env = qops"
  shows "io_keeps (count_stands env hv sv m) (bury_malformed env m flds)" "io_keeps (no_send m) (bury_malformed env m flds)"
proof -
  have g: "io_keeps (count_stands env hv sv m) (get_attempts env m)" "io_keeps (no_send m) (get_attempts env m)"
    using io_keeps_mono [OF attempts_quiet [OF assms]] quiet_stands by blast+
  show "io_keeps (count_stands env hv sv m) (bury_malformed env m flds)" "io_keeps (no_send m) (bury_malformed env m flds)"
    unfolding bury_malformed_def
    by (intro io_keeps_bind rel_props g dead_letter_stands ack_stands [OF assms])+
qed

lemma handleE:
  assumes env: "we_kv env = ops" and run: "handle env ck m flds w = (res, w')"
  obtains "quiet hv sv w w'" "res = Inr ()"
  | w1 w2 where "quiet hv sv w w1" "deliver_or_bury env ck m flds w1 = (res, w2)" "quiet hv sv w2 w'"
proof -
  obtain l r1 where l: "acquire_lock (we_kv env) (ck_lock ck) (ck_token ck) (''replay:'' @ m)
      (queue_claim_idle_seconds (we_cfg env)) (w_redis w) = (l, r1)" by fastforce
  obtain d w2 where d: "deliver_or_bury env ck m flds (w\<lparr>w_redis := r1\<rparr>) = (d, w2)" by fastforce
  show thesis
    using run l d that acquire_quiet [OF env l] release_quiet [OF env, of w2]
    by (auto simp: handle_def split: option.splits)
qed

lemma deliver_or_buryE:
  assumes "deliver_or_bury env ck m flds w = (res, w')"
  obtains res1 where "deliver env ck m flds w = (res1, w')"
  | res1 w1 where "deliver env ck m flds w = (res1, w1)" "bury_malformed env m flds w1 = (res, w')"
  using assms by (auto simp: deliver_or_bury_def split: prod.splits sum.splits if_splits)

lemma handle_spends:
  assumes env: "we_kv env = ops" "we_q env = qops" "max_attempts env < int py_int_limit"
    and run: "handle env ck m flds w = (res, w')"
  shows "spends env hv sv m w w'"
  using env(1) run
proof (cases rule: handleE)
  case 1
  then show ?thesis by (blast intro: spends_quiet)
next
  case (2 w1 w2)
  have "spends env hv sv m w1 w2"
    using 2(2)
  proof (cases rule: deliver_or_buryE)
    case (1 res1)
    then show ?thesis by (rule deliver_spends [OF env(2,3)])
  next
    case (2 res1 w3)
    then show ?thesis
      using deliver_spends [OF env(2,3) 2(1)] spends_then io_keepsD [OF bury_stands(1) [OF env(2)] 2(2)]
        io_keepsD [OF bury_stands(2) [OF env(2)] 2(2)] by blast
  qed
  then have "spends env hv sv m w w2" by (rule spends_after_quiet [OF 2(1)])
  then show ?thesis using spends_then quiet_stands [OF 2(3)] by blast
qed

lemma handle_untouched:
  assumes env: "we_kv env = ops" "we_q env = qops" and run: "handle env ck m flds w = (res, w')" and ne: "m \<noteq> m'"
  shows "untouched env hv sv m' w w'"
proof -
  note tr = transpD [OF untouched_trans [of env hv sv m']]
  have bury: "io_keeps (untouched env hv sv m') (bury_malformed env m flds)"
    unfolding bury_malformed_def using ack_ids(2) [OF env(2) _ ne [symmetric]]
    by (intro io_keeps_bind untouched_trans dead_letter_untouched keeps_untouched [OF attempts_quiet [OF env(2)]])
       (auto intro: io_keepsI)
  show ?thesis
    using env(1) run
  proof (cases rule: handleE)
    case 1
    then show ?thesis by (blast intro: quiet_untouched)
  next
    case (2 w1 w2)
    have "untouched env hv sv m' w1 w2"
      using 2(2) io_keepsD [OF deliver_untouched [OF env(2) ne]] io_keepsD [OF bury] tr
      by (cases rule: deliver_or_buryE) blast+
    then show ?thesis using 2(1,3) tr quiet_untouched by blast
  qed
qed

end

section \<open>Where a write goes\<close>

text \<open>
  Where a write can go when it leaves the queue: into the dead-letter table, with the contents of
  the entry, or to an upstream that answered with success.
\<close>

definition recorded :: "'r worker_env \<Rightarrow> (string, string) dict \<Rightarrow> 'r world \<Rightarrow> 'r world \<Rightarrow> bool" where
  "recorded env flds w w' =
     (\<exists>rows row n err. w_failed w' = w_failed w @ rows \<and> row \<in> set rows \<and>
        dead_letter_row env flds n err = Inr row)"

definition accepted :: "string \<Rightarrow> 'r world \<Rightarrow> 'r world \<Rightarrow> bool" where
  "accepted m w w' =
     (\<exists>ss s resp. w_sent w' = w_sent w @ ss \<and> s \<in> set ss \<and> sn_id s = m \<and> sn_answer s = Inr resp \<and>
        200 \<le> ur_status resp \<and> ur_status resp < 300)"

definition truthful :: "'r worker_env \<Rightarrow> 'r world \<Rightarrow> 'r world \<Rightarrow> bool" where
  \<comment> \<open>the answers that were noted are those of the upstream\<close>
  "truthful env w w' =
     (\<exists>ss. w_sent w' = w_sent w @ ss \<and>
        list_all (\<lambda>s. sn_answer s = bounded_request (we_cfg env) (we_http env) (sn_method s) (sn_url s) (sn_headers s) (sn_body s)) ss)"

definition accounted :: "'r worker_env \<Rightarrow> 'r stream_view \<Rightarrow> string \<Rightarrow> (string, string) dict \<Rightarrow> 'r world \<Rightarrow> 'r world \<Rightarrow> bool" where
  "accounted env sv m flds w w' =
     (prefix (w_sent w) (w_sent w') \<and> prefix (w_failed w) (w_failed w') \<and>
      (m \<in> stream_ids env sv w \<longrightarrow> m \<notin> stream_ids env sv w' \<longrightarrow> recorded env flds w w' \<or> accepted m w w'))"

lemma accounted_refl: "reflp (accounted env sv m flds)"
  by (simp add: reflp_def accounted_def)

lemma recorded_mono:
  "recorded env flds w1 w2 \<Longrightarrow> prefix (w_failed w) (w_failed w1) \<Longrightarrow> prefix (w_failed w2) (w_failed w') \<Longrightarrow> recorded env flds w w'"
  by (fastforce simp: recorded_def prefix_def)

lemma accepted_mono:
  "accepted m w1 w2 \<Longrightarrow> prefix (w_sent w) (w_sent w1) \<Longrightarrow> prefix (w_sent w2) (w_sent w') \<Longrightarrow> accepted m w w'"
  by (fastforce simp: accepted_def prefix_def)

lemma accounted_trans: "transp (accounted env sv m flds)"
proof (rule transpI)
  fix w w1 w' assume a: "accounted env sv m flds w w1" "accounted env sv m flds w1 w'"
  have "recorded env flds w w' \<or> accepted m w w'" if "m \<in> stream_ids env sv w" "m \<notin> stream_ids env sv w'"
  proof (cases "m \<in> stream_ids env sv w1")
    case True
    with a that have "recorded env flds w1 w' \<or> accepted m w1 w'" by (simp add: accounted_def)
    with a show ?thesis using recorded_mono [of env flds w1 w' w w'] accepted_mono [of m w1 w' w w']
      by (auto simp: accounted_def)
  next
    case False
    with a that have "recorded env flds w w1 \<or> accepted m w w1" by (simp add: accounted_def)
    with a show ?thesis using recorded_mono [of env flds w w1 w w'] accepted_mono [of m w w1 w w']
      by (auto simp: accounted_def)
  qed
  with a show "accounted env sv m flds w w'" by (auto simp: accounted_def)
qed

lemma quiet_accounted: "quiet hv sv w w' \<Longrightarrow> accounted env sv m flds w w'"
  by (simp add: quiet_def accounted_def stream_ids_def)

lemma replay_result:
  assumes "replay_request env m flds hs w = (Inr (success, retryable, err), w')"
  shows "\<exists>s. w_sent w' = w_sent w @ [s] \<and> sn_id s = m \<and>
    (success \<longrightarrow> (\<exists>resp. sn_answer s = Inr resp \<and> 200 \<le> ur_status resp \<and> ur_status resp < 300))"
  using assms by (auto simp: replay_request_def Let_def split: option.splits sum.splits upstream_error.splits)

lemma replay_grows:
  assumes "replay_request env m flds hs w = (res, w')"
  shows "prefix (w_sent w) (w_sent w')"
  using assms by (auto simp: replay_request_def Let_def split: option.splits sum.splits upstream_error.splits)

context redis_queue_laws
begin

lemma hset_accounted: "io_keeps (accounted env sv m flds) (redis_io (rq_hset qops h f v))"
proof (rule io_keepsI)
  fix w res w' assume h: "redis_io (rq_hset qops h f v) w = (res, w')"
  show "accounted env sv m flds w w'" using hset_run [OF h] by (simp add: accounted_def stream_ids_def)
qed

lemma ack_removed:
  assumes "we_q env = qops" "ack env m w = (Inr x, w')"
  shows "m \<notin> stream_ids env sv w'"
proof -
  have "stream_same sv r r'" if "rq_hdel qops h f r = (q, r')" for h f r q r' using hdel_effect [OF that] by blast
  then show ?thesis
    using assms(2) unfolding ack_def Let_def assms(1)
    by (auto elim!: io_bindE redis_ioE dest!: xdel_effect simp: stream_ids_def queue_effects) 
qed

lemma bury_accounted:
  assumes "we_q env = qops"
  shows "io_keeps (accounted env sv m flds) (io_bind (dead_letter env flds n err) (\<lambda>_. ack env m))"
proof (rule io_keepsI)
  fix w res w' assume "io_bind (dead_letter env flds n err) (\<lambda>_. ack env m) w = (res, w')"
  then show "accounted env sv m flds w w'"
  proof (rule io_bindE)
    fix e assume d: "dead_letter env flds n err w = (Inl e, w')"
    show ?thesis using dead_letter_effect [OF d] by (simp add: accounted_def stream_ids_def)
  next
    fix x w1 assume d: "dead_letter env flds n err w = (Inr x, w1)" and a: "ack env m w1 = (res, w')"
    obtain row where row: "dead_letter_row env flds n err = Inr row" "w_failed w1 = w_failed w @ [row]"
      using dead_letter_effect(3) [OF d] by auto
    have "recorded env flds w w'"
      unfolding recorded_def using row ack_run(2) [OF assms a] by auto
    then show ?thesis
      using dead_letter_effect(2) [OF d] ack_run(1,2) [OF assms a] row by (simp add: accounted_def)
  qed
qed

lemma sent_tail_accounted:
  assumes "we_q env = qops"
  shows "io_keeps (accounted env sv m flds) (sent_tail env ck m flds hs n)"
proof -
  let ?after = "\<lambda>(success, retryable, error).
       if success then ack env m
       else if n \<ge> max_attempts env \<or> \<not> retryable
       then io_bind (dead_letter env flds n error) (\<lambda>_. ack env m) else io_return ()"
  have "io_keeps (accounted env sv m flds) (io_bind (replay_request env m flds hs) ?after)"
  proof (rule io_keepsI)
    fix w res w' assume "io_bind (replay_request env m flds hs) ?after w = (res, w')"
    then show "accounted env sv m flds w w'"
    proof (rule io_bindE)
      fix e assume r: "replay_request env m flds hs w = (Inl e, w')"
      show ?thesis using replay_run(1,2) [OF r] replay_grows [OF r] by (simp add: accounted_def stream_ids_def)
    next
      fix x w1 assume r: "replay_request env m flds hs w = (Inr x, w1)" and a: "?after x w1 = (res, w')"
      obtain success retryable err where x: "x = (success, retryable, err)" by (cases x)
      obtain s where s: "w_sent w1 = w_sent w @ [s]" "sn_id s = m"
        "success \<Longrightarrow> \<exists>resp. sn_answer s = Inr resp \<and> 200 \<le> ur_status resp \<and> ur_status resp < 300"
        using replay_result [OF r [unfolded x]] by auto
      have one: "accounted env sv m flds w w1"
        using replay_run(1,2) [OF r] s by (simp add: accounted_def stream_ids_def)
      show ?thesis
      proof (cases success)
        case True
        then have k: "ack env m w1 = (res, w')" using a x by simp
        have "accepted m w w'" unfolding accepted_def using s True ack_run(1) [OF assms k] by auto
        then show ?thesis using one ack_run(1,2) [OF assms k] by (simp add: accounted_def)
      next
        case False
        then have "accounted env sv m flds w1 w'"
          using a x io_keepsD [OF bury_accounted [OF assms]] accounted_refl [of env sv m flds]
          by (auto simp: io_return_def reflp_def split: if_splits)
        with one show ?thesis by (rule transpD [OF accounted_trans])
      qed
    qed
  qed
  then show ?thesis unfolding sent_tail_def assms by (rule io_keeps_bind [OF accounted_trans hset_accounted])
qed

lemma handle_accounted:
  assumes env: "we_kv env = ops" "we_q env = qops" and run: "handle env ck m flds w = (res, w')"
  shows "accounted env sv m flds w w'"
proof -
  note tr = transpD [OF accounted_trans [of env sv m flds]] and qa = quiet_accounted [of hv sv _ _ env m flds]
  have attempt: "io_keeps (accounted env sv m flds) (try_send env ck m flds hs n)" for hs n
    unfolding try_send_def env(2) by (intro io_keeps_bind accounted_trans hset_accounted sent_tail_accounted [OF env(2)])
  have dl: "accounted env sv m flds w1 w2" if "deliver env ck m flds w1 = (r, w2)" for r w1 w2
    using env(2) that
  proof (cases rule: deliver_cases)
    case quiet
    show ?thesis by (rule quiet_accounted [OF quiet(1)])
  next
    case (bury n w3)
    then show ?thesis using tr qa io_keepsD [OF bury_accounted [OF env(2)]] by blast
  next
    case (send n w3 hs service timestamp)
    then show ?thesis using tr qa io_keepsD [OF attempt] by blast
  qed
  have bm: "io_keeps (accounted env sv m flds) (bury_malformed env m flds)"
    unfolding bury_malformed_def
    by (intro io_keeps_bind accounted_trans bury_accounted [OF env(2)] io_keeps_mono [OF attempts_quiet [OF env(2)] qa])
  show ?thesis
    using env(1) run
  proof (cases rule: handleE)
    case 1
    then show ?thesis by (simp add: qa)
  next
    case (2 w1 w2)
    have "accounted env sv m flds w1 w2"
      using 2(2) dl io_keepsD [OF bm] tr by (cases rule: deliver_or_buryE) blast+
    then show ?thesis using 2(1,3) tr qa by blast
  qed
qed

lemma try_send_due:
  assumes env: "we_q env = qops" and run: "try_send env ck m flds hs n w = (Inr x, w')" and stay: "m \<in> stream_ids env sv w'"
  shows "hv (w_redis w') DUE_HASH m =
     Some (we_float_repr env (f_add (ck_backoff ck) (b64 (of_int (backoff_seconds (we_cfg env) n)))))"
proof -
  let ?v = "we_float_repr env (f_add (ck_backoff ck) (b64 (of_int (backoff_seconds (we_cfg env) n))))"
  have stop: "ack env m w1 \<noteq> (Inr x, w')" for w1 using ack_removed [OF env] stay by blast
  from run obtain w1 y w2 z where h: "redis_io (rq_hset qops DUE_HASH m ?v) w1 = (Inr y, w2)"
    and r: "replay_request env m flds hs w2 = (Inr z, w')"
    unfolding try_send_def sent_tail_def env using stop
    by (auto elim!: io_bindE simp: io_return_def split: if_splits)
  show ?thesis using hset_run(4) [OF h] replay_run(1) [OF r] by simp
qed

lemma try_send_exact:
  assumes env: "we_q env = qops" and run: "try_send env ck m flds hs n w = (res, w')"
    and hs: "string_headers hs = Some shs"
  shows "w_sent w' = w_sent w \<or>
     w_sent w' = w_sent w @ [\<lparr>sn_id = m, sn_method = dict_get flds ''method'' [], sn_url = dict_get flds ''url'' [],
        sn_headers = shs, sn_body = latin1_encode (dict_get flds ''body'' []),
        sn_answer = bounded_request (we_cfg env) (we_http env) (dict_get flds ''method'' []) (dict_get flds ''url'' []) shs
          (latin1_encode (dict_get flds ''body'' []))\<rparr>]"
proof -
  let ?s = "\<lparr>sn_id = m, sn_method = dict_get flds ''method'' [], sn_url = dict_get flds ''url'' [],
        sn_headers = shs, sn_body = latin1_encode (dict_get flds ''body'' []),
        sn_answer = bounded_request (we_cfg env) (we_http env) (dict_get flds ''method'' []) (dict_get flds ''url'' []) shs
          (latin1_encode (dict_get flds ''body'' []))\<rparr>"
  have rep: "w_sent w2 = w_sent w1 \<or> w_sent w2 = w_sent w1 @ [?s]" if "replay_request env m flds hs w1 = (q, w2)" for w1 q w2
    using that hs by (auto simp: replay_request_def Let_def split: sum.splits upstream_error.splits)
  have same: "w_sent w2 = w_sent w1" if "redis_io (rq_hset qops h f v) w1 = (q, w2)" for h f v w1 q w2
    using hset_run(2) [OF that] .
  have done': "w_sent w2 = w_sent w1" if "ack env m w1 = (q, w2)" for w1 q w2 using ack_run(1) [OF env that] .
  have dl: "w_sent w2 = w_sent w1" if "dead_letter env flds k err w1 = (q, w2)" for k err w1 q w2
    using dead_letter_effect(2) [OF that] .
  show ?thesis
    using run unfolding try_send_def sent_tail_def env
    by (auto elim!: io_bindE simp: io_return_def split: if_splits dest!: rep same done' dl)
qed

lemma deliver_sets_due:
  assumes env: "we_q env = qops" and run: "deliver env ck m flds w = (Inr (), w')"
    and "stored_attempts hv m w = Some k" "sends m w' = sends m w + 1" "m \<in> stream_ids env sv w'"
  shows "hv (w_redis w') DUE_HASH m =
     Some (we_float_repr env (f_add (ck_backoff ck) (b64 (of_int (backoff_seconds (we_cfg env) (k + 1))))))"
  using env run
proof (cases rule: deliver_cases)
  case quiet
  then show ?thesis using assms(4) by (simp add: quiet_def sends_def)
next
  case (bury n w1)
  then have "m \<notin> stream_ids env sv w'" by (auto elim!: io_bindE dest: ack_removed [OF env])
  then show ?thesis using assms(5) by blast
next
  case (send n w1 hs service timestamp)
  have "n = k" using send(1,2) assms(3) quiet_stored [of hv sv w w1 m env] by simp
  then show ?thesis using try_send_due [OF env send(7) assms(5)] by simp
qed

lemma deliver_not_due:
  assumes "we_q env = qops" "deliver env ck m flds w = (res, w')"
    and "not_due (ck_due ck) (hv (w_redis w) DUE_HASH m) \<noteq> Inr False"
  shows "quiet hv sv w w'"
  using assms(1,2) by (cases rule: deliver_cases) (use assms(3) in auto)

lemma deliver_exact:
  assumes env: "we_q env = qops" and run: "deliver env ck m flds w = (res, w')"
    and "we_loads env (dict_get flds ''headers'' ''{}'') = Inr (JObj hs)" "string_headers hs = Some shs"
  shows "w_sent w' = w_sent w \<or>
     w_sent w' = w_sent w @ [\<lparr>sn_id = m, sn_method = dict_get flds ''method'' [], sn_url = dict_get flds ''url'' [],
        sn_headers = shs, sn_body = latin1_encode (dict_get flds ''body'' []),
        sn_answer = bounded_request (we_cfg env) (we_http env) (dict_get flds ''method'' []) (dict_get flds ''url'' []) shs
          (latin1_encode (dict_get flds ''body'' []))\<rparr>]"
  using env run
proof (cases rule: deliver_cases)
  case quiet
  then show ?thesis by (simp add: quiet_def)
next
  case (bury n w1)
  have "w_sent w' = w_sent w1" using bury(4)
    by (elim io_bindE) (simp_all add: dead_letter_effect(2) ack_run(1) [OF env])
  then show ?thesis using bury(1) by (simp add: quiet_def)
next
  case (send n w1 hs' service timestamp)
  then have "hs' = hs" using assms(3) by simp
  then have "string_headers hs' = Some shs" using assms(4) by simp
  from try_send_exact [OF env send(7) this] send(1) show ?thesis by (simp add: quiet_def)
qed

lemma enqueue_script_run:
  assumes env: "we_q env = qops" and run: "enqueue_script env entry w = (res, w')"
  defines "key \<equiv> queue_stream_key (we_cfg env)"
  shows "int (length (sv (w_redis w') key)) \<le> max (int (length (sv (w_redis w) key))) (queue_max_depth (we_cfg env)) \<and>
    (\<forall>i. res = Inr (Some i) \<longrightarrow>
       sv (w_redis w') key = sv (w_redis w) key @ [(i, entry)] \<and> i \<notin> stream_ids env sv w)"
proof -
  obtain n r1 where x: "rq_xlen qops key (w_redis w) = (n, r1)" by fastforce
  have sv1: "sv r1 = sv (w_redis w)" using xlen_same [OF x] by (simp add: stream_same_def)
  obtain a r2 where ad: "rq_xadd qops key entry r1 = (a, r2)" by fastforce
  show ?thesis
  proof (cases "\<exists>len. n = Inr len \<and> len < queue_max_depth (we_cfg env)")
    case False
    then have "sv (w_redis w') = sv (w_redis w)" "\<forall>i. res \<noteq> Inr (Some i)"
      using run x sv1 unfolding enqueue_script_def env key_def [symmetric]
      by (cases n; auto simp: io_bind_def redis_io_def io_return_def split: if_splits)+
    then show ?thesis by simp
  next
    case True
    then obtain len where len: "n = Inr len" "len < queue_max_depth (we_cfg env)" by blast
    have l: "len = int (length (sv (w_redis w) key))" using xlen_reply x len(1) by blast
    have r: "w_redis w' = r2" "res = map_sum RedisExn Some a"
      using run x ad len unfolding enqueue_script_def env key_def [symmetric]
      by (cases a; auto simp: io_bind_def redis_io_def io_return_def)+
    have "length (sv r2 key) \<le> length (sv (w_redis w) key) + 1"
      using xadd_reply [of key entry r1] xadd_raised [of key entry r1] ad sv1
      by (cases a) (auto simp: stream_same_def)
    moreover have "sv r2 key = sv (w_redis w) key @ [(i, entry)] \<and> i \<notin> stream_ids env sv w" if "a = Inr i" for i
      using xadd_reply [of key entry r1] ad sv1 that by (auto simp: stream_ids_def key_def)
    ultimately show ?thesis using r l len(2) by (cases a) auto
  qed
qed

lemma enqueue_run:
  assumes env: "we_q env = qops" and run: "enqueue_write env now verb url path hs body client_id w = (res, w')"
  defines "key \<equiv> queue_stream_key (we_cfg env)"
  shows "int (length (sv (w_redis w') key)) \<le> max (int (length (sv (w_redis w) key))) (queue_max_depth (we_cfg env))"
    and "res = Inr i \<Longrightarrow>
       sv (w_redis w') key = sv (w_redis w) key @ [(i, queue_entry env now verb url path hs body client_id)] \<and>
       i \<notin> stream_ids env sv w \<and> verb \<in> set write_methods \<and> dict_get hs ''idempotency-key'' [] \<noteq> [] \<and>
       (\<exists>service. destination_service (we_bracket_ok env) (we_cfg env) url = Inr (Some service) \<and>
          rr_queue_writes (get_route_rule (we_rules env) service))"
proof -
  let ?d = "destination_service (we_bracket_ok env) (we_cfg env) url"
  let ?e = "queue_entry env now verb url path hs body client_id"
  obtain q w1 where sc: "enqueue_script env ?e w = (q, w1)" by fastforce
  note step = enqueue_script_run [OF env sc, folded key_def]
  have cases: "w' = w \<and> (\<forall>i. res \<noteq> Inr i) \<or> w' = w1 \<and> (\<forall>i. res = Inr i \<longrightarrow> q = Inr (Some i)) \<and>
      (\<exists>service. ?d = Inr (Some service) \<and> rr_queue_writes (get_route_rule (we_rules env) service)) \<and>
      verb \<in> set write_methods \<and> dict_get hs ''idempotency-key'' [] \<noteq> []"
    using run sc unfolding enqueue_write_def
    by (cases ?d; cases q)
       (auto simp: io_bind_def py_io_def io_raise_def io_return_def split: option.splits if_splits)
  show "int (length (sv (w_redis w') key)) \<le> max (int (length (sv (w_redis w) key))) (queue_max_depth (we_cfg env))"
    using cases step by auto
  show "res = Inr i \<Longrightarrow>
       sv (w_redis w') key = sv (w_redis w) key @ [(i, ?e)] \<and>
       i \<notin> stream_ids env sv w \<and> verb \<in> set write_methods \<and> dict_get hs ''idempotency-key'' [] \<noteq> [] \<and>
       (\<exists>service. ?d = Inr (Some service) \<and> rr_queue_writes (get_route_rule (we_rules env) service))"
    using cases step by blast
qed

end

section \<open>Workers sharing a queue\<close>

text \<open>
  Any number of workers handling copies of entries, read at any time before, one \<open>handle\<close> after the
  other, with upstreams and a database that may be different every time, between arbitrary changes
  by everybody else that leave the message \<open>m\<close> alone.  The run counts how often a worker handled a
  copy of \<open>m\<close> that was no longer in the stream.
\<close>

inductive queue_run :: "'r worker_env \<Rightarrow> 'r hash_view \<Rightarrow> 'r stream_view \<Rightarrow> string \<Rightarrow> nat \<Rightarrow> 'r world \<Rightarrow> 'r world \<Rightarrow> bool"
  for env hv sv m where
  qr_nil: "queue_run env hv sv m 0 w w"
| qr_handled: "queue_run env hv sv m n w0 w \<Longrightarrow> handle (outside http db env) ck i flds w = (res, w') \<Longrightarrow>
    queue_run env hv sv m (n + (if i = m \<and> m \<notin> stream_ids env sv w then 1 else 0)) w0 w'"
| qr_elsewhere: "queue_run env hv sv m n w0 w \<Longrightarrow> untouched env hv sv m w w' \<Longrightarrow> queue_run env hv sv m n w0 w'"

definition budget_inv :: "'r worker_env \<Rightarrow> 'r hash_view \<Rightarrow> 'r stream_view \<Rightarrow> string \<Rightarrow> nat \<Rightarrow> 'r world \<Rightarrow> bool" where
  \<comment> \<open>the number counts the stale copies that were handled\<close>
  "budget_inv env hv sv m n w =
     (sends m w \<le> max_attempts env + int n \<and>
      (m \<in> stream_ids env sv w \<longrightarrow>
        (\<exists>k. stored_attempts hv m w = Some k \<and> sends m w \<le> k \<and> k \<le> max_attempts env)))"

lemma sends_nonneg: "0 \<le> sends m w"
  by (simp add: sends_def)

lemma budget_spends:
  assumes "budget_inv env hv sv m n w" "m \<in> stream_ids env sv w" "spends env hv sv m w w'"
  shows "budget_inv env hv sv m n w'"
proof -
  obtain k where k: "stored_attempts hv m w = Some k" "sends m w \<le> k" "k \<le> max_attempts env"
    using assms(1,2) by (auto simp: budget_inv_def)
  moreover have "0 \<le> k" using k(2) sends_nonneg [of m w] by linarith
  ultimately have "sends m w' \<le> max_attempts env" "m \<in> stream_ids env sv w' \<Longrightarrow>
      \<exists>k. stored_attempts hv m w' = Some k \<and> sends m w' \<le> k \<and> k \<le> max_attempts env"
    using assms(3) unfolding spends_def by force+
  then show ?thesis by (simp add: budget_inv_def)
qed

lemma untouched_budget: "untouched env hv sv m w w' \<Longrightarrow> budget_inv env hv sv m n w \<Longrightarrow> budget_inv env hv sv m n w'"
  by (auto simp: untouched_def budget_inv_def stored_attempts_def)

lemma outside_simps [simp]:
  "spends (outside http db env) hv sv m = spends env hv sv m" "untouched (outside http db env) hv sv m = untouched env hv sv m"
  "stream_ids (outside http db env) sv = stream_ids env sv" "accounted (outside http db env) sv m flds = accounted env sv m flds"
  "dead_letter_row (outside http db env) = dead_letter_row env" "recorded (outside http db env) = recorded env"
  by (simp_all add: fun_eq_iff spends_def untouched_def stream_ids_def accounted_def dead_letter_row_def recorded_def)

context redis_queue_laws
begin

text \<open>A copy that is no longer in the stream is sent once at most and stays out.\<close>

lemma deliver_once:
  assumes env: "we_q env = qops" and run: "deliver env ck m flds w = (res, w')"
  shows "(sends m w' = sends m w \<or> sends m w' = sends m w + 1) \<and> (m \<in> stream_ids env sv w' \<longrightarrow> m \<in> stream_ids env sv w)"
  using env run
proof (cases rule: deliver_cases)
  case quiet
  then show ?thesis using quiet_stored [of hv sv w w' m env] by simp
next
  case (bury n w1)
  have "io_keeps (count_stands env hv sv m) (io_bind (dead_letter env flds n err) (\<lambda>_. ack env m))"
      "io_keeps (no_send m) (io_bind (dead_letter env flds n err) (\<lambda>_. ack env m))" for err
    by (intro io_keeps_bind rel_props dead_letter_stands ack_stands [OF env])+
  from io_keepsD [OF this(1) bury(4)] io_keepsD [OF this(2) bury(4)] show ?thesis
    using quiet_stored [OF bury(1), of m env] by (simp add: count_stands_def no_send_def)
next
  case (send n w1 hs service timestamp)
  obtain r1 w2 where h: "redis_io (rq_hset qops ATTEMPTS_HASH m (str_of_int (n + 1))) w1 = (r1, w2)" by fastforce
  have same: "sends m w2 = sends m w" "stream_ids env sv w2 = stream_ids env sv w"
    using hset_run [OF h] quiet_stored [OF send(1), of m env] by (simp_all add: sends_def stream_ids_def)
  have "w' = w2 \<or> sent_tail env ck m flds hs (n + 1) w2 = (res, w')"
    using send(7) h unfolding try_send_def env by (auto simp: io_bind_def split: sum.splits)
  then show ?thesis using tail_run [OF env, of ck m flds hs "n + 1" w2 res w'] same by (auto simp: count_stands_def)
qed

lemma handle_once:
  assumes env: "we_kv env = ops" "we_q env = qops" and run: "handle env ck m flds w = (res, w')"
  shows "(sends m w' = sends m w \<or> sends m w' = sends m w + 1) \<and> (m \<in> stream_ids env sv w' \<longrightarrow> m \<in> stream_ids env sv w)"
  using env(1) run
proof (cases rule: handleE)
  case 1
  then show ?thesis using quiet_stored [of hv sv w w' m env] by simp
next
  case (2 w1 w2)
  have "(sends m w2 = sends m w1 \<or> sends m w2 = sends m w1 + 1) \<and> (m \<in> stream_ids env sv w2 \<longrightarrow> m \<in> stream_ids env sv w1)"
    using 2(2)
  proof (cases rule: deliver_or_buryE)
    case (1 res1)
    then show ?thesis by (rule deliver_once [OF env(2)])
  next
    case (2 res1 w3)
    then show ?thesis
      using deliver_once [OF env(2) 2(1)] io_keepsD [OF bury_stands(1) [OF env(2)] 2(2)]
        io_keepsD [OF bury_stands(2) [OF env(2)] 2(2)] by (auto simp: count_stands_def no_send_def)
  qed
  then show ?thesis using quiet_stored [OF 2(1), of m env] quiet_stored [OF 2(3), of m env] by simp
qed

lemma handle_budget:
  assumes env: "we_kv env = ops" "we_q env = qops" "max_attempts env < int py_int_limit"
    and run: "handle (outside http db env) ck i flds w = (res, w')" and inv: "budget_inv env hv sv m n w"
  shows "budget_inv env hv sv m (n + (if i = m \<and> m \<notin> stream_ids env sv w then 1 else 0)) w'"
proof (cases "i = m")
  case same: True
  show ?thesis
  proof (cases "m \<in> stream_ids env sv w")
    case True
    then show ?thesis using budget_spends [OF inv True] handle_spends [OF _ _ _ run [unfolded same]] env same by simp
  next
    case False
    then show ?thesis using handle_once [OF _ _ run [unfolded same]] env inv same by (auto simp: budget_inv_def)
  qed
next
  case False
  then show ?thesis using handle_untouched [OF _ _ run False] env untouched_budget [OF _ inv] by simp
qed

lemma run_budget:
  assumes env: "we_kv env = ops" "we_q env = qops" "max_attempts env < int py_int_limit"
    and run: "queue_run env hv sv m n w w'" and inv: "budget_inv env hv sv m 0 w"
  shows "budget_inv env hv sv m n w'"
  using run inv
proof (induction rule: queue_run.induct)
  case (qr_handled n w0 w http db ck i flds res w')
  then show ?case using handle_budget [OF env] by blast
next
  case (qr_elsewhere n w0 w w')
  then show ?case using untouched_budget by blast
qed

text \<open>Whatever relation each of its commands keeps, a whole \<open>handle\<close> keeps.\<close>

lemma handle_keeps:
  assumes env: "we_kv env = ops" "we_q env = qops" and R: "reflp R" "transp R" "\<And>w w'. quiet hv sv w w' \<Longrightarrow> R w w'"
    and steps: "\<And>n err. io_keeps R (dead_letter env flds n err)" "io_keeps R (ack env m)"
      "\<And>h f v. io_keeps R (redis_io (rq_hset qops h f v))" "\<And>hs. io_keeps R (replay_request env m flds hs)"
    and run: "handle env ck m flds w = (res, w')"
  shows "R w w'"
proof -
  note tr = io_keeps_bind [OF R(2)] and re = io_keeps_pure [OF R(1)]
  have hget: "io_keeps R (redis_io (rq_hget qops h f))" for h f by (rule io_keeps_mono [OF hget_quiet R(3)])
  have att: "io_keeps R (get_attempts env m)" by (rule io_keeps_mono [OF attempts_quiet [OF env(2)] R(3)])
  have "io_keeps R (try_send env ck m flds hs n)" for hs n
    unfolding try_send_def sent_tail_def env(2) by (intro tr steps) (auto intro!: tr steps re split: prod.splits)
  then have deliver: "io_keeps R (deliver env ck m flds)"
    unfolding deliver_def env(2) by (intro tr hget re) (auto intro!: tr hget att re steps split: json.splits)
  have bury: "io_keeps R (bury_malformed env m flds)" unfolding bury_malformed_def by (intro tr att steps)
  show ?thesis
    using env(1) run
  proof (cases rule: handleE)
    case (2 w1 w2)
    have "R w1 w2"
      using 2(2) io_keepsD [OF deliver] io_keepsD [OF bury] transpD [OF R(2)]
      by (cases rule: deliver_or_buryE) blast+
    then show ?thesis using R(3) [OF 2(1)] R(3) [OF 2(3)] transpD [OF R(2)] by blast
  qed (rule R(3))
qed

text \<open>The answers that are noted come from the upstream.\<close>

lemma same_truthful: "w_sent w' = w_sent w \<Longrightarrow> truthful env w w'"
  by (simp add: truthful_def)

lemma handle_truthful:
  assumes env: "we_kv env = ops" "we_q env = qops" and run: "handle env ck m flds w = (res, w')"
  shows "truthful env w w'"
proof (rule handle_keeps [OF env _ _ _ _ _ _ _ run])
  show "reflp (truthful env)" "transp (truthful env)" by (auto simp: reflp_def transp_def truthful_def)
  show "io_keeps (truthful env) (replay_request env m flds hs)" for hs
    by (rule io_keepsI) (auto simp: replay_request_def Let_def truthful_def split: option.splits sum.splits upstream_error.splits)
qed (auto simp: io_keeps_def same_truthful quiet_def dead_letter_effect(2) ack_run(1) [OF env(2)] hset_run(2))

end

section \<open>Properties\<close>

text \<open>
  C4.  The retry budget survives crashes.  Any number of workers handle copies of a queued write, in
  whatever order, with upstreams and a database that change all the time, and wherever their
  commands raise or their process dies.  As long as the write is in the stream it was sent at most
  \<open>queue_max_retries + 1\<close> times; after that a worker that still holds a copy can send it again, once
  for every such copy that it handles (the acknowledgement has reset the count).  Handlings do not
  overlap, which the lease on the entry is there for.
\<close>

theorem replay_budget:
  assumes "redis_queue_laws (we_kv env) view (we_q env) hv sv"
    and "queue_max_retries (we_cfg env) + 1 < int py_int_limit" "0 \<le> queue_max_retries (we_cfg env)"
    and "hv (w_redis w0) ATTEMPTS_HASH m = None" "sends m w0 = 0"
    and "queue_run env hv sv m stale w0 w"
  shows "sends m w \<le> queue_max_retries (we_cfg env) + 1 + int stale \<and>
    (m \<in> stream_ids env sv w \<longrightarrow> sends m w \<le> queue_max_retries (we_cfg env) + 1)"
proof -
  have "budget_inv env hv sv m 0 w0"
    using assms(3-5) by (simp add: budget_inv_def stored_attempts_def)
  from redis_queue_laws.run_budget [OF assms(1) refl refl assms(2,6) this]
  show ?thesis by (auto simp: budget_inv_def)
qed

text \<open>
  C5.  No silent loss: when handling a queued write removes it from the stream, either its row is in
  the dead-letter table or the upstream answered it with a 2xx status in that very run.  Whatever
  else happens (the lock is taken, Redis or the database raises, the entry is malformed) leaves
  it in the stream.
\<close>

theorem no_silent_loss:
  assumes "redis_queue_laws (we_kv env) view (we_q env) hv sv"
    and "handle env ck m flds w = (res, w')"
    and "m \<in> stream_ids env sv w" "m \<notin> stream_ids env sv w'"
  shows "(recorded env flds w w' \<or> accepted m w w') \<and> truthful env w w'"
  using redis_queue_laws.handle_accounted [OF assms(1) refl refl assms(2)] assms(3,4)
    redis_queue_laws.handle_truthful [OF assms(1) refl refl assms(2)]
  by (simp add: accounted_def)

text \<open>
  C36.  Backoff: after an attempt that was sent and left the write queued, no worker sends it again
  before the scheduled delay of that attempt is over, provided nobody else changed its due time
  and the text of a float reads back as the float.
\<close>

theorem backoff_respected:
  assumes laws: "redis_queue_laws (we_kv env) view (we_q env) hv sv"
    and due: "due = f_add (ck_backoff ck) (b64 (of_int (backoff_seconds (we_cfg env) (k + 1))))"
      "py_float_of_str (we_float_repr env due) = Some due" "we_float_repr env due \<noteq> []"
    and first: "deliver env ck m flds w = (Inr (), w1)" "stored_attempts hv m w = Some k"
      "sends m w1 = sends m w + 1" "m \<in> stream_ids env sv w1"
    and later: "hv (w_redis w2) DUE_HASH m = hv (w_redis w1) DUE_HASH m"
      "f_lt (ck_due ck') due"
      "deliver env ck' m flds' w2 = (res, w3)"
  shows "quiet hv sv w2 w3 \<and> w_sent w3 = w_sent w2"
proof -
  have "hv (w_redis w1) DUE_HASH m = Some (we_float_repr env due)"
    unfolding due(1) by (rule redis_queue_laws.deliver_sets_due [OF laws refl first])
  then have "not_due (ck_due ck') (hv (w_redis w2) DUE_HASH m) \<noteq> Inr False"
    using due(2,3) later(1,2) by (simp add: not_due_def)
  from redis_queue_laws.deliver_not_due [OF laws refl later(3) this] show ?thesis by (simp add: quiet_def)
qed

text \<open>
  C37.  Replay is exact: whenever a worker sends an entry that was made for a failed write, the request
  has the method, URL, headers and body bytes of the original request, binary bodies included.
\<close>

theorem replay_exact:
  assumes laws: "redis_queue_laws (we_kv env) view (we_q env) hv sv"
    and codec: "we_loads env (we_dumps env (JObj (map (\<lambda>(k, v). (k, JStr v)) hs))) =
      Inr (JObj (map (\<lambda>(k, v). (k, JStr v)) hs))"
    and run: "deliver env ck m (queue_entry env now verb url path hs body client_id) w = (res, w')"
    and sent: "w_sent w' \<noteq> w_sent w"
  shows "w_sent w' = w_sent w @ [\<lparr>sn_id = m, sn_method = verb, sn_url = url, sn_headers = hs, sn_body = body,
    sn_answer = bounded_request (we_cfg env) (we_http env) verb url hs body\<rparr>]"
proof -
  have hs: "string_headers (map (\<lambda>(k, v). (k, JStr v)) hs) = Some hs" for hs
    by (induction hs) auto
  let ?e = "queue_entry env now verb url path hs body client_id"
  have get: "dict_get ?e ''headers'' d = we_dumps env (JObj (map (\<lambda>(k, v). (k, JStr v)) hs))"
    "dict_get ?e ''method'' d = verb" "dict_get ?e ''url'' d = url" "dict_get ?e ''body'' d = latin1_decode body" for d
    by (simp_all add: queue_entry_def dict_get_def)
  from redis_queue_laws.deliver_exact [OF laws refl run, of "map (\<lambda>(k, v). (k, JStr v)) hs" hs]
  show ?thesis using codec sent hs by (simp add: get)
qed

text \<open>
  The queue is bounded: queueing never makes the stream longer than \<open>queue_max_depth\<close>; it succeeds
  only for a write to a destination whose route declares the idempotency contract and that carries
  a key, and then exactly the entry for that write is appended under a new identifier.
\<close>

theorem enqueue_bounded:
  assumes laws: "redis_queue_laws (we_kv env) view (we_q env) hv sv"
    and run: "enqueue_write env now verb url path hs body client_id w = (res, w')"
  defines "key \<equiv> queue_stream_key (we_cfg env)"
  shows "int (length (sv (w_redis w') key)) \<le> max (int (length (sv (w_redis w) key))) (queue_max_depth (we_cfg env)) \<and>
    (\<forall>i. res = Inr i \<longrightarrow>
       sv (w_redis w') key = sv (w_redis w) key @ [(i, queue_entry env now verb url path hs body client_id)] \<and>
       i \<notin> stream_ids env sv w \<and> verb \<in> set write_methods \<and> dict_get hs ''idempotency-key'' [] \<noteq> [] \<and>
       (\<exists>service. destination_service (we_bracket_ok env) (we_cfg env) url = Inr (Some service) \<and>
          rr_queue_writes (get_route_rule (we_rules env) service)))"
  using redis_queue_laws.enqueue_run [OF laws refl run] unfolding key_def by blast

section \<open>Witnesses\<close>

definition demo_queue_settings :: settings where
  "demo_queue_settings = default_settings\<lparr>upstream_services := [(''s'', ''http://h'')], queue_max_retries := 1\<rparr>"

definition demo_queue_env :: "http_client \<Rightarrow> mem_redis worker_env" where
  "demo_queue_env http = \<lparr>we_cfg = demo_queue_settings,
     we_rules = [(''s'', RouteRule_default\<lparr>rr_queue_writes := True\<rparr>)],
     we_kv = mem_kv, we_q = mem_queue,
     we_loads = (\<lambda>_. Inr (JObj [(''idempotency-key'', JStr ''k'')])), we_dumps = (\<lambda>_. ''{}''),
     we_float_repr = (\<lambda>_. ''5''), we_bracket_ok = (\<lambda>_. True), we_http = http,
     we_exc_name = (\<lambda>_. ''ConnectError''), we_db = (\<lambda>_. Stored)\<rparr>"

definition demo_down :: http_client where
  "demo_down verb url hs body = Inl ConnectError"

definition demo_accepting :: http_client where
  "demo_accepting verb url hs body = Inr \<lparr>us_status = 201, us_headers = [], us_chunks = []\<rparr>"

definition demo_entry_fields :: "(string, string) dict" where
  "demo_entry_fields = queue_entry (demo_queue_env demo_down) (Fin 0) ''POST'' ''http://h/x'' ''/x''
     [(''idempotency-key'', ''k'')] [0, 255] None"

definition demo_queue_world :: "mem_redis world" where
  "demo_queue_world = \<lparr>w_redis = mem_empty\<lparr>m_stream := (\<lambda>_. [(''0'', demo_entry_fields)]), m_seq := 1\<rparr>,
     w_failed = [], w_sent = [], w_cursor = ''0-0''\<rparr>"

definition demo_clock :: clock where
  "demo_clock = \<lparr>ck_due = Fin 0, ck_expiry = Fin 5, ck_backoff = Fin 0, ck_lock = 0, ck_release = 1, ck_token = ''t''\<rparr>"

lemma demo_env_simps [simp]:
  "we_cfg (demo_queue_env h) = demo_queue_settings"
  "we_kv (demo_queue_env h) = mem_kv" "we_q (demo_queue_env h) = mem_queue"
  "we_loads (demo_queue_env h) t = Inr (JObj [(''idempotency-key'', JStr ''k'')])"
  "we_dumps (demo_queue_env h) j = ''{}''" "we_float_repr (demo_queue_env h) x = ''5''"
  "we_bracket_ok (demo_queue_env h) = (\<lambda>_. True)" "we_http (demo_queue_env h) = h"
  "we_db (demo_queue_env h) row = Stored"
  "get_route_rule (we_rules (demo_queue_env h)) ''s'' = RouteRule_default\<lparr>rr_queue_writes := True\<rparr>"
  by (simp_all add: demo_queue_env_def get_route_rule_def dict_get_def)

lemma demo_settings_simps [simp]:
  "queue_max_retries demo_queue_settings = 1" "upstream_services demo_queue_settings = [(''s'', ''http://h'')]"
  "queue_max_age_seconds demo_queue_settings = 3600" "max_response_body_bytes demo_queue_settings = 8388608"
  "queue_stream_key demo_queue_settings = ''offline_queue''" "queue_max_depth demo_queue_settings = 10000"
  "max_request_body_bytes demo_queue_settings = 1048576" "queue_claim_idle_seconds demo_queue_settings = 60"
  "backoff_seconds demo_queue_settings 1 = 5"
  by (simp_all add: demo_queue_settings_def default_settings_def backoff_seconds_def Let_def)

lemma demo_fields_simps [simp]:
  "dict_get demo_entry_fields ''headers'' d = ''{}''" "dict_get demo_entry_fields ''url'' d = ''http://h/x''"
  "dict_get demo_entry_fields ''method'' d = ''POST''" "dict_get demo_entry_fields ''timestamp'' d = ''5''"
  "map_of demo_entry_fields ''method'' = Some ''POST''"
  "dict_get demo_entry_fields ''body'' d = latin1_decode [0, 255]"
  by (simp_all add: demo_entry_fields_def queue_entry_def dict_get_def)

lemma demo_destination: "destination_service (\<lambda>_. True) demo_queue_settings ''http://h/x'' = Inr (Some ''s'')"
proof -
  have "urlsplit (\<lambda>_. True) ''http://h/x'' =
      Inr \<lparr>su_scheme = ''http'', su_netloc = ''h'', su_path = ''/x'', su_query = [], su_fragment = []\<rparr>"
    "urlsplit (\<lambda>_. True) ''http://h'' =
      Inr \<lparr>su_scheme = ''http'', su_netloc = ''h'', su_path = [], su_query = [], su_fragment = []\<rparr>"
    by code_simp+
  then show ?thesis by (simp add: destination_service_def py_rstrip_by_def)
qed

lemma demo_five: "py_float_of_str ''5'' = Some (Fin 5)"
  using b64_of_int [of 5] by (simp add: py_eval)

lemmas demo_io = io_bind_def io_return_def io_raise_def py_io_def redis_io_def mem_queue_def
  ATTEMPTS_HASH_def DUE_HASH_def

lemma demo_eligible:
  "attempt_eligible (demo_queue_env h) (Fin 5) demo_entry_fields [(''idempotency-key'', JStr ''k'')] (Some ''s'') (Fin 5)"
  by (simp add: attempt_eligible_def write_methods_def f_sub_def dict_get_def)

definition demo_sent :: "http_client \<Rightarrow> sent_request" where
  "demo_sent http = \<lparr>sn_id = ''0'', sn_method = ''POST'', sn_url = ''http://h/x'',
     sn_headers = [(''idempotency-key'', ''k'')], sn_body = [0, 255],
     sn_answer = bounded_request demo_queue_settings http ''POST'' ''http://h/x'' [(''idempotency-key'', ''k'')] [0, 255]\<rparr>"

lemmas demo_deliver = deliver_def get_attempts_def try_send_def sent_tail_def replay_request_def bounded_request_def
  bounded_response_def not_due_def demo_io demo_clock_def demo_destination demo_five ack_def demo_sent_def Let_def

lemma demo_deliver_down:
  "\<exists>w'. deliver (demo_queue_env demo_down) demo_clock ''0'' demo_entry_fields demo_queue_world = (Inr (), w') \<and>
     w_sent w' = [demo_sent demo_down] \<and> m_stream (w_redis w') ''offline_queue'' = [(''0'', demo_entry_fields)]"
  using demo_eligible
  by (simp add: demo_deliver demo_queue_world_def mem_empty_def demo_down_def)

text \<open>
  A worker that holds a copy of an entry sends it whether or not the entry is still in the stream:
  an acknowledgement by another worker has also reset the stored budget.
\<close>

lemma demo_deliver_accepted:
  assumes "m_up (w_redis w)" "\<And>h. m_hash (w_redis w) h ''0'' = None"
  shows "\<exists>w'. deliver (demo_queue_env demo_accepting) demo_clock ''0'' demo_entry_fields w = (Inr (), w') \<and>
     w_sent w' = w_sent w @ [demo_sent demo_accepting] \<and> m_up (w_redis w') \<and> (\<forall>h. m_hash (w_redis w') h ''0'' = None) \<and>
     m_stream (w_redis w') ''offline_queue'' = filter (\<lambda>e. fst e \<noteq> ''0'') (m_stream (w_redis w) ''offline_queue'')"
  using assms demo_eligible by (simp add: demo_deliver demo_accepting_def)

lemma acked_copy_sent_again:
  "\<exists>w1 w2. deliver (demo_queue_env demo_accepting) demo_clock ''0'' demo_entry_fields demo_queue_world = (Inr (), w1) \<and>
     ''0'' \<notin> stream_ids (demo_queue_env demo_accepting) m_stream w1 \<and>
     deliver (demo_queue_env demo_accepting) demo_clock ''0'' demo_entry_fields w1 = (Inr (), w2) \<and> sends ''0'' w2 = 2"
proof -
  have start: "m_up (w_redis demo_queue_world)" "m_hash (w_redis demo_queue_world) h ''0'' = None"
    "w_sent demo_queue_world = []" for h by (simp_all add: demo_queue_world_def mem_empty_def)
  obtain w1 where 1: "deliver (demo_queue_env demo_accepting) demo_clock ''0'' demo_entry_fields demo_queue_world = (Inr (), w1)"
    "w_sent w1 = [demo_sent demo_accepting]" "m_up (w_redis w1)" "\<forall>h. m_hash (w_redis w1) h ''0'' = None"
    "m_stream (w_redis w1) ''offline_queue'' = filter (\<lambda>e. fst e \<noteq> ''0'') (m_stream (w_redis demo_queue_world) ''offline_queue'')"
    using demo_deliver_accepted [OF start(1,2)] start(3) by auto
  obtain w2 where 2: "deliver (demo_queue_env demo_accepting) demo_clock ''0'' demo_entry_fields w1 = (Inr (), w2)"
    "w_sent w2 = w_sent w1 @ [demo_sent demo_accepting]"
    using demo_deliver_accepted [of w1] 1(3,4) by auto
  have "''0'' \<notin> stream_ids (demo_queue_env demo_accepting) m_stream w1" using 1(5) by (auto simp: stream_ids_def)
  moreover have "sends ''0'' w2 = 2" using 1(2) 2(2) by (simp add: sends_def demo_sent_def)
  ultimately show ?thesis using 1(1) 2(1) by blast
qed

theorem replay_exact_witness:
  "w_sent (snd (deliver (demo_queue_env demo_down) demo_clock ''0'' demo_entry_fields demo_queue_world)) =
     [\<lparr>sn_id = ''0'', sn_method = ''POST'', sn_url = ''http://h/x'', sn_headers = [(''idempotency-key'', ''k'')],
       sn_body = [0, 255], sn_answer = Inl ConnectError\<rparr>]"
proof -
  obtain w' where w': "deliver (demo_queue_env demo_down) demo_clock ''0'' demo_entry_fields demo_queue_world = (Inr (), w')"
    "w_sent w' = [demo_sent demo_down]" using demo_deliver_down by blast
  have "w_sent demo_queue_world = []" by (simp add: demo_queue_world_def)
  with replay_exact [OF _ _ w'(1) [unfolded demo_entry_fields_def], of mem_view m_hash m_stream] w'
    memq.redis_queue_laws_axioms
  show ?thesis by (simp add: bounded_request_def demo_down_def)
qed

theorem backoff_respected_witness:
  "\<exists>w1. deliver (demo_queue_env demo_down) demo_clock ''0'' demo_entry_fields demo_queue_world = (Inr (), w1) \<and>
     w_sent (snd (deliver (demo_queue_env demo_down) (demo_clock\<lparr>ck_due := Fin 4\<rparr>) ''0'' demo_entry_fields w1)) = w_sent w1"
proof -
  obtain w1 where w1: "deliver (demo_queue_env demo_down) demo_clock ''0'' demo_entry_fields demo_queue_world = (Inr (), w1)"
    "w_sent w1 = [demo_sent demo_down]" "m_stream (w_redis w1) ''offline_queue'' = [(''0'', demo_entry_fields)]"
    using demo_deliver_down by blast
  have s: "sends ''0'' w1 = sends ''0'' demo_queue_world + 1"
    by (simp add: sends_def w1(2) demo_sent_def demo_queue_world_def)
  have i: "''0'' \<in> stream_ids (demo_queue_env demo_down) m_stream w1" by (simp add: stream_ids_def w1(3))
  obtain res w3 where w3: "deliver (demo_queue_env demo_down) (demo_clock\<lparr>ck_due := Fin 4\<rparr>) ''0'' demo_entry_fields w1 = (res, w3)"
    by fastforce
  have b: "b64 5 = Fin 5" using b64_of_int [of 5] by simp
  have k: "stored_attempts m_hash ''0'' demo_queue_world = Some 0"
    by (simp add: stored_attempts_def demo_queue_world_def mem_empty_def)
  have "quiet m_hash m_stream w1 w3 \<and> w_sent w3 = w_sent w1"
    by (rule backoff_respected [where due = "Fin 5" and k = 0, OF _ _ _ _ w1(1) k s i refl _ w3])
       (use memq.redis_queue_laws_axioms in \<open>simp_all add: demo_five demo_clock_def b\<close>)
  with w1(1) w3 show ?thesis by auto
qed

text \<open>One whole \<open>handle\<close> against an upstream that accepts the write.\<close>

lemma demo_handle_accepted:
  "\<exists>w'. handle (demo_queue_env demo_accepting) demo_clock ''0'' demo_entry_fields demo_queue_world = (Inr (), w') \<and>
     w_sent w' = [demo_sent demo_accepting] \<and> m_stream (w_redis w') ''offline_queue'' = []"
proof -
  obtain r1 where l: "acquire_lock mem_kv 0 ''t'' ''replay:0'' 60 (w_redis demo_queue_world) = (Some ''t'', r1)"
    "m_up r1" "m_hash r1 = (\<lambda>_. Map.empty)" "m_stream r1 = m_stream (w_redis demo_queue_world)"
    by (simp add: acquire_lock_def mem_kv_def mem_view_def demo_queue_world_def mem_empty_def)
       (simp add: mem_put_def)
  obtain w2 where d: "deliver (demo_queue_env demo_accepting) demo_clock ''0'' demo_entry_fields
      (demo_queue_world\<lparr>w_redis := r1\<rparr>) = (Inr (), w2)" "w_sent w2 = [demo_sent demo_accepting]"
    "m_stream (w_redis w2) ''offline_queue'' = []"
    using demo_deliver_accepted [of "demo_queue_world\<lparr>w_redis := r1\<rparr>"] l
    by (auto simp: demo_queue_world_def mem_empty_def)
  have "m_stream (release_lock mem_kv t n k r) = m_stream r" for t n k r
    by (simp add: release_lock_def mem_kv_def)
  then show ?thesis using l(1) d by (simp add: handle_def deliver_or_bury_def demo_clock_def)
qed

theorem no_silent_loss_witness:
  "\<exists>w'. handle (demo_queue_env demo_accepting) demo_clock ''0'' demo_entry_fields demo_queue_world = (Inr (), w') \<and>
     (recorded (demo_queue_env demo_accepting) demo_entry_fields demo_queue_world w' \<or>
      accepted ''0'' demo_queue_world w') \<and> truthful (demo_queue_env demo_accepting) demo_queue_world w'"
proof -
  obtain w' where w': "handle (demo_queue_env demo_accepting) demo_clock ''0'' demo_entry_fields demo_queue_world = (Inr (), w')"
    "m_stream (w_redis w') ''offline_queue'' = []" using demo_handle_accepted by blast
  have "(recorded (demo_queue_env demo_accepting) demo_entry_fields demo_queue_world w' \<or>
      accepted ''0'' demo_queue_world w') \<and> truthful (demo_queue_env demo_accepting) demo_queue_world w'"
    by (rule no_silent_loss [OF _ w'(1), of mem_view m_hash m_stream])
       (use memq.redis_queue_laws_axioms w'(2) in \<open>simp_all add: stream_ids_def demo_queue_world_def\<close>)
  with w'(1) show ?thesis by blast
qed

theorem replay_budget_witness:
  "\<exists>w'. handle (demo_queue_env demo_accepting) demo_clock ''0'' demo_entry_fields demo_queue_world = (Inr (), w') \<and>
     sends ''0'' w' = 1 \<and> sends ''0'' w' \<le> queue_max_retries (we_cfg (demo_queue_env demo_accepting)) + 1"
proof -
  obtain w' where w': "handle (demo_queue_env demo_accepting) demo_clock ''0'' demo_entry_fields demo_queue_world = (Inr (), w')"
    "w_sent w' = [demo_sent demo_accepting]" using demo_handle_accepted by blast
  have same: "outside demo_accepting (\<lambda>_. Stored) (demo_queue_env demo_accepting) = demo_queue_env demo_accepting"
    by (simp add: demo_queue_env_def)
  have "''0'' \<in> stream_ids (demo_queue_env demo_accepting) m_stream demo_queue_world"
    by (simp add: stream_ids_def demo_queue_world_def)
  then have run: "queue_run (demo_queue_env demo_accepting) m_hash m_stream ''0'' 0 demo_queue_world w'"
    using qr_handled [OF qr_nil [of "demo_queue_env demo_accepting" m_hash m_stream "''0''" demo_queue_world],
        where http = demo_accepting and db = "\<lambda>_. Stored", unfolded same, OF w'(1)]
    by simp
  have lim: "2 < int py_int_limit"
  proof -
    have "(10 :: nat) ^ 1 \<le> py_int_limit" unfolding py_int_limit_def by (rule power_increasing) simp_all
    then show ?thesis by simp
  qed
  have "sends ''0'' w' \<le> queue_max_retries (we_cfg (demo_queue_env demo_accepting)) + 1 + int 0 \<and>
      (''0'' \<in> stream_ids (demo_queue_env demo_accepting) m_stream w' \<longrightarrow>
       sends ''0'' w' \<le> queue_max_retries (we_cfg (demo_queue_env demo_accepting)) + 1)"
    by (rule replay_budget [OF _ _ _ _ _ run, of mem_view])
       (use memq.redis_queue_laws_axioms lim in \<open>simp_all add: demo_queue_world_def mem_empty_def sends_def\<close>)
  with w' show ?thesis by (auto simp: sends_def demo_sent_def)
qed

theorem enqueue_bounded_witness:
  "\<exists>w'. enqueue_write (demo_queue_env demo_down) (Fin 0) ''POST'' ''http://h/x'' ''/x'' [(''idempotency-key'', ''k'')] [0, 255]
       None (demo_queue_world\<lparr>w_redis := mem_empty\<rparr>) = (Inr ''0'', w') \<and>
     m_stream (w_redis w') ''offline_queue'' = [(''0'', demo_entry_fields)]"
proof -
  have z: "str_of_nat 0 = ''0''" by code_simp
  obtain w' where w': "enqueue_write (demo_queue_env demo_down) (Fin 0) ''POST'' ''http://h/x'' ''/x''
      [(''idempotency-key'', ''k'')] [0, 255] None (demo_queue_world\<lparr>w_redis := mem_empty\<rparr>) = (Inr ''0'', w')"
    by (simp add: enqueue_write_def enqueue_script_def demo_destination demo_io write_methods_def dict_get_def
        demo_queue_world_def mem_empty_def z)
  from enqueue_bounded [OF _ w', of mem_view m_hash m_stream] memq.redis_queue_laws_axioms w'
  show ?thesis by (simp add: mem_empty_def demo_entry_fields_def)
qed

end
