(* ===== verification/Proxy.thy ===== *)
theory Proxy
  imports Sync_Worker "HOL-Library.Product_Lexorder"
begin

text \<open>
  \<^verbatim>\<open>gateway/routes/proxy.py\<close>: the reverse proxy.  A handler runs on the state of one request
  together with the Redis server, the requests made to upstreams so far and the background
  refreshes it started; what it reports to the metrics is listed in order.  An exception that no
  handler catches is a result of its own.
\<close>

section \<open>State and parameters\<close>

record upstream_call =
  uc_method :: string
  uc_url :: string
  uc_headers :: "(string, string) dict"
  uc_body :: bytes

record refresh_task =
  rt_key :: string
  rt_url :: string
  rt_headers :: "(string, string) dict"
  rt_service :: string
  rt_fresh_for :: int
  rt_token :: string
  rt_timeout :: pyfloat

record 'r proxy_state =
  ps_redis :: 'r
  ps_calls :: "upstream_call list"
  ps_tasks :: "refresh_task list" \<comment> \<open>\<^verbatim>\<open>_background_tasks\<close>, oldest first\<close>
  ps_request :: request_state
  ps_effects :: "effect list"

record ('r, 'ip) proxy_env =
  pe_worker :: "'r worker_env" \<comment> \<open>settings, rules, Redis, codecs and the HTTP client\<close>
  pe_codec :: envelope_codec
  pe_sha256 :: "string \<Rightarrow> string"
  pe_ip :: "'ip ip_lib"
  pe_getaddrinfo :: "string \<Rightarrow> (py_error, string list) result"

text \<open>The clock readings and the random token of one request, in the order the code takes them.\<close>

record proxy_clock =
  pc_get :: int
  pc_now :: pyfloat
  pc_lock :: int
  pc_token :: string
  pc_started :: pyfloat
  pc_ended :: pyfloat
  pc_deadline :: bool \<comment> \<open>whether the deadline passed before the upstream answered\<close>
  pc_stored :: pyfloat
  pc_set :: int
  pc_enqueued :: pyfloat
  pc_logged :: pyfloat
  pc_age :: pyfloat
  pc_release :: int

abbreviation pe_cfg :: "('r, 'ip) proxy_env \<Rightarrow> settings" where
  "pe_cfg env \<equiv> we_cfg (pe_worker env)"

abbreviation pe_kv :: "('r, 'ip) proxy_env \<Rightarrow> 'r redis_kv" where
  "pe_kv env \<equiv> we_kv (pe_worker env)"

definition emit :: "effect \<Rightarrow> ('r proxy_state, unit) io" where
  "emit e s = (Inr (), s\<lparr>ps_effects := ps_effects s @ [e]\<rparr>)"

definition on_request :: "(request_state \<Rightarrow> request_state) \<Rightarrow> ('r proxy_state, unit) io" where
  "on_request f s = (Inr (), s\<lparr>ps_request := f (ps_request s)\<rparr>)"

section \<open>Headers\<close>

definition forwarding_names :: "string list" where
  "forwarding_names = [''x-forwarded-for'', ''x-forwarded-host'', ''x-forwarded-proto'', ''forwarded'', ''x-network-quality'']"

definition forward_headers :: "'ip ip_lib \<Rightarrow> settings \<Rightarrow> request \<Rightarrow> request_state \<Rightarrow> (string, string) dict" where
  "forward_headers ipl cfg rq st =
     (let headers0 = dict_of_items (clean_headers (req_headers rq));
          quality = (case st_network_quality st of Some q \<Rightarrow> q | None \<Rightarrow> NQ_GOOD);
          headers1 = fold AList.delete forwarding_names headers0;
          headers2 = AList.update ''X-Forwarded-For'' (request_client_ip ipl cfg rq) headers1;
          headers3 = AList.update ''accept-encoding'' ''identity'' headers2
      in AList.update ''X-Network-Quality'' (quality_value quality) headers3)"

definition response_headers :: "upstream_response \<Rightarrow> (string, string) dict" where
  "response_headers upstream = clean_headers (ur_headers upstream)"

definition private_request_headers :: "string list" where
  "private_request_headers = [''authorization'', ''x-api-key'', ''cookie'', ''range'', ''if-range'',
     ''if-match'', ''if-none-match'', ''if-modified-since'', ''if-unmodified-since'']"

definition cache_allowed :: "request \<Rightarrow> bool" where
  "cache_allowed rq =
     (\<not> list_ex (\<lambda>name. header_in name (req_headers rq)) private_request_headers \<and>
      \<not> list_ex (\<lambda>value. py_contains value (py_lower (header_or (req_headers rq) ''cache-control'' [])))
          [''no-cache'', ''no-store'', ''max-age=0''])"

definition response_cacheable :: "upstream_response \<Rightarrow> bool" where
  "response_cacheable resp =
     (ur_status resp = 200 \<and> \<not> header_in ''set-cookie'' (ur_headers resp) \<and>
      \<not> header_in ''cache-control'' (ur_headers resp) \<and> \<not> header_in ''vary'' (ur_headers resp) \<and>
      \<not> header_in ''expires'' (ur_headers resp))"

definition cache_variant :: "(string, string) dict \<Rightarrow> json" where
  "cache_variant hs = JArr (map (\<lambda>(k, v). JArr [JStr k, JStr v]) (sort (map (\<lambda>(k, v). (py_lower k, v)) hs)))"

definition cache_key :: "('r, 'ip) proxy_env \<Rightarrow> string \<Rightarrow> (string, string) dict \<Rightarrow> string" where
  "cache_key env target hs =
     build_cache_key (pe_sha256 env) ''GET'' target [] (we_dumps (pe_worker env) (cache_variant hs))"

section \<open>Responses\<close>

definition from_upstream :: "upstream_response \<Rightarrow> string \<Rightarrow> response" where
  "from_upstream resp status =
     (let hs = AList.update ''X-Cache-Status'' status (AList.delete ''set-cookie'' (response_headers resp))
      in \<lparr>r_status = ur_status resp,
          r_headers = raw_headers hs @ map (\<lambda>cookie. (''set-cookie'', cookie)) (ur_set_cookie resp),
          r_content = Bytes (ur_content resp), r_media = None\<rparr>)"

definition from_cache :: "pyfloat \<Rightarrow> cached_response \<Rightarrow> bytes \<Rightarrow> string \<Rightarrow> response" where
  "from_cache now entry body status =
     (let hs = AList.update ''X-Cache-Age'' (fmt_fixed 0 (age_seconds now entry))
            (AList.update ''X-Cache-Status'' status (cr_headers entry))
      in \<lparr>r_status = cr_status entry, r_headers = raw_headers hs, r_content = Bytes body,
          r_media = cr_media_type entry\<rparr>)"

definition json_text :: "int \<Rightarrow> string \<Rightarrow> (string, string) dict \<Rightarrow> response" where
  \<comment> \<open>\<^verbatim>\<open>Response(content=..., media_type="application/json")\<close>\<close>
  "json_text status detail hs =
     \<lparr>r_status = status, r_headers = raw_headers hs,
      r_content = Bytes (latin1_encode detail), r_media = Some ''application/json''\<rparr>"

definition request_identity :: "'ip ip_lib \<Rightarrow> settings \<Rightarrow> request \<Rightarrow> request_state \<Rightarrow> string" where
  "request_identity ipl cfg rq st =
     (case st_user_id st of
        Some u \<Rightarrow> if u = [] then request_client_ip ipl cfg rq else u
      | None \<Rightarrow> request_client_ip ipl cfg rq)"

definition log_request :: "'ip ip_lib \<Rightarrow> settings \<Rightarrow> request \<Rightarrow> pyfloat \<Rightarrow> string \<Rightarrow> int \<Rightarrow> int \<Rightarrow> request_state \<Rightarrow> request_state" where
  "log_request ipl cfg rq now status status_code sz st =
     (let quality = (case st_network_quality st of Some q \<Rightarrow> q | None \<Rightarrow> NQ_GOOD);
          elapsed_ms = (case st_request_start st of
              Some start \<Rightarrow> if start = Fin 0 then Fin 0 else f_mul (f_sub now start) (Fin 1000)
            | None \<Rightarrow> Fin 0)
      in st\<lparr>st_request_log_record := Some
           \<lparr>lg_method = req_method rq, lg_path = req_path rq,
            lg_network_quality = quality_value quality, lg_cache_status = status,
            lg_status_code = status_code, lg_rtt_ms = elapsed_ms, lg_upstream_latency_ms = None,
            lg_response_size_original = sz, lg_response_size_optimized = None,
            lg_client_id = request_identity ipl cfg rq st\<rparr>\<rparr>)"

section \<open>Calling the upstream\<close>

definition call_result ::
  "settings \<Rightarrow> http_client \<Rightarrow> bool \<Rightarrow> string \<Rightarrow> string \<Rightarrow> (string, string) dict \<Rightarrow> bytes \<Rightarrow>
     (upstream_error, upstream_response) result" where
  "call_result cfg client deadline verb url hs body =
     (if deadline then Inl TimeoutException else bounded_request cfg client verb url hs body)"

definition call_upstream ::
  "('r, 'ip) proxy_env \<Rightarrow> proxy_clock \<Rightarrow> string \<Rightarrow> string \<Rightarrow> (string, string) dict \<Rightarrow> bytes \<Rightarrow> string \<Rightarrow> bool \<Rightarrow>
     'r proxy_state \<Rightarrow> (upstream_error, upstream_response) result \<times> 'r proxy_state" where
  \<comment> \<open>the last flag: the call is made for a request, not by a background refresh\<close>
  "call_upstream env ck verb url hs body service for_request s =
     (let elapsed = f_sub (pc_ended ck) (pc_started ck);
          prior = (case st_upstream_latency_ms (ps_request s) of Some x \<Rightarrow> x | None \<Rightarrow> Fin 0)
      in (call_result (pe_cfg env) (we_http (pe_worker env)) (pc_deadline ck) verb url hs body,
          s\<lparr>ps_calls := ps_calls s @ [\<lparr>uc_method = verb, uc_url = url, uc_headers = hs, uc_body = body\<rparr>],
            ps_effects := ps_effects s @ [ObserveUpstream service elapsed],
            ps_request := (if for_request
               then (ps_request s)\<lparr>st_upstream_latency_ms := Some (f_add prior (f_mul elapsed (Fin 1000)))\<rparr>
               else ps_request s)\<rparr>))"

definition store_response ::
  "('r, 'ip) proxy_env \<Rightarrow> proxy_clock \<Rightarrow> string \<Rightarrow> upstream_response \<Rightarrow> int \<Rightarrow> 'r \<Rightarrow> 'r" where
  "store_response env ck key resp fresh_for r =
     cache_set (pe_kv env) (pe_codec env) (pc_set ck) key
       (CachedResponse_build (pc_stored ck) (ur_status resp) (response_headers resp) (ur_content resp)
          (header_get (ur_headers resp) ''content-type'') fresh_for) r"

definition revalidate_lock :: "string \<Rightarrow> string" where
  "revalidate_lock key = ''revalidate:'' @ key"

definition refresh_cache ::
  "('r, 'ip) proxy_env \<Rightarrow> proxy_clock \<Rightarrow> refresh_task \<Rightarrow> ('r proxy_state, unit) io" where
  "refresh_cache env ck task s =
     (case call_upstream env ck ''GET'' (rt_url task) (rt_headers task) [] (rt_service task) False s of
        (res, s1) \<Rightarrow>
          let s2 = (case res of
                      Inr resp \<Rightarrow>
                        if response_cacheable resp
                        then s1\<lparr>ps_redis := store_response env ck (rt_key task) resp (rt_fresh_for task) (ps_redis s1)\<rparr>
                        else s1
                    | Inl _ \<Rightarrow> s1);
              s3 = s2\<lparr>ps_redis := release_lock (pe_kv env) (pc_release ck) (revalidate_lock (rt_key task)) (rt_token task) (ps_redis s2)\<rparr>
          in (if res = Inl InvalidURL then Inl ClientExn else Inr (), s3))"

section \<open>Reads\<close>

definition detail_text :: "string \<Rightarrow> string" where
  "detail_text d = ''{'' @ [CHR 0x22] @ ''detail'' @ [CHR 0x22] @ '':'' @ [CHR 0x22] @ d @ [CHR 0x22] @ ''}''"

definition serve_entry ::
  "('r, 'ip) proxy_env \<Rightarrow> proxy_clock \<Rightarrow> request \<Rightarrow> cached_response \<Rightarrow> string \<Rightarrow> ('r proxy_state, response) io" where
  "serve_entry env ck rq entry status =
     (case cr_body entry of
        None \<Rightarrow> io_raise (PyExn ValueError)
      | Some body \<Rightarrow>
          io_bind (on_request (log_request (pe_ip env) (pe_cfg env) rq (pc_logged ck) status (cr_status entry) (int (length body))))
            (\<lambda>_. io_return (from_cache (pc_age ck) entry body status)))"

definition start_refresh ::
  "('r, 'ip) proxy_env \<Rightarrow> proxy_clock \<Rightarrow> string \<Rightarrow> string \<Rightarrow> (string, string) dict \<Rightarrow> string \<Rightarrow> route_rule \<Rightarrow>
     ('r proxy_state, unit) io" where
  "start_refresh env ck key target fwd service rule =
     (let timeout = effective_timeout (pe_cfg env) rule
      in io_bind (py_io (py_int_of_json (JFloat timeout))) (\<lambda>seconds s.
           case acquire_lock (pe_kv env) (pc_lock ck) (pc_token ck) (revalidate_lock key)
                  (max (revalidate_lock_ttl_seconds (pe_cfg env)) (seconds + 5)) (ps_redis s) of
             (None, r1) \<Rightarrow> (Inr (), s\<lparr>ps_redis := r1\<rparr>)
           | (Some token, r1) \<Rightarrow>
               (Inr (), s\<lparr>ps_redis := r1,
                  ps_tasks := ps_tasks s @ (if token = [] then [] else
                    [\<lparr>rt_key = key, rt_url = target, rt_headers = fwd, rt_service = service,
                      rt_fresh_for = rr_cache_ttl rule, rt_token = token, rt_timeout = timeout\<rparr>])\<rparr>)))"

definition get_miss ::
  "('r, 'ip) proxy_env \<Rightarrow> proxy_clock \<Rightarrow> request \<Rightarrow> string \<Rightarrow> string \<Rightarrow> route_rule \<Rightarrow> (string, string) dict \<Rightarrow>
     string \<Rightarrow> bool \<Rightarrow> ('r proxy_state, response) io" where
  "get_miss env ck rq service target rule fwd key cacheable s =
     (let log = log_request (pe_ip env) (pe_cfg env) rq (pc_logged ck) ''MISS''
      in case call_upstream env ck ''GET'' target fwd [] service True s of
           (Inl InvalidURL, s1) \<Rightarrow> (Inl ClientExn, s1)
         | (Inl _, s1) \<Rightarrow>
             (Inr (json_text 503 (detail_text ''upstream unavailable'') []),
              s1\<lparr>ps_request := log 503 0 (ps_request s1)\<rparr>)
         | (Inr resp, s1) \<Rightarrow>
             (Inr (from_upstream resp (if cacheable then ''MISS'' else ''BYPASS'')),
              s1\<lparr>ps_redis := (if cacheable \<and> response_cacheable resp
                    then store_response env ck key resp (rr_cache_ttl rule) (ps_redis s1) else ps_redis s1),
                 ps_request := log (ur_status resp) (int (length (ur_content resp))) (ps_request s1)\<rparr>))"

definition lookup_io :: "('r, 'ip) proxy_env \<Rightarrow> proxy_clock \<Rightarrow> string \<Rightarrow> ('r proxy_state, cache_status \<times> cached_response option) io" where
  "lookup_io env ck key s =
     (case cache_get (pe_kv env) (pe_codec env) (pc_get ck) (pc_now ck) key (ps_redis s) of
        (res, r1) \<Rightarrow> (map_sum PyExn id res, s\<lparr>ps_redis := r1\<rparr>))"

definition handle_get ::
  "('r, 'ip) proxy_env \<Rightarrow> proxy_clock \<Rightarrow> request \<Rightarrow> string \<Rightarrow> string \<Rightarrow> route_rule \<Rightarrow> (string, string) dict \<Rightarrow>
     ('r proxy_state, response) io" where
  "handle_get env ck rq service target rule fwd =
     (let key = cache_key env target fwd;
          cacheable = (rr_cacheable rule \<and> cache_allowed rq)
      in io_bind (if cacheable then lookup_io env ck key else io_return (MISS, None)) (\<lambda>found.
           case found of
             (HIT, Some entry) \<Rightarrow>
               io_bind (emit (CacheEvent ''hit'')) (\<lambda>_.
               io_bind (on_request (\<lambda>st. st\<lparr>st_served_from_cache := Some True\<rparr>)) (\<lambda>_.
               serve_entry env ck rq entry ''HIT''))
           | (STALE, Some entry) \<Rightarrow>
               io_bind (emit (CacheEvent ''stale'')) (\<lambda>_.
               io_bind (on_request (\<lambda>st. st\<lparr>st_served_from_cache := Some True\<rparr>)) (\<lambda>_.
               io_bind (start_refresh env ck key target fwd service rule) (\<lambda>_.
               serve_entry env ck rq entry ''STALE'')))
           | _ \<Rightarrow>
               io_bind (emit (CacheEvent ''miss'')) (\<lambda>_.
               get_miss env ck rq service target rule fwd key cacheable)))"

section \<open>Writes\<close>

definition queue_eligible :: "bool \<Rightarrow> request \<Rightarrow> bool" where
  "queue_eligible queue_writes rq =
     (let key = header_or (req_headers rq) ''idempotency-key'' []
      in queue_writes \<and> req_method rq \<in> set write_methods \<and> 1 \<le> length key \<and> length key \<le> 128 \<and>
         py_isascii key \<and> py_isprintable key)"

definition queue_io :: "('r world, 'a) io \<Rightarrow> ('r proxy_state, 'a) io" where
  \<comment> \<open>queueing works on the server alone\<close>
  "queue_io m s =
     (case m \<lparr>w_redis = ps_redis s, w_failed = [], w_sent = [], w_cursor = []\<rparr> of
        (res, w) \<Rightarrow> (res, s\<lparr>ps_redis := w_redis w\<rparr>))"

definition queue_write ::
  "('r, 'ip) proxy_env \<Rightarrow> proxy_clock \<Rightarrow> request \<Rightarrow> string \<Rightarrow> (string, string) dict \<Rightarrow> bytes \<Rightarrow>
     ('r proxy_state, response) io" where
  "queue_write env ck rq target fwd body s =
     (case queue_io (enqueue_write (pe_worker env) (pc_enqueued ck) (req_method rq) target (req_path rq) fwd body
             (Some (request_identity (pe_ip env) (pe_cfg env) rq (ps_request s)))) s of
        (Inr msg_id, s1) \<Rightarrow>
          (Inr (json_text 202 (detail_text ''upstream unavailable; write queued for retry'')
                  [(''X-Queue-Id'', msg_id), (''X-Cache-Status'', ''QUEUED'')]),
           s1\<lparr>ps_request := log_request (pe_ip env) (pe_cfg env) rq (pc_logged ck) ''QUEUED'' 202 0 (ps_request s1)\<rparr>)
      | (Inl e, s1) \<Rightarrow>
          (if e = PyExn ValueError \<or> (case e of RedisExn _ \<Rightarrow> True | _ \<Rightarrow> False)
           then (Inr (json_error 503 ''queue unavailable; write outcome unknown''), s1)
           else (Inl e, s1)))"

definition handle_write ::
  "('r, 'ip) proxy_env \<Rightarrow> proxy_clock \<Rightarrow> request \<Rightarrow> string \<Rightarrow> string \<Rightarrow> (string, string) dict \<Rightarrow> bytes \<Rightarrow> bool \<Rightarrow>
     ('r proxy_state, response) io" where
  "handle_write env ck rq service target fwd body queue_writes s =
     (let log = log_request (pe_ip env) (pe_cfg env) rq (pc_logged ck);
          s0 = s\<lparr>ps_request := (ps_request s)\<lparr>st_optimizable := Some False\<rparr>\<rparr>
      in case call_upstream env ck (req_method rq) target fwd body service True s0 of
           (Inr resp, s1) \<Rightarrow>
             (Inr (from_upstream resp ''PASS''),
              s1\<lparr>ps_request := log ''PASS'' (ur_status resp) (int (length (ur_content resp))) (ps_request s1)\<rparr>)
         | (Inl e, s1) \<Rightarrow>
             if e \<in> {TimeoutException, ConnectError}
             then (if queue_eligible queue_writes rq then queue_write env ck rq target fwd body s1
                   else (Inr (json_error (if e = TimeoutException then 504 else 502)
                           ''upstream unavailable; write outcome unknown; not queued''), s1))
             else if e = InvalidURL then (Inl ClientExn, s1)
             else (Inr (json_text 502 (detail_text ''bad gateway'') []),
                   s1\<lparr>ps_request := log ''ERROR'' 502 0 (ps_request s1)\<rparr>))"

section \<open>The route\<close>

definition proxy_to ::
  "('r, 'ip) proxy_env \<Rightarrow> proxy_clock \<Rightarrow> bytes list \<Rightarrow> string \<Rightarrow> string \<Rightarrow> string \<Rightarrow> string option \<Rightarrow> request \<Rightarrow>
     ('r proxy_state, response) io" where
  "proxy_to env ck chunks service path base discovery_host rq s =
     (let cfg = pe_cfg env;
          rule = get_route_rule (we_rules (pe_worker env)) service;
          s0 = s\<lparr>ps_request := (ps_request s)
                 \<lparr>st_optimizable := Some (req_method rq = ''GET'' \<and> \<not> header_in ''range'' (req_headers rq)),
                  st_optional_fields := Some (rr_optional_fields rule),
                  st_served_from_cache := Some False\<rparr>\<rparr>
      in case build_target (we_bracket_ok (pe_worker env)) base path (req_query rq) of
           Inl e \<Rightarrow> if e = ValueError then (Inr (json_error 400 ''invalid upstream path''), s0) else (Inl (PyExn e), s0)
         | Inr target \<Rightarrow>
             (case read_chunks (max_request_body_bytes cfg) 0 [] chunks of
                Inl _ \<Rightarrow> (Inr (json_error 413 ''request body too large''), s0)
              | Inr body \<Rightarrow>
                  let fwd0 = forward_headers (pe_ip env) cfg rq (ps_request s0);
                      fwd = (case discovery_host of
                               Some h \<Rightarrow> if h = [] then fwd0 else AList.update ''host'' h fwd0
                             | None \<Rightarrow> fwd0)
                  in if req_method rq = ''GET'' then handle_get env ck rq service target rule fwd s0
                     else handle_write env ck rq service target fwd body (rr_queue_writes rule) s0))"

definition proxy ::
  "('r, 'ip) proxy_env \<Rightarrow> proxy_clock \<Rightarrow> bytes list \<Rightarrow> string \<Rightarrow> string \<Rightarrow> request \<Rightarrow> ('r proxy_state, response) io" where
  \<comment> \<open>the chunks: the request body as it arrives\<close>
  "proxy env ck chunks service path rq =
     (case map_of (upstream_services (pe_cfg env)) service of
        Some base \<Rightarrow> proxy_to env ck chunks service path base None rq
      | None \<Rightarrow>
          (case discover_upstream (pe_ip env) (pe_getaddrinfo env) (pe_cfg env) service of
             Inr (base, host) \<Rightarrow> proxy_to env ck chunks service path base (Some host) rq
           | Inl e \<Rightarrow> if e \<in> {ValueError, OSError} then io_return (json_error 404 ''unknown upstream service'')
                      else io_raise (PyExn e)))"

section \<open>Lemmas\<close>

lemmas io_steps = io_bind_def io_return_def io_raise_def py_io_def emit_def on_request_def

abbreviation upstream_call_of :: "request \<Rightarrow> string \<Rightarrow> (string, string) dict \<Rightarrow> bytes \<Rightarrow> upstream_call" where
  "upstream_call_of rq target fwd body \<equiv>
     \<lparr>uc_method = req_method rq, uc_url = target, uc_headers = fwd, uc_body = body\<rparr>"

lemma call_upstream_fields:
  assumes "call_upstream env ck verb url hs body service b s = (res, s')"
  shows "res = call_result (pe_cfg env) (we_http (pe_worker env)) (pc_deadline ck) verb url hs body"
    "ps_redis s' = ps_redis s" "ps_tasks s' = ps_tasks s"
    "ps_calls s' = ps_calls s @ [\<lparr>uc_method = verb, uc_url = url, uc_headers = hs, uc_body = body\<rparr>]"
    "st_served_from_cache (ps_request s') = st_served_from_cache (ps_request s)"
  using assms by (auto simp: call_upstream_def Let_def)

lemma get_miss_fields:
  assumes "get_miss env ck rq service target rule fwd key cacheable s = (res, s')"
  shows "ps_tasks s' = ps_tasks s"
    "ps_calls s' = ps_calls s @ [\<lparr>uc_method = ''GET'', uc_url = target, uc_headers = fwd, uc_body = []\<rparr>]"
    "\<not> cacheable \<Longrightarrow> ps_redis s' = ps_redis s"
    "call_result (pe_cfg env) (we_http (pe_worker env)) (pc_deadline ck) ''GET'' target fwd [] = Inr up \<Longrightarrow>
       res = Inr (from_upstream up (if cacheable then ''MISS'' else ''BYPASS'')) \<and>
       ps_redis s' = (if cacheable \<and> response_cacheable up
         then store_response env ck key up (rr_cache_ttl rule) (ps_redis s) else ps_redis s)"
proof -
  obtain q s1 where c: "call_upstream env ck ''GET'' target fwd [] service True s = (q, s1)" by fastforce
  note f = call_upstream_fields [OF c]
  note d = assms [unfolded get_miss_def Let_def c]
  show "ps_tasks s' = ps_tasks s" using d f by (auto split: sum.splits upstream_error.splits)
  show "ps_calls s' = ps_calls s @ [\<lparr>uc_method = ''GET'', uc_url = target, uc_headers = fwd, uc_body = []\<rparr>]"
    using d f by (auto split: sum.splits upstream_error.splits)
  show "\<not> cacheable \<Longrightarrow> ps_redis s' = ps_redis s" using d f by (auto split: sum.splits upstream_error.splits)
  show "call_result (pe_cfg env) (we_http (pe_worker env)) (pc_deadline ck) ''GET'' target fwd [] = Inr up \<Longrightarrow>
       res = Inr (from_upstream up (if cacheable then ''MISS'' else ''BYPASS'')) \<and>
       ps_redis s' = (if cacheable \<and> response_cacheable up
         then store_response env ck key up (rr_cache_ttl rule) (ps_redis s) else ps_redis s)"
    using d f by auto
qed

lemma handle_get_bypass:
  assumes "\<not> (rr_cacheable rule \<and> cache_allowed rq)"
  shows "handle_get env ck rq service target rule fwd s =
    get_miss env ck rq service target rule fwd (cache_key env target fwd) False
      (s\<lparr>ps_effects := ps_effects s @ [CacheEvent ''miss'']\<rparr>)"
proof -
  have "(rr_cacheable rule \<and> cache_allowed rq) = False" using assms by simp
  then show ?thesis unfolding handle_get_def Let_def by (simp only: if_False) (simp add: io_steps)
qed

text \<open>A run of \<open>handle_get\<close> on a cacheable request, by what the lookup found.\<close>

lemma handle_get_hit:
  assumes "rr_cacheable rule" "cache_allowed rq"
    and "cache_get (pe_kv env) (pe_codec env) (pc_get ck) (pc_now ck) (cache_key env target fwd) (ps_redis s)
           = (Inr (HIT, Some entry), r1)"
    and "cr_body entry = Some body"
  shows "\<exists>s'. handle_get env ck rq service target rule fwd s = (Inr (from_cache (pc_age ck) entry body ''HIT''), s') \<and>
    ps_redis s' = r1 \<and> ps_calls s' = ps_calls s \<and> ps_tasks s' = ps_tasks s \<and>
    st_served_from_cache (ps_request s') = Some True"
  using assms by (simp add: handle_get_def lookup_io_def serve_entry_def log_request_def Let_def io_steps)

lemma handle_get_stale:
  assumes "rr_cacheable rule" "cache_allowed rq"
    and "cache_get (pe_kv env) (pe_codec env) (pc_get ck) (pc_now ck) (cache_key env target fwd) (ps_redis s)
           = (Inr (STALE, Some entry), r1)"
    and "cr_body entry = Some body" and "effective_timeout (pe_cfg env) rule = Fin q"
    and "acquire_lock (pe_kv env) (pc_lock ck) (pc_token ck) (revalidate_lock (cache_key env target fwd))
           (max (revalidate_lock_ttl_seconds (pe_cfg env)) (trunc_rat q + 5)) r1 = (lease, r2)"
  shows "\<exists>s'. handle_get env ck rq service target rule fwd s = (Inr (from_cache (pc_age ck) entry body ''STALE''), s') \<and>
    ps_redis s' = r2 \<and> ps_calls s' = ps_calls s \<and>
    ps_tasks s' = ps_tasks s @ (case lease of None \<Rightarrow> [] | Some token \<Rightarrow> if token = [] then [] else
      [\<lparr>rt_key = cache_key env target fwd, rt_url = target, rt_headers = fwd, rt_service = service,
        rt_fresh_for = rr_cache_ttl rule, rt_token = token, rt_timeout = Fin q\<rparr>])"
  using assms
  by (cases lease) (simp_all add: handle_get_def lookup_io_def start_refresh_def serve_entry_def log_request_def Let_def io_steps)

lemma handle_get_miss:
  assumes "rr_cacheable rule" "cache_allowed rq"
    and "cache_get (pe_kv env) (pe_codec env) (pc_get ck) (pc_now ck) (cache_key env target fwd) (ps_redis s)
           = (Inr (MISS, e), r1)"
  shows "handle_get env ck rq service target rule fwd s =
    get_miss env ck rq service target rule fwd (cache_key env target fwd) True
      (s\<lparr>ps_redis := r1, ps_effects := ps_effects s @ [CacheEvent ''miss'']\<rparr>)"
  using assms by (simp add: handle_get_def lookup_io_def Let_def io_steps)

lemma handle_get_raised:
  assumes "rr_cacheable rule" "cache_allowed rq"
    and "cache_get (pe_kv env) (pe_codec env) (pc_get ck) (pc_now ck) (cache_key env target fwd) (ps_redis s) = (Inl e, r1)"
  shows "handle_get env ck rq service target rule fwd s = (Inl (PyExn e), s\<lparr>ps_redis := r1\<rparr>)"
  using assms by (simp add: handle_get_def lookup_io_def Let_def io_steps)

lemma handle_write_call:
  assumes "handle_write env ck rq service target fwd body qw s = (res, s')"
  shows "ps_calls s' = ps_calls s @ [upstream_call_of rq target fwd body]" "ps_tasks s' = ps_tasks s"
proof -
  let ?s0 = "s\<lparr>ps_request := (ps_request s)\<lparr>st_optimizable := Some False\<rparr>\<rparr>"
  obtain q s1 where c: "call_upstream env ck (req_method rq) target fwd body service True ?s0 = (q, s1)" by fastforce
  note f = call_upstream_fields [OF c]
  have qw: "queue_write env ck rq target fwd body s1 = (x, s2) \<Longrightarrow> ps_calls s2 = ps_calls s1 \<and> ps_tasks s2 = ps_tasks s1"
    for x s2 by (auto simp: queue_write_def queue_io_def split: prod.splits sum.splits if_splits)
  show "ps_calls s' = ps_calls s @ [upstream_call_of rq target fwd body]" "ps_tasks s' = ps_tasks s"
    using assms f qw [of res s'] unfolding handle_write_def Let_def c
    by (auto split: sum.splits if_splits)
qed

lemma handle_get_call:
  assumes "handle_get env ck rq service target rule fwd s = (res, s')"
  shows "ps_calls s' = ps_calls s \<or>
    ps_calls s' = ps_calls s @ [\<lparr>uc_method = ''GET'', uc_url = target, uc_headers = fwd, uc_body = []\<rparr>]"
proof (cases "rr_cacheable rule \<and> cache_allowed rq")
  case False
  show ?thesis using get_miss_fields(2) [OF assms [unfolded handle_get_bypass [OF False]]] by simp
next
  case True
  obtain q r1 where g: "cache_get (pe_kv env) (pe_codec env) (pc_get ck) (pc_now ck) (cache_key env target fwd) (ps_redis s) = (q, r1)"
    by fastforce
  show ?thesis
    using assms True g get_miss_fields(2) [of env ck rq service target rule fwd _ True]
    by (fastforce simp: handle_get_def lookup_io_def start_refresh_def serve_entry_def Let_def io_steps
        split: sum.splits prod.splits cache_status.splits option.splits if_splits)
qed

abbreviation routed_request :: "('r, 'ip) proxy_env \<Rightarrow> string \<Rightarrow> request \<Rightarrow> request_state \<Rightarrow> request_state" where
  "routed_request env service rq st \<equiv> st
     \<lparr>st_optimizable := Some (req_method rq = ''GET'' \<and> \<not> header_in ''range'' (req_headers rq)),
      st_optional_fields := Some (rr_optional_fields (get_route_rule (we_rules (pe_worker env)) service)),
      st_served_from_cache := Some False\<rparr>"

abbreviation with_host :: "string option \<Rightarrow> (string, string) dict \<Rightarrow> (string, string) dict" where
  "with_host host fwd \<equiv> case host of Some h \<Rightarrow> if h = [] then fwd else AList.update ''host'' h fwd | None \<Rightarrow> fwd"

lemma proxy_to_refused:
  assumes "build_target (we_bracket_ok (pe_worker env)) base path (req_query rq) = Inl e \<or>
      \<not> (int (length (concat chunks)) \<le> max_request_body_bytes (pe_cfg env) \<or> chunks = [])"
    and "proxy_to env ck chunks service path base host rq s = (res, s')"
  shows "ps_calls s' = ps_calls s"
  using assms read_chunks_eq [of "max_request_body_bytes (pe_cfg env)" "[]" chunks]
  by (auto simp: proxy_to_def Let_def split: sum.splits if_splits)

lemma proxy_to_handled:
  assumes "build_target (we_bracket_ok (pe_worker env)) base path (req_query rq) = Inr target"
    and "int (length (concat chunks)) \<le> max_request_body_bytes (pe_cfg env) \<or> chunks = []"
  shows "proxy_to env ck chunks service path base host rq s =
    (let rule = get_route_rule (we_rules (pe_worker env)) service;
         fwd = with_host host (forward_headers (pe_ip env) (pe_cfg env) rq (ps_request s));
         s0 = s\<lparr>ps_request := routed_request env service rq (ps_request s)\<rparr>
     in if req_method rq = ''GET'' then handle_get env ck rq service target rule fwd s0
        else handle_write env ck rq service target fwd (concat chunks) (rr_queue_writes rule) s0)"
proof -
  have "forward_headers (pe_ip env) (pe_cfg env) rq (routed_request env service rq (ps_request s)) =
      forward_headers (pe_ip env) (pe_cfg env) rq (ps_request s)" by (simp add: forward_headers_def)
  then show ?thesis
    using assms read_chunks_eq [of "max_request_body_bytes (pe_cfg env)" "[]" chunks]
    by (simp add: proxy_to_def Let_def)
qed

lemma proxy_to_call:
  assumes "proxy_to env ck chunks service path base host rq s = (res, s')"
  shows "ps_calls s' = ps_calls s \<or>
    (\<exists>target fwd. build_target (we_bracket_ok (pe_worker env)) base path (req_query rq) = Inr target \<and>
       (\<forall>k. k \<noteq> ''host'' \<longrightarrow> map_of fwd k = map_of (forward_headers (pe_ip env) (pe_cfg env) rq (ps_request s)) k) \<and>
       (length (concat chunks) \<le> nat (max_request_body_bytes (pe_cfg env)) \<or> chunks = []) \<and>
       ps_calls s' = ps_calls s @ [upstream_call_of rq target fwd (if req_method rq = ''GET'' then [] else concat chunks)])"
proof (cases "(\<exists>e. build_target (we_bracket_ok (pe_worker env)) base path (req_query rq) = Inl e) \<or>
    \<not> (int (length (concat chunks)) \<le> max_request_body_bytes (pe_cfg env) \<or> chunks = [])")
  case True
  then show ?thesis using proxy_to_refused [OF _ assms] by blast
next
  case False
  then obtain target where ok: "build_target (we_bracket_ok (pe_worker env)) base path (req_query rq) = Inr target"
      "int (length (concat chunks)) \<le> max_request_body_bytes (pe_cfg env) \<or> chunks = []"
    by (metis sum.exhaust)
  let ?own = "forward_headers (pe_ip env) (pe_cfg env) rq (ps_request s)"
  note run = assms [unfolded proxy_to_handled [OF ok] Let_def]
  have "ps_calls s' = ps_calls s \<or> ps_calls s' = ps_calls s @
      [upstream_call_of rq target (with_host host ?own) (if req_method rq = ''GET'' then [] else concat chunks)]"
  proof (cases "req_method rq = ''GET''")
    case True
    then show ?thesis using handle_get_call [OF run [unfolded if_P [OF True]]] by simp
  next
    case False
    then show ?thesis using handle_write_call(1) [OF run [unfolded if_not_P [OF False]]] by simp
  qed
  moreover have "length (concat chunks) \<le> nat (max_request_body_bytes (pe_cfg env)) \<or> chunks = []" using ok(2) by linarith
  moreover have "\<forall>k. k \<noteq> ''host'' \<longrightarrow> map_of (with_host host ?own) k = map_of ?own k" by (auto split: option.splits)
  ultimately show ?thesis using ok(1) by blast
qed

lemma forward_headers_get:
  "map_of (forward_headers ipl cfg rq st) k =
     (if k = ''X-Network-Quality'' then Some (quality_value (case st_network_quality st of Some q \<Rightarrow> q | None \<Rightarrow> NQ_GOOD))
      else if k = ''accept-encoding'' then Some ''identity''
      else if k = ''X-Forwarded-For'' then Some (request_client_ip ipl cfg rq)
      else if k \<in> set forwarding_names \<or> py_lower k \<in> set HOP_BY_HOP \<union>
              set (map (\<lambda>part. py_lower (py_strip part)) (py_split (CHR '','') (header_or (req_headers rq) ''connection'' [])))
      then None else map_of (rev (req_headers rq)) k)"
proof -
  let ?nom = "set (map (\<lambda>part. py_lower (py_strip part)) (py_split (CHR '','') (header_or (req_headers rq) ''connection'' [])))"
  have "clean_headers (req_headers rq) = filter (\<lambda>h. py_lower (fst h) \<notin> set HOP_BY_HOP \<union> ?nom) (req_headers rq)"
    by (simp add: clean_headers_def Let_def dict_get_def header_or_def case_prod_beta')
  then have "map_of (dict_of_items (clean_headers (req_headers rq))) k =
      (if py_lower k \<notin> set HOP_BY_HOP \<union> ?nom then map_of (rev (req_headers rq)) k else None)" for k
    by (simp only: map_of_dict_of_items rev_filter map_of_filter_key [where P = "\<lambda>k. py_lower k \<notin> set HOP_BY_HOP \<union> ?nom"])
  then show ?thesis
    by (simp add: forward_headers_def Let_def map_of_fold_delete)
qed

lemma py_lower_proxy_headers [simp]:
  "py_lower ''X-Queue-Id'' = ''x-queue-id''" "py_lower ''X-Cache-Status'' = ''x-cache-status''"
  "py_lower ''X-Cache-Age'' = ''x-cache-age''"
  by code_simp+

context redis_queue_laws
begin

lemma queue_write_run:
  assumes env: "we_q (pe_worker env) = qops"
    and run: "queue_write env ck rq target fwd body s = (Inr resp, s')"
  shows "r_status resp = 202 \<and>
      (\<exists>i. header_get (r_headers resp) ''x-queue-id'' = Some i \<and>
         sv (ps_redis s') (queue_stream_key (pe_cfg env)) = sv (ps_redis s) (queue_stream_key (pe_cfg env)) @
           [(i, queue_entry (pe_worker env) (pc_enqueued ck) (req_method rq) target (req_path rq) fwd body
              (Some (request_identity (pe_ip env) (pe_cfg env) rq (ps_request s))))]) \<or>
    r_status resp = 503"
proof -
  let ?w = "\<lparr>w_redis = ps_redis s, w_failed = [], w_sent = [], w_cursor = []\<rparr>"
  obtain q w where e: "enqueue_write (pe_worker env) (pc_enqueued ck) (req_method rq) target (req_path rq) fwd body
      (Some (request_identity (pe_ip env) (pe_cfg env) rq (ps_request s))) ?w = (q, w)" by fastforce
  show ?thesis
  proof (cases q)
    case (Inl x)
    then show ?thesis using run e
      by (auto simp: queue_write_def queue_io_def json_error_def split: if_splits)
  next
    case (Inr i)
    then show ?thesis using run e enqueue_run(2) [OF env e Inr]
      by (auto simp: queue_write_def queue_io_def json_text_def header_get_def raw_headers_def)
  qed
qed

end

section \<open>Properties\<close>

text \<open>
  C21.  A request is forwarded at most once and as it was received: every run of the route makes no
  upstream call or exactly one, and a call carries the request's method, the target built from the
  configured base (a discovered one only for a service without configuration), the forwarded headers (a discovered host may add its own Host) and,
  except for GET, the whole body, which is within the configured limit.
\<close>

theorem forwarded_at_most_once:
  assumes "proxy env ck chunks service path rq s = (res, s')"
  shows "ps_calls s' = ps_calls s \<or>
    (\<exists>base target fwd.
       (case map_of (upstream_services (pe_cfg env)) service of
          Some configured \<Rightarrow> base = configured
        | None \<Rightarrow> \<exists>host. discover_upstream (pe_ip env) (pe_getaddrinfo env) (pe_cfg env) service = Inr (base, host)) \<and>
       build_target (we_bracket_ok (pe_worker env)) base path (req_query rq) = Inr target \<and>
       (\<forall>k. k \<noteq> ''host'' \<longrightarrow> map_of fwd k = map_of (forward_headers (pe_ip env) (pe_cfg env) rq (ps_request s)) k) \<and>
       (length (concat chunks) \<le> nat (max_request_body_bytes (pe_cfg env)) \<or> chunks = []) \<and>
       ps_calls s' = ps_calls s @ [upstream_call_of rq target fwd (if req_method rq = ''GET'' then [] else concat chunks)])"
proof (cases "map_of (upstream_services (pe_cfg env)) service")
  case (Some base)
  then show ?thesis using proxy_to_call [of env ck chunks service path base None rq s res s'] assms
    by (auto simp: proxy_def)
next
  case None
  show ?thesis
  proof (cases "discover_upstream (pe_ip env) (pe_getaddrinfo env) (pe_cfg env) service")
    case (Inl e)
    then show ?thesis using assms None by (auto simp: proxy_def io_steps split: if_splits)
  next
    case (Inr found)
    then show ?thesis
      using proxy_to_call [of env ck chunks service path "fst found" "Some (snd found)" rq s res s'] assms None
      by (cases found) (auto simp: proxy_def)
  qed
qed

text \<open>
  C39.  A client cannot forge what the gateway tells the upstream about it: the forwarded headers name
  the client address and the network quality the gateway determined, carry no other spelling of a
  forwarding header, ask for an unencoded body, drop the hop-by-hop headers and those the Connection
  header nominates, and keep every other header of the client with its last value.
\<close>

theorem forwarded_headers_trusted:
  fixes ipl :: "'ip ip_lib" and cfg :: settings and rq :: request and st :: request_state
  assumes lower: "\<forall>h\<in>set (req_headers rq). py_lower (fst h) = fst h"
  defines "fwd \<equiv> forward_headers ipl cfg rq st"
    and "nominated \<equiv> set (map (\<lambda>part. py_lower (py_strip part)) (py_split (CHR '','') (header_or (req_headers rq) ''connection'' [])))"
  shows "map_of fwd ''X-Forwarded-For'' = Some (request_client_ip ipl cfg rq) \<and>
    map_of fwd ''X-Network-Quality'' = Some (quality_value (case st_network_quality st of Some q \<Rightarrow> q | None \<Rightarrow> NQ_GOOD)) \<and>
    (\<forall>k\<in>fst ` set fwd. py_lower k \<in> set forwarding_names \<longrightarrow> k \<in> {''X-Forwarded-For'', ''X-Network-Quality''}) \<and>
    map_of fwd ''accept-encoding'' = Some ''identity'' \<and>
    (\<forall>k. k \<notin> {''X-Forwarded-For'', ''X-Network-Quality'', ''accept-encoding''} \<longrightarrow>
       map_of fwd k = (if py_lower k \<in> set HOP_BY_HOP \<union> nominated \<or> k \<in> set forwarding_names then None
                       else map_of (rev (req_headers rq)) k))"
proof (intro conjI ballI impI allI)
  fix k assume k: "k \<in> fst ` set fwd" "py_lower k \<in> set forwarding_names"
  show "k \<in> {''X-Forwarded-For'', ''X-Network-Quality''}"
  proof (rule ccontr)
    assume other: "k \<notin> {''X-Forwarded-For'', ''X-Network-Quality''}"
    from k(1) have "map_of fwd k \<noteq> None" by (simp add: map_of_eq_None_iff)
    moreover have ae: "k \<noteq> ''accept-encoding''" using k(2) by (auto simp: forwarding_names_def py_eval)
    ultimately have "map_of (rev (req_headers rq)) k \<noteq> None" "k \<notin> set forwarding_names"
      using other unfolding fwd_def forward_headers_get by (auto split: if_splits)
    then have "k \<in> fst ` set (req_headers rq)" by (metis map_of_eq_None_iff set_rev)
    with lower k(2) \<open>k \<notin> set forwarding_names\<close> show False by auto
  qed
qed (auto simp: fwd_def nominated_def forward_headers_get)

text \<open>
  C8.  Private requests never meet the shared cache: a GET that carries credentials, cookies, a range
  or a precondition, or that asks for a fresh copy, leaves the server as it is, starts no background
  refresh, goes to the upstream, and returns what the upstream sent as a bypass.
\<close>

theorem private_request_bypasses_cache:
  assumes priv: "(\<exists>name \<in> {''authorization'', ''x-api-key'', ''cookie'', ''range'', ''if-range'', ''if-match'',
        ''if-none-match'', ''if-modified-since'', ''if-unmodified-since''}. header_in name (req_headers rq)) \<or>
      (\<exists>directive \<in> {''no-cache'', ''no-store'', ''max-age=0''}.
        py_contains directive (py_lower (header_or (req_headers rq) ''cache-control'' [])))"
    and run: "handle_get env ck rq service target rule fwd s = (res, s')"
  shows "ps_redis s' = ps_redis s \<and> ps_tasks s' = ps_tasks s \<and>
    ps_calls s' = ps_calls s @ [\<lparr>uc_method = ''GET'', uc_url = target, uc_headers = fwd, uc_body = []\<rparr>] \<and>
    (\<forall>up. call_result (pe_cfg env) (we_http (pe_worker env)) (pc_deadline ck) ''GET'' target fwd [] = Inr up \<longrightarrow>
       res = Inr (from_upstream up ''BYPASS''))"
proof -
  have "\<not> (rr_cacheable rule \<and> cache_allowed rq)"
    using priv by (auto simp: cache_allowed_def private_request_headers_def)
  note miss = run [unfolded handle_get_bypass [OF this]]
  show ?thesis using get_miss_fields [OF miss] by simp
qed

text \<open>
  C22.  A write is answered truthfully.  The upstream is called exactly once.  If it answered, the answer
  is passed on and the server is left alone.  If it timed out or could not be reached and the request
  is eligible, 202 is returned only when the queue has grown by exactly this write under the
  identifier the client is given, and 503 otherwise; every other failure is 502 or 504 and queues nothing.
\<close>

theorem write_outcome_truthful:
  assumes laws: "redis_queue_laws (pe_kv env) view (we_q (pe_worker env)) hv sv"
    and run: "handle_write env ck rq service target fwd body queue_writes s = (Inr resp, s')"
  defines "key \<equiv> queue_stream_key (pe_cfg env)"
  shows "ps_calls s' = ps_calls s @ [upstream_call_of rq target fwd body] \<and>
    (case call_result (pe_cfg env) (we_http (pe_worker env)) (pc_deadline ck) (req_method rq) target fwd body of
       Inr up \<Rightarrow> resp = from_upstream up ''PASS'' \<and> ps_redis s' = ps_redis s
     | Inl e \<Rightarrow>
         if e \<in> {TimeoutException, ConnectError} \<and> queue_eligible queue_writes rq
         then r_status resp = 202 \<and>
              (\<exists>i. header_get (r_headers resp) ''x-queue-id'' = Some i \<and>
                 sv (ps_redis s') key = sv (ps_redis s) key @
                   [(i, queue_entry (pe_worker env) (pc_enqueued ck) (req_method rq) target (req_path rq) fwd body
                      (Some (request_identity (pe_ip env) (pe_cfg env) rq (ps_request s))))]) \<or>
              r_status resp = 503
         else r_status resp \<in> {502, 504} \<and> ps_redis s' = ps_redis s)"
proof -
  let ?s0 = "s\<lparr>ps_request := (ps_request s)\<lparr>st_optimizable := Some False\<rparr>\<rparr>"
  obtain q s1 where c: "call_upstream env ck (req_method rq) target fwd body service True ?s0 = (q, s1)" by fastforce
  note f = call_upstream_fields [OF c]
  have id: "request_identity (pe_ip env) (pe_cfg env) rq (ps_request s1) =
      request_identity (pe_ip env) (pe_cfg env) rq (ps_request s)"
    using c by (auto simp: call_upstream_def Let_def request_identity_def)
  have q: "call_result (pe_cfg env) (we_http (pe_worker env)) (pc_deadline ck) (req_method rq) target fwd body = q"
    using f(1) by simp
  note d = run [unfolded handle_write_def Let_def c]
  note queued = redis_queue_laws.queue_write_run [OF laws refl, of ck rq target fwd body s1 resp s']
  show ?thesis
    using d f(2) queued handle_write_call(1) [OF run] unfolding q key_def id
    by (cases q) (auto simp: json_error_def json_text_def split: if_splits)
qed

text \<open>
  C25.  Stale-while-revalidate is single flight: while a refresh that a stale read started holds its
  lease, every other stale read of the same key is answered from the cache at once, without an
  upstream call and without starting a second refresh.
\<close>

theorem stale_read_single_flight:
  assumes laws: "redis_kv_laws (pe_kv env) view"
    and cacheable: "rr_cacheable rule" "cache_allowed rq1" "cache_allowed rq2"
    and finite: "effective_timeout (pe_cfg env) rule = Fin q" "0 \<le> q"
    and stale1: "cache_get (pe_kv env) (pe_codec env) (pc_get ck1) (pc_now ck1) (cache_key env target fwd) (ps_redis s1)
        = (Inr (STALE, Some entry1), r1)" "cr_body entry1 = Some body1"
    and run1: "handle_get env ck1 rq1 service target rule fwd s1 = (res1, s1')"
    and started: "ps_tasks s1' \<noteq> ps_tasks s1"
    and between: "pc_lock ck1 \<le> pc_lock ck2"
      "pc_lock ck2 < pc_lock ck1 + max (revalidate_lock_ttl_seconds (pe_cfg env)) (\<lfloor>q\<rfloor> + 5) * 1000"
      "\<And>v. view (pc_lock ck2) (ps_redis s1') (lock_key (revalidate_lock (cache_key env target fwd))) = Some v \<Longrightarrow>
        view (pc_lock ck2) r2 (lock_key (revalidate_lock (cache_key env target fwd))) = Some v"
    and stale2: "cache_get (pe_kv env) (pe_codec env) (pc_get ck2) (pc_now ck2) (cache_key env target fwd) (ps_redis s2)
        = (Inr (STALE, Some entry2), r2)" "cr_body entry2 = Some body2"
  shows "res1 = Inr (from_cache (pc_age ck1) entry1 body1 ''STALE'') \<and> ps_calls s1' = ps_calls s1 \<and>
    (\<exists>task. ps_tasks s1' = ps_tasks s1 @ [task] \<and> rt_key task = cache_key env target fwd \<and> rt_url task = target \<and>
       rt_headers task = fwd \<and> rt_token task = pc_token ck1) \<and>
    (\<exists>s2'. handle_get env ck2 rq2 service target rule fwd s2 = (Inr (from_cache (pc_age ck2) entry2 body2 ''STALE''), s2') \<and>
       ps_calls s2' = ps_calls s2 \<and> ps_tasks s2' = ps_tasks s2)"
proof -
  let ?name = "revalidate_lock (cache_key env target fwd)"
  let ?ttl = "max (revalidate_lock_ttl_seconds (pe_cfg env)) (trunc_rat q + 5)"
  have trunc: "trunc_rat q = \<lfloor>q\<rfloor>" using finite(2) by (simp add: trunc_rat_def)
  have "0 \<le> \<lfloor>q\<rfloor>" using finite(2) by simp
  then have ttl: "0 < ?ttl" "trunc_rat q = \<lfloor>q\<rfloor>" unfolding trunc by linarith+
  obtain lease1 r1' where l1: "acquire_lock (pe_kv env) (pc_lock ck1) (pc_token ck1) ?name ?ttl r1 = (lease1, r1')" by fastforce
  obtain lease2 r2' where l2: "acquire_lock (pe_kv env) (pc_lock ck2) (pc_token ck2) ?name ?ttl r2 = (lease2, r2')" by fastforce
  note get1 = handle_get_stale [OF cacheable(1,2) stale1 finite(1) l1, of service]
  note get2 = handle_get_stale [OF cacheable(1,3) stale2 finite(1) l2, of service]
  from get1 run1 started obtain token where token: "lease1 = Some token" "token \<noteq> []"
    by (auto split: option.splits if_splits)
  note granted = redis_kv_laws.acquire_granted [OF laws l1 [unfolded token(1)] ttl(1)]
  have "ps_redis s1' = r1'" using get1 run1 by auto
  then have "view (pc_lock ck2) r2 (lock_key ?name) = Some (pc_token ck1)"
    using granted(3) [OF between(1)] between(2,3) unfolding ttl(2) by simp
  from redis_kv_laws.acquire_busy(1) [OF laws l2 ttl(1) this] have "lease2 = None" .
  with get1 get2 run1 token granted(1) show ?thesis by auto
qed

text \<open>
  C24.  What a miss stored is what later reads get: after a read that went to the upstream and got a
  cacheable answer, a read with the same key, before the answer's freshness ends and with nobody else
  writing the key, is answered with the same status and bytes and without an upstream call.
\<close>

theorem miss_then_hit:
  assumes laws: "redis_kv_laws (pe_kv env) view"
    and cacheable: "rr_cacheable rule" "0 < rr_cache_ttl rule" "cache_allowed rq1" "cache_allowed rq2"
    and run1: "handle_get env ck1 rq1 service target rule fwd s1 = (res1, s1')"
    and missed: "cache_get (pe_kv env) (pe_codec env) (pc_get ck1) (pc_now ck1) (cache_key env target fwd) (ps_redis s1)
        = (Inr (MISS, None), r1)"
    and answer: "call_result (pe_cfg env) (we_http (pe_worker env)) (pc_deadline ck1) ''GET'' target fwd [] = Inr up"
      "response_cacheable up"
    and codec: "entry = CachedResponse_build (pc_stored ck1) (ur_status up) (response_headers up) (ur_content up)
        (header_get (ur_headers up) ''content-type'') (rr_cache_ttl rule)"
      "model_validate_json (pe_codec env) (model_dump_json (pe_codec env) entry) = Inr entry"
    and stored: "\<And>v ttl. fst (rk_set (pe_kv env) (pc_set ck1) (cache_key env target fwd) v ttl r1) = Inr ()"
    and later: "pc_set ck1 \<le> pc_get ck2" "pc_get ck2 < pc_set ck1 + rr_cache_ttl rule * 1000"
      "view (pc_get ck2) (ps_redis s2) (cache_key env target fwd) = view (pc_get ck2) (ps_redis s1') (cache_key env target fwd)"
      "\<not> f_le (Fin (of_int (rr_cache_ttl rule))) (f_sub (pc_now ck2) (pc_stored ck1))"
    and answers: "rk_get (pe_kv env) (pc_get ck2) (cache_key env target fwd) (ps_redis s2) = (Inr raw, r2)"
  shows "res1 = Inr (from_upstream up ''MISS'') \<and>
    (\<exists>resp s2'. handle_get env ck2 rq2 service target rule fwd s2 = (Inr resp, s2') \<and>
       r_status resp = ur_status up \<and> r_content resp = Bytes (ur_content up) \<and>
       ps_calls s2' = ps_calls s2 \<and> ps_tasks s2' = ps_tasks s2)"
proof -
  let ?key = "cache_key env target fwd" and ?ttl = "rr_cache_ttl rule"
  have first: "res1 = Inr (from_upstream up ''MISS'') \<and> ps_redis s1' = store_response env ck1 ?key up ?ttl r1"
    using get_miss_fields(4) [OF run1 [unfolded handle_get_miss [OF cacheable(1,3) missed]] answer(1)] answer(2) by simp
  have age: "cr_fresh_for entry = ?ttl" "cr_stored_at entry = pc_stored ck1" "cr_status entry = ur_status up"
    by (simp_all add: codec(1) CachedResponse_build_def)
  obtain r' where set: "rk_set (pe_kv env) (pc_set ck1) ?key (model_dump_json (pe_codec env) entry)
      (?ttl + STALE_GRACE_SECONDS) r1 = (Inr (), r')" using stored by (metis prod.collapse)
  have s1': "ps_redis s1' = r'"
    using first set cacheable(2) by (simp add: store_response_def cache_set_def codec(1) [symmetric] age(1) STALE_GRACE_SECONDS_def Let_def max_def)
  have "put_from view (pc_set ck1) ?key (model_dump_json (pe_codec env) entry) (?ttl + STALE_GRACE_SECONDS) r1 r'"
    using redis_kv_laws.set_effect [OF laws set] cacheable(2) by (simp add: effected_def STALE_GRACE_SECONDS_def)
  then have "raw = Some (model_dump_json (pe_codec env) entry)"
    using redis_kv_laws.get_reply [OF laws answers] later(1-3) s1' by (simp add: put_from_def STALE_GRACE_SECONDS_def)
  moreover have body: "cr_body entry = Some (ur_content up)" by (simp add: codec(1))
  ultimately have "cache_get (pe_kv env) (pe_codec env) (pc_get ck2) (pc_now ck2) ?key (ps_redis s2) = (Inr (HIT, Some entry), r2)"
    using answers codec(2) later(4) body by (simp add: cache_get_def is_stale_def age_seconds_def age)
  from handle_get_hit [OF cacheable(1,4) this body, of service] first show ?thesis
    by (auto simp: from_cache_def Let_def age)
qed

text \<open>
  The key that is checked is the first Idempotency-Key header, the key that is queued is the last one:
  a request with two of them can queue a write under a key the check would refuse.
\<close>

lemma checked_key_not_queued:
  "\<exists>rq. queue_eligible True rq \<and>
     (\<exists>key. map_of (forward_headers ipl cfg rq st) ''idempotency-key'' = Some key \<and> 128 < length key)"
proof (intro exI conjI)
  let ?rq = "\<lparr>req_method = ''POST'', req_path = [], req_query = [],
      req_headers = [(''idempotency-key'', ''k''), (''idempotency-key'', replicate 129 (CHR ''x''))], req_client = None\<rparr>"
  show "queue_eligible True ?rq"
    by (simp add: queue_eligible_def write_methods_def header_or_def py_eval Let_def)
  show "map_of (forward_headers ipl cfg ?rq st) ''idempotency-key'' = Some (replicate 129 (CHR ''x''))"
    by (simp add: forward_headers_get forwarding_names_def HOP_BY_HOP_def header_or_def py_eval)
qed simp

section \<open>Witnesses\<close>

definition demo_page :: http_client where
  "demo_page verb url hs body = Inr \<lparr>us_status = 200, us_headers = [], us_chunks = [[72, 105]]\<rparr>"

definition demo_proxy_env :: "http_client \<Rightarrow> (mem_redis, string) proxy_env" where
  "demo_proxy_env http = \<lparr>pe_worker = demo_queue_env http, pe_codec = demo_codec, pe_sha256 = (\<lambda>_. ''d''),
     pe_ip = demo_ip, pe_getaddrinfo = (\<lambda>_. Inl OSError)\<rparr>"

definition demo_proxy_clock :: proxy_clock where
  "demo_proxy_clock = \<lparr>pc_get = 0, pc_now = Fin 1000, pc_lock = 0, pc_token = ''t'', pc_started = Fin 0,
     pc_ended = Fin 0, pc_deadline = False, pc_stored = Fin 1000, pc_set = 0, pc_enqueued = Fin 0,
     pc_logged = Fin 0, pc_age = Fin 1000, pc_release = 0\<rparr>"

definition demo_proxy_request :: "string \<Rightarrow> headers \<Rightarrow> request" where
  "demo_proxy_request verb hs = \<lparr>req_method = verb, req_path = ''/proxy/s/x'', req_query = [], req_headers = hs,
     req_client = Some ''c''\<rparr>"

definition demo_proxy_state :: "mem_redis proxy_state" where
  "demo_proxy_state = \<lparr>ps_redis = mem_empty, ps_calls = [], ps_tasks = [], ps_request = fresh_state, ps_effects = []\<rparr>"

abbreviation demo_rule :: route_rule where
  "demo_rule \<equiv> RouteRule_default\<lparr>rr_queue_writes := True\<rparr>"

lemma demo_proxy_simps [simp]:
  "pe_worker (demo_proxy_env h) = demo_queue_env h" "pe_codec (demo_proxy_env h) = demo_codec"
  "pe_ip (demo_proxy_env h) = demo_ip" "cache_key (demo_proxy_env h) url hs = ''cache:v2:d''"
  "ps_redis demo_proxy_state = mem_empty" "ps_calls demo_proxy_state = []" "ps_tasks demo_proxy_state = []"
  "ps_request demo_proxy_state = fresh_state"
  by (simp_all add: demo_proxy_env_def cache_key_def build_cache_key_def demo_proxy_state_def)

lemma demo_clock_simps [simp]:
  "pc_get demo_proxy_clock = 0" "pc_now demo_proxy_clock = Fin 1000" "pc_lock demo_proxy_clock = 0"
  "pc_token demo_proxy_clock = ''t''" "pc_deadline demo_proxy_clock = False" "pc_stored demo_proxy_clock = Fin 1000"
  "pc_set demo_proxy_clock = 0" "pc_age demo_proxy_clock = Fin 1000"
  by (simp_all add: demo_proxy_clock_def)

lemma demo_rule_simps [simp]:
  "rr_cacheable demo_rule" "rr_cache_ttl demo_rule = 60" "effective_timeout demo_queue_settings demo_rule = Fin 10"
  by (simp_all add: RouteRule_default_def effective_timeout_def demo_queue_settings_def default_settings_def)

lemma demo_allowed: "cache_allowed (demo_proxy_request ''GET'' [])"
  by (simp add: cache_allowed_def demo_proxy_request_def private_request_headers_def header_in_def header_or_def py_lower_def)

definition demo_up :: upstream_response where
  "demo_up = \<lparr>ur_status = 200, ur_headers = [], ur_content = [72, 105], ur_set_cookie = []\<rparr>"

lemma demo_up_result: "call_result demo_queue_settings demo_page False verb url hs body = Inr demo_up"
  by (simp add: call_result_def bounded_request_def demo_page_def bounded_response_def joined_headers_def
      clean_headers_def dict_get_def demo_up_def Let_def)

lemma demo_up_cacheable: "response_cacheable demo_up"
  by (simp add: response_cacheable_def demo_up_def header_in_def)

theorem private_request_bypasses_cache_witness:
  "\<exists>s'. handle_get (demo_proxy_env demo_page) demo_proxy_clock (demo_proxy_request ''GET'' [(''cookie'', ''a=b'')])
       ''s'' ''http://h/x'' demo_rule [] demo_proxy_state = (Inr (from_upstream demo_up ''BYPASS''), s') \<and>
     ps_redis s' = mem_empty"
proof -
  obtain res s' where run: "handle_get (demo_proxy_env demo_page) demo_proxy_clock
      (demo_proxy_request ''GET'' [(''cookie'', ''a=b'')]) ''s'' ''http://h/x'' demo_rule [] demo_proxy_state = (res, s')"
    by fastforce
  from private_request_bypasses_cache [OF _ run] run demo_up_result show ?thesis
    by (simp add: demo_proxy_request_def header_in_def)
qed

theorem forwarded_headers_trusted_witness:
  "map_of (forward_headers demo_ip demo_ip_settings
       (demo_proxy_request ''GET'' [(''x-forwarded-for'', ''victim''), (''forwarded'', ''for=victim''), (''a'', ''1''), (''a'', ''2'')])
       fresh_state) ''X-Forwarded-For'' = Some ''c'' \<and>
   map_of (forward_headers demo_ip demo_ip_settings
       (demo_proxy_request ''GET'' [(''x-forwarded-for'', ''victim''), (''forwarded'', ''for=victim''), (''a'', ''1''), (''a'', ''2'')])
       fresh_state) ''a'' = Some ''2''"
proof -
  let ?rq = "demo_proxy_request ''GET'' [(''x-forwarded-for'', ''victim''), (''forwarded'', ''for=victim''), (''a'', ''1''), (''a'', ''2'')]"
  have "request_client_ip demo_ip demo_ip_settings ?rq = ''c''"
    by (simp add: request_client_ip_def client_ip_def demo_proxy_request_def demo_ip_defs)
  then show ?thesis
    using forwarded_headers_trusted [of ?rq demo_ip demo_ip_settings fresh_state]
    by (simp add: demo_proxy_request_def py_eval header_or_def HOP_BY_HOP_def forwarding_names_def)
qed

theorem forwarded_at_most_once_witness:
  "\<exists>s'. proxy (demo_proxy_env demo_page) demo_proxy_clock [[1], [2]] ''s'' ''x''
       (demo_proxy_request ''POST'' []) demo_proxy_state = (Inr (from_upstream demo_up ''PASS''), s') \<and>
     length (ps_calls s') = 1 \<and> uc_url (hd (ps_calls s')) = ''http://h/x'' \<and> uc_body (hd (ps_calls s')) = [1, 2]"
proof -
  let ?rq = "demo_proxy_request ''POST'' []"
  have t: "build_target (\<lambda>_. True) ''http://h'' ''x'' [] = Inr ''http://h/x''" by code_simp
  have "fst (proxy (demo_proxy_env demo_page) demo_proxy_clock [[1], [2]] ''s'' ''x'' ?rq demo_proxy_state) =
      Inr (from_upstream demo_up ''PASS'')" "ps_calls (snd (proxy (demo_proxy_env demo_page) demo_proxy_clock
      [[1], [2]] ''s'' ''x'' ?rq demo_proxy_state)) \<noteq> []"
    using demo_up_result
    by (simp_all add: proxy_def proxy_to_def t Let_def handle_write_def call_upstream_def demo_proxy_request_def)
  then obtain s' where run: "proxy (demo_proxy_env demo_page) demo_proxy_clock [[1], [2]] ''s'' ''x'' ?rq demo_proxy_state =
      (Inr (from_upstream demo_up ''PASS''), s')" "ps_calls s' \<noteq> []"
    by (metis prod.collapse snd_conv)
  with forwarded_at_most_once [OF run(1)] t show ?thesis by (auto simp: demo_proxy_request_def)
qed

lemma demo_miss:
  "cache_get mem_kv demo_codec 0 (Fin 1000) ''cache:v2:d'' mem_empty = (Inr (MISS, None), mem_empty)"
  by (simp add: cache_get_def mem_kv_def mem_empty_def mem_view_def)

lemma demo_up_entry:
  "CachedResponse_build (Fin 1000) (ur_status demo_up) (response_headers demo_up) (ur_content demo_up)
     (header_get (ur_headers demo_up) ''content-type'') 60 = demo_entry"
  by (simp add: demo_up_def response_headers_def clean_headers_def header_get_def demo_entry_def Let_def)

theorem miss_then_hit_witness:
  "\<exists>res1 s1 resp s2.
     handle_get (demo_proxy_env demo_page) demo_proxy_clock (demo_proxy_request ''GET'' []) ''s'' ''http://h/x'' demo_rule []
       demo_proxy_state = (res1, s1) \<and>
     handle_get (demo_proxy_env demo_page) (demo_proxy_clock\<lparr>pc_get := 1, pc_now := Fin 1001\<rparr>)
       (demo_proxy_request ''GET'' []) ''s'' ''http://h/x'' demo_rule [] s1 = (Inr resp, s2) \<and>
     r_content resp = Bytes [72, 105] \<and> ps_calls s2 = ps_calls s1"
proof -
  obtain res1 s1 where run: "handle_get (demo_proxy_env demo_page) demo_proxy_clock (demo_proxy_request ''GET'' []) ''s''
      ''http://h/x'' demo_rule [] demo_proxy_state = (res1, s1)" by fastforce
  have "handle_get (demo_proxy_env demo_page) demo_proxy_clock (demo_proxy_request ''GET'' []) ''s'' ''http://h/x'' demo_rule []
      demo_proxy_state = get_miss (demo_proxy_env demo_page) demo_proxy_clock (demo_proxy_request ''GET'' []) ''s'' ''http://h/x''
      demo_rule [] ''cache:v2:d'' True (demo_proxy_state\<lparr>ps_redis := mem_empty, ps_effects := ps_effects demo_proxy_state @ [CacheEvent ''miss'']\<rparr>)"
    using handle_get_miss [of demo_rule "demo_proxy_request ''GET'' []" "demo_proxy_env demo_page" demo_proxy_clock
        "''http://h/x''" "[]" demo_proxy_state None mem_empty "''s''"] demo_allowed demo_miss by simp
  with run get_miss_fields(4) [of "demo_proxy_env demo_page" demo_proxy_clock] demo_up_result demo_up_cacheable
  have s1: "ps_redis s1 = store_response (demo_proxy_env demo_page) demo_proxy_clock ''cache:v2:d'' demo_up 60 mem_empty"
    by (simp add: demo_rule_simps)
  then have up: "m_up (ps_redis s1)"
    by (simp add: store_response_def cache_set_def mem_kv_def mem_put_def mem_empty_def Let_def)
  have "res1 = Inr (from_upstream demo_up ''MISS'') \<and>
    (\<exists>resp s2. handle_get (demo_proxy_env demo_page) (demo_proxy_clock\<lparr>pc_get := 1, pc_now := Fin 1001\<rparr>)
       (demo_proxy_request ''GET'' []) ''s'' ''http://h/x'' demo_rule [] s1 = (Inr resp, s2) \<and>
       r_status resp = ur_status demo_up \<and> r_content resp = Bytes (ur_content demo_up) \<and>
       ps_calls s2 = ps_calls s1 \<and> ps_tasks s2 = ps_tasks s1)"
    by (rule miss_then_hit [where view = mem_view and ?r1.0 = mem_empty and entry = demo_entry, OF _ _ _ demo_allowed demo_allowed run])
       (use mem.redis_kv_laws_axioms demo_miss demo_up_result demo_up_cacheable demo_up_entry up
         in \<open>simp_all add: demo_codec_def f_sub_def mem_kv_def mem_empty_def\<close>)
  with run show ?thesis by (auto simp: demo_up_def)
qed

definition demo_stale_state :: "mem_redis proxy_state" where
  "demo_stale_state = demo_proxy_state\<lparr>ps_redis := mem_put ''cache:v2:d'' ''{}'' None mem_empty\<rparr>"

lemma demo_stale:
  "m_up r \<Longrightarrow> m_kv r ''cache:v2:d'' = Some (''{}'', None) \<Longrightarrow>
   cache_get mem_kv demo_codec 0 (Fin 2000) ''cache:v2:d'' r = (Inr (STALE, Some demo_entry), r)"
  using b64_of_int [of 1000]
  by (simp add: cache_get_def mem_kv_def mem_view_def demo_codec_def is_stale_def age_seconds_def f_sub_def demo_entry_def)
     (simp add: CachedResponse_build_def)

theorem stale_read_single_flight_witness:
  "\<exists>s1 s2. handle_get (demo_proxy_env demo_page) (demo_proxy_clock\<lparr>pc_now := Fin 2000\<rparr>) (demo_proxy_request ''GET'' []) ''s''
       ''http://h/x'' demo_rule [] demo_stale_state = (Inr (from_cache (Fin 1000) demo_entry [72, 105] ''STALE''), s1) \<and>
     handle_get (demo_proxy_env demo_page) (demo_proxy_clock\<lparr>pc_now := Fin 2000, pc_lock := 1, pc_token := ''u''\<rparr>)
       (demo_proxy_request ''GET'' []) ''s'' ''http://h/x'' demo_rule [] s1 =
       (Inr (from_cache (Fin 1000) demo_entry [72, 105] ''STALE''), s2) \<and>
     length (ps_tasks s1) = 1 \<and> ps_tasks s2 = ps_tasks s1 \<and> ps_calls s2 = []"
proof -
  let ?env = "demo_proxy_env demo_page" and ?rq = "demo_proxy_request ''GET'' []"
  let ?ck = "demo_proxy_clock\<lparr>pc_now := Fin 2000\<rparr>" and ?later = "demo_proxy_clock\<lparr>pc_now := Fin 2000, pc_lock := 1, pc_token := ''u''\<rparr>"
  let ?key = "''cache:v2:d''" and ?lock = "lock_key (revalidate_lock ''cache:v2:d'')"
  let ?r = "mem_put ?key ''{}'' None mem_empty"
  have body: "cr_body demo_entry = Some [72, 105]" by (simp add: demo_entry_def)
  have ttl: "revalidate_lock_ttl_seconds demo_queue_settings = 10" "trunc_rat 10 = 10"
    by (simp_all add: demo_queue_settings_def default_settings_def trunc_rat_def)
  have key: "?lock \<noteq> ?key" by (simp add: lock_key_def revalidate_lock_def)
  have l: "acquire_lock mem_kv 0 ''t'' (revalidate_lock ?key) 15 ?r = (Some ''t'', mem_put ?lock ''t'' (Some 15000) ?r)"
    using key by (simp add: acquire_lock_def mem_kv_def mem_view_def mem_put_def mem_empty_def)
  have stale1: "cache_get mem_kv demo_codec 0 (Fin 2000) ?key ?r = (Inr (STALE, Some demo_entry), ?r)"
    by (rule demo_stale) (simp_all add: mem_put_def mem_empty_def)
  obtain s1 where run: "handle_get ?env ?ck ?rq ''s'' ''http://h/x'' demo_rule [] demo_stale_state =
      (Inr (from_cache (Fin 1000) demo_entry [72, 105] ''STALE''), s1)"
    and s1: "ps_redis s1 = mem_put ?lock ''t'' (Some 15000) ?r" "ps_calls s1 = []" "length (ps_tasks s1) = 1"
    using handle_get_stale [of demo_rule ?rq ?env ?ck "''http://h/x''" "[]" demo_stale_state demo_entry ?r _ 10 _ _ "''s''", OF _ demo_allowed _ body]
      stale1 l ttl by (auto simp: demo_stale_state_def)
  have stale2: "cache_get mem_kv demo_codec 0 (Fin 2000) ?key (ps_redis s1) = (Inr (STALE, Some demo_entry), ps_redis s1)"
    using key by (intro demo_stale) (simp_all add: s1 mem_put_def mem_empty_def)
  have "ps_tasks s1 \<noteq> []" using s1(3) by auto
  then have "\<exists>s2. handle_get ?env ?later ?rq ''s'' ''http://h/x'' demo_rule [] s1 =
      (Inr (from_cache (pc_age ?later) demo_entry [72, 105] ''STALE''), s2) \<and> ps_calls s2 = ps_calls s1 \<and> ps_tasks s2 = ps_tasks s1"
    using stale_read_single_flight [OF _ _ demo_allowed demo_allowed _ _ _ body run, of mem_view 10 ?r ?later "ps_redis s1" s1 demo_entry "[72, 105]"]
      mem.redis_kv_laws_axioms stale1 stale2 body s1 ttl by (simp add: demo_stale_state_def)
  with run s1 show ?thesis by auto
qed

theorem write_outcome_truthful_witness:
  "\<exists>resp s' i. handle_write (demo_proxy_env demo_down) demo_proxy_clock (demo_proxy_request ''POST'' [(''idempotency-key'', ''k'')]) ''s''
       ''http://h/x'' [(''idempotency-key'', ''k'')] [0, 255] True demo_proxy_state = (Inr resp, s') \<and>
     r_status resp = 202 \<and> header_get (r_headers resp) ''x-queue-id'' = Some i \<and>
     map fst (m_stream (ps_redis s') ''offline_queue'') = [i]"
proof -
  let ?rq = "demo_proxy_request ''POST'' [(''idempotency-key'', ''k'')]"
  have el: "queue_eligible True ?rq"
    by (simp add: queue_eligible_def demo_proxy_request_def write_methods_def header_or_def py_eval Let_def)
  have res: "call_result demo_queue_settings demo_down False (req_method ?rq) ''http://h/x'' [(''idempotency-key'', ''k'')] [0, 255] = Inl ConnectError"
    by (simp add: call_result_def bounded_request_def demo_down_def)
  have z: "str_of_nat 0 = ''0''" by code_simp
  obtain resp s' where run: "handle_write (demo_proxy_env demo_down) demo_proxy_clock ?rq ''s''
       ''http://h/x'' [(''idempotency-key'', ''k'')] [0, 255] True demo_proxy_state = (Inr resp, s')" and st: "r_status resp = 202"
    using el res
    by (simp add: handle_write_def call_upstream_def queue_write_def queue_io_def enqueue_write_def enqueue_script_def
        demo_destination demo_io write_methods_def dict_get_def mem_empty_def z json_text_def demo_proxy_request_def Let_def)
  show ?thesis
    using write_outcome_truthful [OF _ run, of mem_view m_hash m_stream] memq.redis_queue_laws_axioms run el res st
    by (auto simp: mem_empty_def)
qed

end
