(* ===== verification/Body_Limit.thy ===== *)
theory Body_Limit
  imports Http Py_Url
begin

text \<open>
  \<^verbatim>\<open>gateway/middleware/body_limit.py\<close>: the outermost check of the request target and host, and
  the bounded buffering of the request body.  The messages a client sends are a list; waiting for a
  message that does not come within the deadline is the end of that list.  The lemmas classify the
  outcome of the loop by the messages and show what a request line and host that pass look like.
\<close>

section \<open>Model\<close>

datatype asgi_message =
    HttpRequest bytes bool \<comment> \<open>body and more\_body\<close>
  | HttpDisconnect

record asgi_scope =
  sc_type :: string
  sc_path :: string
  sc_headers :: headers \<comment> \<open>as received: the bytes of names and values\<close>

datatype body_outcome =
    Untouched "asgi_message list" \<comment> \<open>not an HTTP request: passed on as it is\<close>
  | Refused response
  | Disconnected
  | Forward "asgi_message list" \<comment> \<open>what the application will receive\<close>

definition host_values :: "headers \<Rightarrow> string list" where
  "host_values hs = map snd (filter (\<lambda>h. py_lower (fst h) = ''host'') hs)"

definition host_parses :: "(string \<Rightarrow> bool) \<Rightarrow> string \<Rightarrow> (py_error, bool) result" where
  \<comment> \<open>the body of the try block on a decoded host\<close>
  "host_parses bracket_ok host =
     (case urlsplit bracket_ok (''//'' @ host) of
        Inl e \<Rightarrow> Inl e
      | Inr parsed \<Rightarrow>
          (let valid = (url_hostname parsed \<noteq> None \<and> su_netloc parsed = host \<and> su_path parsed = [] \<and>
                        su_query parsed = [] \<and> su_fragment parsed = [] \<and> fst (userinfo parsed) = None \<and>
                        \<not> list_ex (\<lambda>c. py_isspace c \<or> c = CHR 0x5C) host)
           in case url_port parsed of Inl e \<Rightarrow> Inl e | Inr _ \<Rightarrow> Inr valid))"

definition valid_host :: "(string \<Rightarrow> bool) \<Rightarrow> headers \<Rightarrow> bool" where
  "valid_host bracket_ok hs =
     (let hosts = host_values hs
      in if length hosts = 1 \<and> \<not> py_isascii (hd hosts) then False
         else case host_parses bracket_ok (if length hosts = 1 then hd hosts else []) of
                Inl _ \<Rightarrow> False
              | Inr v \<Rightarrow> v)"

fun buffer_body :: "int \<Rightarrow> int \<Rightarrow> bytes list \<Rightarrow> asgi_message list \<Rightarrow> body_outcome" where
  "buffer_body limit sz chunks [] = Refused (json_error 408 ''request body timeout'')"
| "buffer_body limit sz chunks (HttpDisconnect # rest) = Disconnected"
| "buffer_body limit sz chunks (HttpRequest chunk more_body # rest) =
     (let sz' = sz + int (length chunk)
      in if sz' > limit then Refused (json_error 413 ''request body too large'')
         else if more_body then buffer_body limit sz' (chunks @ [chunk]) rest
         else Forward (HttpRequest (concat (chunks @ [chunk])) False # rest))"

definition body_limit :: "(string \<Rightarrow> bool) \<Rightarrow> settings \<Rightarrow> asgi_scope \<Rightarrow> asgi_message list \<Rightarrow> body_outcome" where
  "body_limit bracket_ok cfg scope messages =
     (if sc_type scope \<noteq> ''http'' then Untouched messages
      else if \<not> valid_host bracket_ok (sc_headers scope) \<or> \<not> py_startswith (sc_path scope) ''/''
      then Refused (json_error 400 ''invalid request target or host'')
      else buffer_body (max_request_body_bytes cfg) 0 [] messages)"

section \<open>Specification of the loop\<close>

text \<open>
  A message list begins with a number of chunks that announce more; what decides is the first
  message after them, or the chunk with which the limit is exceeded.
\<close>

definition announced :: "bytes list \<Rightarrow> asgi_message list" where
  "announced bs = map (\<lambda>b. HttpRequest b True) bs"

lemma messages_cases:
  obtains bs where "messages = announced bs"
  | bs rest where "messages = announced bs @ HttpDisconnect # rest"
  | bs b rest where "messages = announced bs @ HttpRequest b False # rest"
proof (induction messages arbitrary: thesis)
  case Nil
  then show ?case by (simp add: announced_def)
next
  case (Cons m messages)
  show ?case
  proof (cases m)
    case HttpDisconnect
    then show ?thesis using Cons.prems(2) [of "[]"] by (simp add: announced_def)
  next
    case (HttpRequest b go_on)
    show ?thesis
    proof (cases go_on)
      case False
      then show ?thesis using Cons.prems(3) [of "[]"] HttpRequest by (simp add: announced_def)
    next
      case True
      have a: "announced (b # bs) = m # announced bs" for bs using HttpRequest True by (simp add: announced_def)
      show ?thesis
        by (rule Cons.IH) (use Cons.prems(1) [of "b # _"] Cons.prems(2) [of "b # _"] Cons.prems(3) [of "b # _"] a in auto)
    qed
  qed
qed

lemma buffer_announced:
  "buffer_body limit sz chunks (announced bs @ rest) =
     (if bs \<noteq> [] \<and> sz + int (length (concat bs)) > limit then Refused (json_error 413 ''request body too large'')
      else buffer_body limit (sz + int (length (concat bs))) (chunks @ bs) rest)"
proof (induction bs arbitrary: sz chunks)
  case (Cons b bs)
  then show ?case by (simp add: announced_def Let_def algebra_simps)
qed (simp add: announced_def)

lemma buffer_decided:
  assumes "int (length (concat bs)) \<le> limit"
  shows "limit < int (length (concat (bs @ [b]))) \<Longrightarrow>
      buffer_body limit 0 [] (announced bs @ HttpRequest b go_on # rest) = Refused (json_error 413 ''request body too large'')"
    "int (length (concat (bs @ [b]))) \<le> limit \<Longrightarrow>
      buffer_body limit 0 [] (announced bs @ HttpRequest b False # rest) = Forward (HttpRequest (concat (bs @ [b])) False # rest)"
    "buffer_body limit 0 [] (announced bs @ HttpDisconnect # rest) = Disconnected"
    "buffer_body limit 0 [] (announced bs) = Refused (json_error 408 ''request body timeout'')"
  using assms buffer_announced [of limit 0 "[]" bs "[]"] by (simp_all add: buffer_announced Let_def)

lemma first_excess:
  assumes "0 \<le> limit" "limit < int (length (concat bs))"
  shows "\<exists>pre b post. bs = pre @ b # post \<and> int (length (concat pre)) \<le> limit \<and> limit < int (length (concat (pre @ [b])))"
  using assms(2)
proof (induction bs rule: rev_induct)
  case (snoc b bs)
  show ?case
  proof (cases "limit < int (length (concat bs))")
    case True
    with snoc.IH obtain pre c post where "bs = pre @ c # post" "int (length (concat pre)) \<le> limit"
      "limit < int (length (concat (pre @ [c])))" by blast
    then show ?thesis by (intro exI [of _ pre] exI [of _ c] exI [of _ "post @ [b]"]) simp
  next
    case False
    with snoc.prems show ?thesis by (intro exI [of _ bs] exI [of _ b] exI [of _ "[]"]) simp
  qed
qed (use assms(1) in simp)

lemma decided:
  fixes limit :: int
  assumes "0 \<le> limit"
  obtains (over) bs b go_on rest where "messages = announced bs @ HttpRequest b go_on # rest"
      "int (length (concat bs)) \<le> limit" "limit < int (length (concat (bs @ [b])))"
    | (late) bs where "messages = announced bs" "int (length (concat bs)) \<le> limit"
    | (gone) bs rest where "messages = announced bs @ HttpDisconnect # rest" "int (length (concat bs)) \<le> limit"
    | (whole) bs b rest where "messages = announced bs @ HttpRequest b False # rest" "int (length (concat (bs @ [b]))) \<le> limit"
proof (rule messages_cases [of messages])
  have ann: "announced (pre @ b # post) = announced pre @ HttpRequest b True # announced post" for pre b post
    by (simp add: announced_def)
  have excess: thesis if "messages = announced bs @ rest" "limit < int (length (concat bs))" for bs rest
    using first_excess [OF assms that(2)] that(1) over ann by (metis append.assoc append_Cons)
  fix bs
  show thesis if "messages = announced bs" using that late excess [of bs "[]"] by fastforce
  show thesis if "messages = announced bs @ HttpDisconnect # rest" for rest using that gone excess [of bs] by fastforce
  show thesis if "messages = announced bs @ HttpRequest b False # rest" for b rest
    using that whole [of bs b rest] over [of bs b False rest] excess [of bs] by fastforce
qed

lemma outcome_iffs:
  assumes "A \<Longrightarrow> out = Refused x" "B \<Longrightarrow> out = Refused y" "C \<Longrightarrow> out = Disconnected" "\<And>ms. W ms \<Longrightarrow> out = Forward ms"
    and "A \<or> B \<or> C \<or> (\<exists>ms. W ms)" "x \<noteq> y"
  shows "(\<forall>ms. out = Forward ms \<longleftrightarrow> W ms) \<and> (out = Refused x \<longleftrightarrow> A) \<and> (out = Disconnected \<longleftrightarrow> C) \<and> (out = Refused y \<longleftrightarrow> B)"
  using assms by auto

lemma url_clean_host: "url_clean (''//'' @ host) = ''//'' @ filter (\<lambda>c. ccode c \<notin> {9, 10, 13}) host"
  by (simp add: url_clean_def ccode_def)

lemma split_scheme_host: "split_scheme (''//'' @ s) = ([], ''//'' @ s)"
proof -
  obtain h f t where p: "py_partition (CHR '':'') (''//'' @ s) = (h, f, t)" by (cases "py_partition (CHR '':'') (''//'' @ s)")
  have "h = [] \<or> hd h = CHR ''/''" using py_partition_parts [OF p] by (cases h) auto
  then show ?thesis using p by (auto simp: split_scheme_def is_ascii_letter_def ccode_def Let_def)
qed

lemma host_parses_shape:
  assumes "host_parses bracket_ok host = Inr True"
  shows "host \<noteq> []" "c \<in> set host \<Longrightarrow> c \<notin> set ''/?#@'' \<and> c \<noteq> CHR 0x5C \<and> \<not> py_isspace c"
proof -
  from assms obtain parsed where u: "urlsplit bracket_ok (''//'' @ host) = Inr parsed"
    and v: "url_hostname parsed \<noteq> None" "su_netloc parsed = host" "fst (userinfo parsed) = None"
      "\<not> list_ex (\<lambda>c. py_isspace c \<or> c = CHR 0x5C) host"
    by (auto simp: host_parses_def Let_def split: sum.splits)
  have "su_netloc parsed = fst (split_netloc (''//'' @ filter (\<lambda>c. ccode c \<notin> {9, 10, 13}) host))"
    using u unfolding urlsplit_def url_clean_host split_scheme_host by (auto split: prod.splits if_splits)
  then have "host = takeWhile (\<lambda>c. \<not> is_delim c) (filter (\<lambda>c. ccode c \<notin> {9, 10, 13}) host)"
    using v(2) by (simp add: split_netloc_def)
  then have n: "\<forall>c \<in> set host. \<not> is_delim c" by (metis set_takeWhileD)
  have a: "CHR ''@'' \<notin> set host"
    using v(2,3) by (auto simp: userinfo_def py_rpartition_def split: prod.splits if_splits)
  show "host \<noteq> []"
    using v(1,2) by (auto simp: url_hostname_def hostinfo_def py_rpartition_def py_partition_none)
  show "c \<in> set host \<Longrightarrow> c \<notin> set ''/?#@'' \<and> c \<noteq> CHR 0x5C \<and> \<not> py_isspace c"
    using n a v(4) by (auto simp: is_delim_def list_ex_iff)
qed

section \<open>Properties\<close>

text \<open>
  C15.  The body the application receives is the body the client sent, or the request is refused: with a
  valid target, a body whose chunks end is forwarded as one chunk when it fits the limit, followed
  by whatever the client sends next; it is refused with 413 as soon as the chunks that arrived exceed
  the limit, dropped when the client disconnects before that, and refused with 408 when the next
  chunk does not arrive in time.  The loop always ends.
\<close>

theorem body_outcome_exact:
  fixes messages :: "asgi_message list"
  assumes scope: "sc_type scope = ''http''" "valid_host bracket_ok (sc_headers scope)" "prefix ''/'' (sc_path scope)"
    and limit: "limit = max_request_body_bytes cfg" "0 \<le> limit"
  defines "out \<equiv> body_limit bracket_ok cfg scope messages"
  shows "(\<forall>ms. out = Forward ms \<longleftrightarrow> (\<exists>bs b rest. messages = announced bs @ HttpRequest b False # rest \<and>
        int (length (concat (bs @ [b]))) \<le> limit \<and> ms = HttpRequest (concat (bs @ [b])) False # rest)) \<and>
    (out = Refused (json_error 413 ''request body too large'') \<longleftrightarrow>
       (\<exists>bs b go_on rest. messages = announced bs @ HttpRequest b go_on # rest \<and>
          int (length (concat bs)) \<le> limit \<and> limit < int (length (concat (bs @ [b]))))) \<and>
    (out = Disconnected \<longleftrightarrow>
       (\<exists>bs rest. messages = announced bs @ HttpDisconnect # rest \<and> int (length (concat bs)) \<le> limit)) \<and>
    (out = Refused (json_error 408 ''request body timeout'') \<longleftrightarrow>
       (\<exists>bs. messages = announced bs \<and> int (length (concat bs)) \<le> limit))"
proof -
  let ?over = "\<exists>bs b go_on rest. messages = announced bs @ HttpRequest b go_on # rest \<and>
      int (length (concat bs)) \<le> limit \<and> limit < int (length (concat (bs @ [b])))"
  let ?late = "\<exists>bs. messages = announced bs \<and> int (length (concat bs)) \<le> limit"
  let ?gone = "\<exists>bs rest. messages = announced bs @ HttpDisconnect # rest \<and> int (length (concat bs)) \<le> limit"
  let ?whole = "\<lambda>ms. \<exists>bs b rest. messages = announced bs @ HttpRequest b False # rest \<and>
      int (length (concat (bs @ [b]))) \<le> limit \<and> ms = HttpRequest (concat (bs @ [b])) False # rest"
  have out: "out = buffer_body limit 0 [] messages" using scope limit by (simp add: out_def body_limit_def)
  have fits: "int (length (concat bs)) \<le> limit" if "int (length (concat (bs @ [b]))) \<le> limit" for bs b
    using that by simp
  show ?thesis
  proof (rule outcome_iffs)
    show "?over \<Longrightarrow> out = Refused (json_error 413 ''request body too large'')"
      "?late \<Longrightarrow> out = Refused (json_error 408 ''request body timeout'')"
      "?gone \<Longrightarrow> out = Disconnected" "?whole ms \<Longrightarrow> out = Forward ms" for ms
      unfolding out using buffer_decided fits by blast+
    show "?over \<or> ?late \<or> ?gone \<or> (\<exists>ms. ?whole ms)"
      by (rule decided [OF limit(2), of messages]) blast+
  qed (simp add: json_error_def)
qed

text \<open>
  A request that is not refused names one plain authority and an absolute path: it has exactly one
  Host header, in ASCII, not empty, and free of separators, user information, backslashes and white
  space, so that nothing downstream can read another authority out of it.
\<close>

theorem accepted_host_plain:
  assumes http: "sc_type scope = ''http''"
    and accepted: "body_limit bracket_ok cfg scope messages \<noteq> Refused (json_error 400 ''invalid request target or host'')"
  shows "\<exists>host. host_values (sc_headers scope) = [host] \<and> host \<noteq> [] \<and> py_isascii host \<and>
    (\<forall>c \<in> set host. c \<notin> set ''/?#@'' \<and> c \<noteq> CHR 0x5C \<and> \<not> py_isspace c) \<and> prefix ''/'' (sc_path scope)"
proof -
  have ok: "valid_host bracket_ok (sc_headers scope)" "prefix ''/'' (sc_path scope)"
    using assms by (auto simp: body_limit_def split: if_splits)
  let ?hosts = "host_values (sc_headers scope)"
  have parse: "host_parses bracket_ok (if length ?hosts = 1 then hd ?hosts else []) = Inr True"
    and ascii: "length ?hosts = 1 \<Longrightarrow> py_isascii (hd ?hosts)"
    using ok(1) by (auto simp: valid_host_def Let_def split: sum.splits if_splits)
  have one: "length ?hosts = 1" using host_parses_shape(1) [OF parse] by (auto split: if_splits)
  then obtain host where h: "?hosts = [host]" by (cases ?hosts) auto
  with parse host_parses_shape [of bracket_ok host] ascii ok(2) show ?thesis by simp
qed

section \<open>Witnesses\<close>

definition demo_scope :: asgi_scope where
  "demo_scope = \<lparr>sc_type = ''http'', sc_path = ''/proxy/s/x'', sc_headers = [(''host'', ''gw:80'')]\<rparr>"

lemma demo_host: "valid_host (\<lambda>_. True) (sc_headers demo_scope)"
proof -
  let ?u = "\<lparr>su_scheme = [], su_netloc = ''gw:80'', su_path = [], su_query = [], su_fragment = []\<rparr>"
  have "urlsplit (\<lambda>_. True) ''//gw:80'' = Inr ?u" by code_simp
  moreover have "url_hostname ?u = Some ''gw''" "fst (userinfo ?u) = None" by code_simp+
  moreover have "hostinfo ?u = (''gw'', Some ''80'')" by code_simp
  then have "url_port ?u = Inr (Some 80)" by (simp add: url_port_def py_eval)
  ultimately have "host_parses (\<lambda>_. True) ''gw:80'' = Inr True" by (simp add: host_parses_def py_eval)
  then show ?thesis by (simp add: valid_host_def demo_scope_def host_values_def py_eval)
qed

theorem body_outcome_exact_witness:
  "body_limit (\<lambda>_. True) default_settings demo_scope [HttpRequest [1] True, HttpRequest [2, 3] False, HttpDisconnect] =
     Forward [HttpRequest [1, 2, 3] False, HttpDisconnect]"
proof -
  let ?ms = "[HttpRequest [1] True, HttpRequest [2, 3] False, HttpDisconnect]"
  have "\<exists>bs b rest. ?ms = announced bs @ HttpRequest b False # rest \<and> int (length (concat (bs @ [b]))) \<le> 1048576 \<and>
      [HttpRequest [1, 2, 3] False, HttpDisconnect] = HttpRequest (concat (bs @ [b])) False # rest"
    by (intro exI [of _ "[[1]]"] exI [of _ "[2, 3]"] exI [of _ "[HttpDisconnect]"]) (simp add: announced_def)
  moreover have "sc_type demo_scope = ''http''" "prefix ''/'' (sc_path demo_scope)" "1048576 = max_request_body_bytes default_settings"
    by (simp_all add: demo_scope_def default_settings_def)
  ultimately show ?thesis
    using body_outcome_exact [of demo_scope "\<lambda>_. True" 1048576 default_settings ?ms, OF _ demo_host] by simp
qed

theorem accepted_host_plain_witness:
  "\<exists>host. host_values (sc_headers demo_scope) = [host] \<and> py_isascii host"
proof -
  have "body_limit (\<lambda>_. True) default_settings demo_scope [HttpDisconnect] = Disconnected"
    using demo_host by (simp add: body_limit_def demo_scope_def)
  then show ?thesis
    using accepted_host_plain [of demo_scope "\<lambda>_. True" default_settings "[HttpDisconnect]"] by (auto simp: demo_scope_def)
qed

end
