(* ===== verification/Response_Optimizer.thy ===== *)
theory Response_Optimizer
  imports Proxy_Http
begin

text \<open>
  \<^verbatim>\<open>gateway/middleware/response_optimizer.py\<close>: field removal, skeletons, content-coding
  negotiation and the middleware itself.  The JSON codec on bytes, \<^verbatim>\<open>gzip.compress\<close>, the
  framework's rendering of a response body and the interpreter's recursion limit
  (\<open>stack_ok\<close>) are parameters.  The lemmas relate field removal to a specification over paths,
  bound the skeleton, and show what a client can rely on in an optimised response.
\<close>

section \<open>Documents\<close>

definition GZIP_MIN_SIZE :: nat where
  "GZIP_MIN_SIZE = 256"

definition SKELETON_MAX_ARRAY_ITEMS :: nat where
  "SKELETON_MAX_ARRAY_ITEMS = 10"

abbreviation fields_weight :: "string list \<Rightarrow> nat" where
  "fields_weight fs \<equiv> sum_list (map (\<lambda>f. Suc (length f)) fs)"

function strip_fields :: "json \<Rightarrow> string list \<Rightarrow> json"
  and strip_loop :: "(string \<times> json) list \<Rightarrow> string list \<Rightarrow> (string \<times> json) list" where
  "strip_fields data names =
     (if names = [] then data
      else case data of
             JArr items \<Rightarrow> JArr (map (\<lambda>item. strip_fields item names) items)
           | JObj members \<Rightarrow> JObj (strip_loop members names)
           | _ \<Rightarrow> data)"
| "strip_loop result [] = result"
| "strip_loop result (name # names) =
     (let (head, sep, tail) = py_partition (CHR ''.'') name
      in strip_loop
           (if tail \<noteq> []
            then (case map_of result head of
                    None \<Rightarrow> result
                  | Some v \<Rightarrow> AList.update head (strip_fields v [tail]) result)
            else AList.delete head result) names)"
  by pat_completeness auto

termination
proof (relation "measures [case_sum (fields_weight \<circ> snd) (fields_weight \<circ> snd),
    case_sum (Suc \<circ> size \<circ> fst) (\<lambda>_. 0)]", goal_cases)
  case 1
  show ?case by simp
next
  case (2 data names items item)
  then show ?case using json_arr_size [of item items] by simp
next
  case (3 data names members)
  then show ?case by simp
next
  case (4 result name names x head y sep tail v)
  then show ?case using py_partition_tail_less [of "CHR ''.''" name head sep tail] by simp
next
  case (5 result name names x head y sep tail)
  then show ?case by simp
qed

declare strip_fields.simps [simp del] strip_loop.simps(2) [simp del]

lemma json_take_size [termination_simp]:
  "x \<in> set (take n xs) \<Longrightarrow> size (x :: json) < Suc (size_list size xs)"
  by (drule in_set_takeD) (rule json_arr_size)

fun truncate_doc :: "json \<Rightarrow> json" where
  "truncate_doc (JArr items) = JArr (map truncate_doc (take SKELETON_MAX_ARRAY_ITEMS items))"
| "truncate_doc (JObj members) = JObj (map (\<lambda>(k, v). (k, truncate_doc v)) members)"
| "truncate_doc v = v"

definition make_skeleton :: "json \<Rightarrow> string list \<Rightarrow> json" where
  "make_skeleton data names = truncate_doc (strip_fields data names)"

section \<open>Negotiation\<close>

definition is_json :: "headers \<Rightarrow> bool" where
  "is_json hs =
     (let media_type = py_lower (py_strip (fst (py_partition (CHR '';'') (header_or hs ''content-type'' []))))
      in media_type = ''application/json'' \<or> py_endswith media_type ''+json'')"

definition coding_quality :: "string list \<Rightarrow> pyfloat" where
  "coding_quality parameters =
     fold (\<lambda>parameter quality.
             let (key, sep, raw) = py_partition (CHR ''='') (py_strip parameter)
             in if key = ''q''
                then (case py_float_of_str raw of Some x \<Rightarrow> x | None \<Rightarrow> Fin 0)
                else quality)
       parameters (Fin 1)"

definition accepted_codings :: "string \<Rightarrow> (string, bool) dict" where
  "accepted_codings value =
     dict_of_items (map (\<lambda>part.
         let pieces = py_split (CHR '';'') (py_strip part); quality = coding_quality (tl pieces)
         in (hd pieces, f_lt (Fin 0) quality \<and> f_le quality (Fin 1)))
       (py_split (CHR '','') (py_lower value)))"

definition accepts_gzip :: "string \<Rightarrow> bool" where
  "accepts_gzip value =
     (let codings = accepted_codings value in dict_get codings ''gzip'' (dict_get codings ''*'' False))"

definition accepts_identity :: "string \<Rightarrow> bool" where
  "accepts_identity value =
     (let codings = accepted_codings value in dict_get codings ''identity'' (dict_get codings ''*'' True))"

section \<open>The middleware\<close>

record optimizer_env =
  oe_loads :: "bytes \<Rightarrow> (py_error, json) result" \<comment> \<open>\<^verbatim>\<open>json.loads\<close> on bytes\<close>
  oe_dumps :: "json \<Rightarrow> (py_error, bytes) result" \<comment> \<open>compact \<^verbatim>\<open>json.dumps\<close>, encoded\<close>
  oe_gzip :: "bytes \<Rightarrow> bytes"
  oe_render :: "content \<Rightarrow> bytes" \<comment> \<open>the body the framework produced\<close>
  oe_stack_ok :: "json \<Rightarrow> bool" \<comment> \<open>the transformation stays below the recursion limit\<close>
  oe_equal_ok :: "json \<Rightarrow> json \<Rightarrow> bool" \<comment> \<open>and so does the comparison with the original\<close>

definition transform_json :: "optimizer_env \<Rightarrow> bytes \<Rightarrow> string list \<Rightarrow> bool \<Rightarrow> (py_error, bytes) result" where
  "transform_json env body optional_fields skeleton =
     (case oe_loads env body of
        Inl e \<Rightarrow> if e = ValueError \<or> e = RecursionError then Inr body else Inl e
      | Inr data \<Rightarrow>
          if \<not> oe_stack_ok env data then Inr body
          else let transformed = (if skeleton then make_skeleton data optional_fields
                                  else strip_fields data optional_fields)
               in if \<not> oe_equal_ok env transformed data then Inl RecursionError
                  else if py_eq transformed data then Inr body
                  else oe_dumps env transformed)"

fun mode_name :: "response_mode \<Rightarrow> string" where
  "mode_name Adaptive = ''adaptive''"
| "mode_name Full = ''full''"
| "mode_name Compression = ''compression''"
| "mode_name Removal = ''removal''"
| "mode_name Combined = ''combined''"

definition effective_mode :: "settings \<Rightarrow> response_mode" where
  "effective_mode cfg = (if adaptation_enabled cfg then response_mode cfg else Full)"

definition skeleton_selected :: "response_mode \<Rightarrow> network_quality \<Rightarrow> bool \<Rightarrow> bool" where
  "skeleton_selected mode quality served_from_cache =
     (mode = Adaptive \<and> quality = NQ_POOR \<and> \<not> served_from_cache)"

definition removal_selected :: "response_mode \<Rightarrow> network_quality \<Rightarrow> bool \<Rightarrow> bool" where
  "removal_selected mode quality served_from_cache =
     (let degraded_like = (quality = NQ_DEGRADED \<or> quality = NQ_POOR \<and> served_from_cache)
      in mode \<in> {Removal, Combined} \<or> mode = Adaptive \<and> degraded_like)"

definition gzip_selected :: "response_mode \<Rightarrow> network_quality \<Rightarrow> bool" where
  "gzip_selected mode quality =
     (mode \<in> {Compression, Combined} \<or> mode = Adaptive \<and> quality \<in> {NQ_DEGRADED, NQ_POOR})"

definition adapt_body ::
  "optimizer_env \<Rightarrow> response_mode \<Rightarrow> network_quality \<Rightarrow> bool \<Rightarrow> string list \<Rightarrow> bytes \<Rightarrow> (py_error, bytes) result" where
  "adapt_body env mode quality served_from_cache optional_fields body =
     (if removal_selected mode quality served_from_cache \<and> body \<noteq> []
      then transform_json env body optional_fields False
      else if skeleton_selected mode quality served_from_cache \<and> body \<noteq> []
      then transform_json env body optional_fields True
      else Inr body)"

definition vary_names :: "string list" where
  "vary_names = [''Accept-Encoding'', ''X-Client-RTT'', ''ECT'', ''Save-Data'']"

definition extend_vary :: "string \<Rightarrow> string" where
  "extend_vary value =
     (let vary = filter (\<lambda>p. p \<noteq> []) (map py_strip (py_split (CHR '','') value))
      in py_join '', '' (fold (\<lambda>name vary.
            if py_lower name \<in> set (map py_lower vary) then vary else vary @ [name]) vary_names vary))"

definition optimizer_skips :: "request \<Rightarrow> response \<Rightarrow> request_state \<Rightarrow> bool" where
  "optimizer_skips rq resp st =
     (st_optimizable st \<noteq> Some True \<or>
      \<not> is_json (r_headers resp) \<or>
      r_status resp \<noteq> 200 \<or> req_method rq \<noteq> ''GET'' \<or>
      py_contains ''no-transform'' (py_lower (header_or (r_headers resp) ''cache-control'' [])) \<or>
      header_in ''content-encoding'' (r_headers resp))"

definition gzip_applies ::
  "optimizer_env \<Rightarrow> response_mode \<Rightarrow> network_quality \<Rightarrow> string \<Rightarrow> (string, string) dict \<Rightarrow> bytes \<Rightarrow> bool" where
  "gzip_applies env mode quality accept_encoding hs adapted =
     (gzip_selected mode quality \<and> accepts_gzip accept_encoding \<and>
      ''content-encoding'' \<notin> set (map (py_lower \<circ> fst) hs) \<and>
      GZIP_MIN_SIZE \<le> length adapted \<and> length (oe_gzip env adapted) < length adapted)"

definition base_headers :: "response \<Rightarrow> (string, string) dict" where
  "base_headers resp =
     (let hs = dict_of_headers (r_headers resp)
      in AList.delete ''content-length'' (AList.update ''vary'' (extend_vary (dict_get hs ''vary'' [])) hs))"

definition coded_headers :: "bool \<Rightarrow> bool \<Rightarrow> (string, string) dict \<Rightarrow> (string, string) dict" where
  "coded_headers gzipped changed hs =
     (let coded = (if gzipped then AList.update ''content-encoding'' ''gzip'' hs else hs)
      in if changed
         then AList.update ''cache-control'' ''private, no-store''
                (fold AList.delete REPRESENTATION_HEADERS coded)
         else coded)"

definition labelled_headers ::
  "response_mode \<Rightarrow> bool \<Rightarrow> bool \<Rightarrow> (string, string) dict \<Rightarrow> (string, string) dict" where
  "labelled_headers mode skeleton reduced hs =
     AList.update ''x-response-completeness'' (if reduced then ''reduced'' else ''full'')
       (AList.update ''x-adaptive-mode''
          (if skeleton \<and> reduced then ''skeleton'' else if reduced then ''stripped'' else ''none'')
          (AList.update ''x-response-mode'' (mode_name mode) hs))"

definition original_size :: "optimizer_env \<Rightarrow> response \<Rightarrow> request_state \<Rightarrow> effect" where
  "original_size env resp st =
     RecordSize (quality_value (case st_network_quality st of Some q \<Rightarrow> q | None \<Rightarrow> NQ_GOOD)) ''original''
       (int (length (oe_render env (r_content resp))))"

definition optimize ::
  "optimizer_env \<Rightarrow> settings \<Rightarrow> request \<Rightarrow> response \<Rightarrow> request_state \<Rightarrow>
     (py_error, response \<times> request_state \<times> effect list) result" where
  "optimize env cfg rq resp st =
     (let mode = effective_mode cfg;
          body = oe_render env (r_content resp);
          quality = (case st_network_quality st of Some q \<Rightarrow> q | None \<Rightarrow> NQ_GOOD);
          optional_fields = (case st_optional_fields st of Some fs \<Rightarrow> fs | None \<Rightarrow> []);
          cached = (st_served_from_cache st = Some True);
          original = RecordSize (quality_value quality) ''original'' (int (length body));
          accept_encoding = header_or (req_headers rq) ''accept-encoding'' []
      in case adapt_body env mode quality cached optional_fields body of
           Inl e \<Rightarrow> Inl e
         | Inr adapted \<Rightarrow>
             (let hs = base_headers resp;
                  gzipped = gzip_applies env mode quality accept_encoding hs adapted;
                  new_body = (if gzipped then oe_gzip env adapted else adapted);
                  size = int (length new_body)
              in if \<not> gzipped \<and> \<not> accepts_identity accept_encoding
                 then Inr (\<lparr>r_status = 406,
                            r_headers = [(''vary'', dict_get hs ''vary'' []), (''cache-control'', ''no-store'')],
                            r_content = NoContent, r_media = None\<rparr>,
                           st\<lparr>st_response_size_optimized := Some 0\<rparr>,
                           [original, RecordSize (quality_value quality) ''optimized'' 0])
                 else Inr (\<lparr>r_status = r_status resp,
                            r_headers =
                              filter (\<lambda>h. fst h \<noteq> ''set-cookie'')
                                (labelled_headers mode (skeleton_selected mode quality cached) (adapted \<noteq> body)
                                  (coded_headers gzipped (new_body \<noteq> body) hs))
                              @ filter (\<lambda>h. fst h = ''set-cookie'') (r_headers resp),
                            r_content = Bytes new_body, r_media = r_media resp\<rparr>,
                           st\<lparr>st_response_size_optimized := Some size\<rparr>,
                           [original, RecordSize (quality_value quality) ''optimized'' size])))"

definition optimizer_dispatch ::
  "optimizer_env \<Rightarrow> settings \<Rightarrow> request \<Rightarrow> 'r app \<Rightarrow> 'r app" where
  "optimizer_dispatch env cfg rq call_next st r =
     (case call_next st r of
        ((Inl e, st1, eff), r1) \<Rightarrow> ((Inl e, st1, eff), r1)
      | ((Inr resp, st1, eff), r1) \<Rightarrow>
          if optimizer_skips rq resp st1 then ((Inr resp, st1, eff), r1)
          else (case optimize env cfg rq resp st1 of
                  Inl e \<Rightarrow> ((Inl e, st1, eff @ [original_size env resp st1]), r1)
                | Inr (resp', st2, own) \<Rightarrow> ((Inr resp', st2, eff @ own), r1)))"

section \<open>Specification of field removal\<close>

text \<open>
  A dotted name denotes a path of object keys; arrays on the way are transparent.  \<open>strip_path\<close>
  removes one path, \<open>nodes p\<close> lists what a document holds at a path (an object as its shell).
\<close>

function field_path :: "string \<Rightarrow> string list" where
  "field_path name =
     (let (head, sep, tail) = py_partition (CHR ''.'') name
      in if tail = [] then [head] else head # field_path tail)"
  by pat_completeness auto
termination
  by (relation "measure length") (simp, metis in_measure py_partition_tail_less)

declare field_path.simps [simp del]

function strip_path :: "string list \<Rightarrow> json \<Rightarrow> json" where
  "strip_path p (JArr xs) = JArr (map (strip_path p) xs)"
| "strip_path [] (JObj d) = JObj d"
| "strip_path [k] (JObj d) = JObj (AList.delete k d)"
| "strip_path (k # k2 # p) (JObj d) =
     JObj (case map_of d k of None \<Rightarrow> d | Some v \<Rightarrow> AList.update k (strip_path (k2 # p) v) d)"
| "strip_path p JNull = JNull"
| "strip_path p (JBool b) = JBool b"
| "strip_path p (JInt i) = JInt i"
| "strip_path p (JFloat f) = JFloat f"
| "strip_path p (JStr s) = JStr s"
  by pat_completeness auto
termination
  by (relation "measures [length \<circ> fst, size \<circ> snd]") (auto simp: json_arr_size)

function nodes :: "string list \<Rightarrow> json \<Rightarrow> json list" where
  "nodes p (JArr xs) = concat (map (nodes p) xs)"
| "nodes [] (JObj d) = [JObj []]"
| "nodes (k # p) (JObj d) = (case map_of d k of None \<Rightarrow> [] | Some v \<Rightarrow> nodes p v)"
| "nodes p JNull = (if p = [] then [JNull] else [])"
| "nodes p (JBool b) = (if p = [] then [JBool b] else [])"
| "nodes p (JInt i) = (if p = [] then [JInt i] else [])"
| "nodes p (JFloat f) = (if p = [] then [JFloat f] else [])"
| "nodes p (JStr s) = (if p = [] then [JStr s] else [])"
  by pat_completeness auto
termination
  by (relation "measures [length \<circ> fst, size \<circ> snd]") (auto simp: json_arr_size)

fun arrays_bounded :: "nat \<Rightarrow> json \<Rightarrow> bool" where
  "arrays_bounded n (JArr xs) = (length xs \<le> n \<and> list_all (arrays_bounded n) xs)"
| "arrays_bounded n (JObj d) = list_all (\<lambda>(k, v). arrays_bounded n v) d"
| "arrays_bounded n _ = True"

section \<open>Lemmas\<close>

lemma field_path_nonempty [simp]: "field_path name \<noteq> []"
  by (subst field_path.simps) (simp add: Let_def split: prod.splits)

lemma fold_strip_path_arr:
  "fold strip_path ps (JArr xs) = JArr (map (fold strip_path ps) xs)"
  by (induction ps arbitrary: xs) simp_all

lemma fold_strip_path_scalar:
  "data \<in> {JNull, JBool b, JInt i, JFloat f, JStr s} \<Longrightarrow> fold strip_path ps data = data"
  by (induction ps) auto

lemma strip_path_field:
  "py_partition (CHR ''.'') name = (head, sep, tail) \<Longrightarrow>
    strip_path (field_path name) (JObj d) = JObj
      (if tail \<noteq> []
       then (case map_of d head of None \<Rightarrow> d | Some v \<Rightarrow> AList.update head (strip_path (field_path tail) v) d)
       else AList.delete head d)"
  by (cases "field_path tail") (auto simp: field_path.simps [of name] split: option.splits)

lemma strip_refines:
  "strip_fields data names = fold strip_path (map field_path names) data"
  "JObj (strip_loop result names') = fold strip_path (map field_path names') (JObj result)"
proof (induction data names and result names' rule: strip_fields_strip_loop.induct)
  case (1 data names)
  show ?case
  proof (cases "names = []")
    case True
    then show ?thesis by (simp add: strip_fields.simps)
  next
    case False
    then show ?thesis
      using 1 by (cases data)
        (simp_all add: strip_fields.simps [of _ names] fold_strip_path_arr fold_strip_path_scalar)
  qed
next
  case (2 result)
  then show ?case by simp
next
  case (3 result name names)
  obtain head sep tail where p: "py_partition (CHR ''.'') name = (head, sep, tail)"
    by (cases "py_partition (CHR ''.'') name")
  show ?case
    using "3.IH"(1) [OF p [symmetric] refl] "3.IH"(2) [OF p [symmetric] refl]
    by (simp add: strip_loop.simps p strip_path_field [OF p] split: option.splits)
qed

lemma nodes_strip_path:
  "q \<noteq> [] \<Longrightarrow> nodes p (strip_path q j) = (if prefix q p then [] else nodes p j)"
proof (induction q j arbitrary: p rule: strip_path.induct)
  case (1 q xs)
  have "map (\<lambda>x. nodes p (strip_path q x)) xs = map (\<lambda>x. if prefix q p then [] else nodes p x) xs"
    by (rule map_cong) (use 1 in auto)
  then show ?case by (cases "prefix q p") (simp_all add: comp_def cong: map_cong)
next
  case (3 k d)
  then show ?case by (cases p) auto
next
  case (4 k k2 q d)
  then show ?case by (cases p) (auto split: option.splits)
qed auto

lemma nodes_fold_strip_path:
  "list_all (\<lambda>q. q \<noteq> []) qs \<Longrightarrow>
    nodes p (fold strip_path qs j) = (if list_ex (\<lambda>q. prefix q p) qs then [] else nodes p j)"
  by (induction qs arbitrary: j) (auto simp: nodes_strip_path)

lemma truncate_bounded: "arrays_bounded SKELETON_MAX_ARRAY_ITEMS (truncate_doc j)"
  by (induction j rule: truncate_doc.induct) (auto simp: list_all_iff)

lemma truncate_id: "arrays_bounded SKELETON_MAX_ARRAY_ITEMS j \<Longrightarrow> truncate_doc j = j"
proof (induction j rule: truncate_doc.induct)
  case (2 members)
  then show ?case by (auto simp: list_all_iff intro!: map_idI)
qed (auto simp: list_all_iff intro!: map_idI)

definition adapted_document :: "settings \<Rightarrow> request_state \<Rightarrow> json \<Rightarrow> json" where
  \<comment> \<open>the document the selected policy sends in place of \<open>data\<close>\<close>
  "adapted_document cfg st data =
     (let quality = (case st_network_quality st of Some q \<Rightarrow> q | None \<Rightarrow> NQ_GOOD);
          names = (case st_optional_fields st of Some fs \<Rightarrow> fs | None \<Rightarrow> []);
          cached = (st_served_from_cache st = Some True)
      in if removal_selected (effective_mode cfg) quality cached then strip_fields data names
         else if skeleton_selected (effective_mode cfg) quality cached then make_skeleton data names
         else data)"

lemma transform_json_cases:
  assumes "transform_json env body names skel = Inr b" "b \<noteq> body"
  obtains data where "oe_loads env body = Inr data"
    "oe_dumps env (if skel then make_skeleton data names else strip_fields data names) = Inr b"
  using assms by (auto simp: transform_json_def Let_def split: sum.splits if_splits)

lemma adapt_body_cases:
  assumes "adapt_body env mode q cached names body = Inr b" "b \<noteq> body"
  obtains data where "oe_loads env body = Inr data"
    "oe_dumps env (if removal_selected mode q cached then strip_fields data names
                   else make_skeleton data names) = Inr b"
    "removal_selected mode q cached \<or> skeleton_selected mode q cached"
  using assms by (auto simp: adapt_body_def split: if_splits elim!: transform_json_cases)

lemma header_get_rebuilt:
  "header_get (filter (\<lambda>h. fst h \<noteq> ''set-cookie'') d @ filter (\<lambda>h. fst h = ''set-cookie'') hs) k =
     (if k = ''set-cookie'' then header_get hs k else map_of d k)"
  by (simp add: header_get_def map_add_def map_of_filter_key [where P = "\<lambda>k. k \<noteq> ''set-cookie''"]
      map_of_filter_key [where P = "\<lambda>k. k = ''set-cookie''"] split: option.splits)

lemma labelled_headers_get:
  "map_of (labelled_headers mode skel red hs) ''x-response-completeness'' =
     Some (if red then ''reduced'' else ''full'')"
  "map_of (labelled_headers mode skel red hs) ''content-encoding'' = map_of hs ''content-encoding''"
  "map_of (labelled_headers mode skel red hs) ''cache-control'' = map_of hs ''cache-control''"
  by (simp_all add: labelled_headers_def)

lemma representation_headers_other: "''content-encoding'' \<notin> set REPRESENTATION_HEADERS"
  by (simp add: REPRESENTATION_HEADERS_def)

lemma coded_headers_get:
  "map_of (coded_headers gz changed hs) ''content-encoding'' =
     (if gz then Some ''gzip'' else map_of hs ''content-encoding'')"
  "map_of (coded_headers gz True hs) ''cache-control'' = Some ''private, no-store''"
  by (simp_all add: coded_headers_def Let_def map_of_fold_delete representation_headers_other)

lemma base_headers_coding:
  "map_of (base_headers resp) ''content-encoding'' = header_get (r_headers resp) ''content-encoding''"
  by (simp add: base_headers_def Let_def)

lemma filter_none: "list_all (\<lambda>x. \<not> P x) xs \<Longrightarrow> filter P xs = []"
  by (induction xs) auto

section \<open>Properties\<close>

text \<open>
  C29.  Field removal removes exactly the configured dotted paths: what a document holds at any
  path is gone when a configured path is a prefix of it and is untouched otherwise, arrays on
  the way being traversed element by element.
\<close>

theorem strip_fields_exact:
  "nodes p (strip_fields data names) =
     (if list_ex (\<lambda>name. prefix (field_path name) p) names then [] else nodes p data)"
  by (simp add: strip_refines nodes_fold_strip_path list_all_iff list_ex_iff)

text \<open>
  A skeleton has at most ten items in every array at every depth, and a document whose
  arrays are short enough is not truncated: the skeleton is then the stripped document.
\<close>

theorem skeleton_bounded:
  "arrays_bounded SKELETON_MAX_ARRAY_ITEMS (make_skeleton data names) \<and>
   (arrays_bounded SKELETON_MAX_ARRAY_ITEMS (strip_fields data names) \<longrightarrow>
      make_skeleton data names = strip_fields data names)"
  by (simp add: make_skeleton_def truncate_bounded truncate_id)

abbreviation quality_of_state :: "request_state \<Rightarrow> network_quality" where
  "quality_of_state st \<equiv> case st_network_quality st of Some q \<Rightarrow> q | None \<Rightarrow> NQ_GOOD"

lemma optimize_shape:
  assumes "optimize env cfg rq resp st = Inr (resp', st', eff)" "r_status resp' \<noteq> 406"
  obtains plain gz out where
    "adapt_body env (effective_mode cfg) (quality_of_state st) (st_served_from_cache st = Some True)
       (case st_optional_fields st of Some fs \<Rightarrow> fs | None \<Rightarrow> []) (oe_render env (r_content resp)) = Inr plain"
    "gz = gzip_applies env (effective_mode cfg) (quality_of_state st)
       (header_or (req_headers rq) ''accept-encoding'' []) (base_headers resp) plain"
    "out = (if gz then oe_gzip env plain else plain)"
    "gz \<or> accepts_identity (header_or (req_headers rq) ''accept-encoding'' [])"
    "resp' = \<lparr>r_status = r_status resp,
       r_headers = filter (\<lambda>h. fst h \<noteq> ''set-cookie'')
           (labelled_headers (effective_mode cfg)
             (skeleton_selected (effective_mode cfg) (quality_of_state st) (st_served_from_cache st = Some True))
             (plain \<noteq> oe_render env (r_content resp))
             (coded_headers gz (out \<noteq> oe_render env (r_content resp)) (base_headers resp)))
         @ filter (\<lambda>h. fst h = ''set-cookie'') (r_headers resp),
       r_content = Bytes out, r_media = r_media resp\<rparr>"
    "st' = st\<lparr>st_response_size_optimized := Some (int (length out))\<rparr>"
proof -
  from assms(1) obtain plain where plain: "adapt_body env (effective_mode cfg) (quality_of_state st)
      (st_served_from_cache st = Some True) (case st_optional_fields st of Some fs \<Rightarrow> fs | None \<Rightarrow> [])
      (oe_render env (r_content resp)) = Inr plain"
    by (auto simp: optimize_def Let_def split: sum.splits)
  show ?thesis
    by (rule that [OF plain refl refl]) (use assms in \<open>auto simp: optimize_def plain Let_def split: if_splits\<close>)
qed

lemma adapted_is_document:
  assumes "adapt_body env (effective_mode cfg) (quality_of_state st) (st_served_from_cache st = Some True)
      (case st_optional_fields st of Some fs \<Rightarrow> fs | None \<Rightarrow> []) body = Inr plain" "plain \<noteq> body"
  shows "\<exists>data. oe_loads env body = Inr data \<and> oe_dumps env (adapted_document cfg st data) = Inr plain"
  using assms by (auto elim!: adapt_body_cases simp: adapted_document_def Let_def)

text \<open>
  C26.  What a client can rely on in an optimised response.  Unless the answer is 406, the body
  decodes (by gunzip when, and only when, it is labelled gzip, which the client must have accepted;
  as it is otherwise, and then the client accepts identity) to the upstream body when the response
  is labelled complete, and to the serialisation of the adapted document when it is labelled
  reduced; compression never enlarges it, the recorded size is the delivered size, a changed body
  is marked \<^verbatim>\<open>private, no-store\<close>, and every cookie of the upstream response is kept.
\<close>

theorem optimized_response_contract:
  assumes gunzip: "\<And>x. gunzip (oe_gzip env x) = x"
    and run: "\<not> optimizer_skips rq resp st" "optimize env cfg rq resp st = Inr (resp', st', eff)"
    and ok: "r_status resp' \<noteq> 406"
  shows "\<exists>plain out. r_content resp' = Bytes out \<and>
     (header_get (r_headers resp') ''content-encoding'' = Some ''gzip'' \<and> gunzip out = plain \<and>
        accepts_gzip (header_or (req_headers rq) ''accept-encoding'' []) \<or>
      header_get (r_headers resp') ''content-encoding'' = None \<and> out = plain \<and>
        accepts_identity (header_or (req_headers rq) ''accept-encoding'' [])) \<and>
     (header_get (r_headers resp') ''x-response-completeness'' = Some ''full'' \<and>
        plain = oe_render env (r_content resp) \<or>
      header_get (r_headers resp') ''x-response-completeness'' = Some ''reduced'' \<and>
        (\<exists>data. oe_loads env (oe_render env (r_content resp)) = Inr data \<and>
           oe_dumps env (adapted_document cfg st data) = Inr plain)) \<and>
     length out \<le> length plain \<and> st_response_size_optimized st' = Some (int (length out)) \<and>
     (out = oe_render env (r_content resp) \<or>
      header_get (r_headers resp') ''cache-control'' = Some ''private, no-store'') \<and>
     filter (\<lambda>h. fst h = ''set-cookie'') (r_headers resp') = filter (\<lambda>h. fst h = ''set-cookie'') (r_headers resp)"
proof -
  let ?body = "oe_render env (r_content resp)"
  let ?ae = "header_or (req_headers rq) ''accept-encoding'' []"
  from run(2) ok obtain plain gz out where
    plain: "adapt_body env (effective_mode cfg) (quality_of_state st) (st_served_from_cache st = Some True)
       (case st_optional_fields st of Some fs \<Rightarrow> fs | None \<Rightarrow> []) ?body = Inr plain"
    and gz: "gz = gzip_applies env (effective_mode cfg) (quality_of_state st) ?ae (base_headers resp) plain"
    and out: "out = (if gz then oe_gzip env plain else plain)" "gz \<or> accepts_identity ?ae"
    and resp': "resp' = \<lparr>r_status = r_status resp,
       r_headers = filter (\<lambda>h. fst h \<noteq> ''set-cookie'')
           (labelled_headers (effective_mode cfg)
             (skeleton_selected (effective_mode cfg) (quality_of_state st) (st_served_from_cache st = Some True))
             (plain \<noteq> ?body) (coded_headers gz (out \<noteq> ?body) (base_headers resp)))
         @ filter (\<lambda>h. fst h = ''set-cookie'') (r_headers resp),
       r_content = Bytes out, r_media = r_media resp\<rparr>"
    and st': "st' = st\<lparr>st_response_size_optimized := Some (int (length out))\<rparr>"
    by (rule optimize_shape)
  have enc: "header_get (r_headers resp) ''content-encoding'' = None"
    using run(1) by (simp add: optimizer_skips_def header_in_def header_get_def)
  have gzip: "gz \<Longrightarrow> accepts_gzip ?ae \<and> length (oe_gzip env plain) \<le> length plain"
    by (simp add: gz gzip_applies_def)
  have hdr: "header_get (r_headers resp') ''content-encoding'' = (if gz then Some ''gzip'' else None)"
    "header_get (r_headers resp') ''x-response-completeness'' = Some (if plain \<noteq> ?body then ''reduced'' else ''full'')"
    "out \<noteq> ?body \<Longrightarrow> header_get (r_headers resp') ''cache-control'' = Some ''private, no-store''"
    unfolding resp'
    by (simp_all only: response.select_convs header_get_rebuilt labelled_headers_get coded_headers_get
        base_headers_coding enc) (simp_all add: coded_headers_get)
  have "filter (\<lambda>h. fst h = ''set-cookie'') (r_headers resp') = filter (\<lambda>h. fst h = ''set-cookie'') (r_headers resp)"
    "r_content resp' = Bytes out" "st_response_size_optimized st' = Some (int (length out))"
    by (simp_all add: resp' st' filter_none list_all_iff)
  with hdr out gzip gunzip adapted_is_document [OF plain] show ?thesis
    by - (rule exI [of _ plain], rule exI [of _ out], cases gz; cases "plain = ?body"; auto)
qed

section \<open>Witnesses\<close>

theorem skeleton_bounded_witness:
  "make_skeleton (JArr [JObj [(''a'', JInt 1), (''b'', JNull)]]) [''b''] = JArr [JObj [(''a'', JInt 1)]]"
proof -
  have s: "strip_fields (JArr [JObj [(''a'', JInt 1), (''b'', JNull)]]) [''b''] = JArr [JObj [(''a'', JInt 1)]]"
    by (simp add: strip_fields.simps strip_loop.simps py_partition_def Let_def)
  show ?thesis
    using skeleton_bounded [of "JArr [JObj [(''a'', JInt 1), (''b'', JNull)]]" "[''b'']"]
    by (simp add: s SKELETON_MAX_ARRAY_ITEMS_def)
qed

text \<open>A codec that compresses one body, and a request that accepts it.\<close>

definition demo_swap :: "bytes \<Rightarrow> bytes" where
  "demo_swap x = (if x = replicate 300 0 then [1] else if x = [1] then replicate 300 0 else x)"

definition demo_opt_env :: optimizer_env where
  "demo_opt_env = \<lparr>oe_loads = (\<lambda>_. Inr JNull), oe_dumps = (\<lambda>_. Inr []), oe_gzip = demo_swap,
     oe_render = (\<lambda>c. case c of Bytes b \<Rightarrow> b | _ \<Rightarrow> []), oe_stack_ok = (\<lambda>_. True), oe_equal_ok = (\<lambda>_ _. True)\<rparr>"

definition demo_opt_settings :: settings where
  "demo_opt_settings = default_settings\<lparr>response_mode := Compression\<rparr>"

definition demo_opt_request :: request where
  "demo_opt_request = \<lparr>req_method = ''GET'', req_path = ''/proxy/a/b'', req_query = [],
     req_headers = [(''accept-encoding'', ''gzip'')], req_client = None\<rparr>"

definition demo_opt_response :: response where
  "demo_opt_response = \<lparr>r_status = 200, r_headers = [(''content-type'', ''application/json'')],
     r_content = Bytes (replicate 300 0), r_media = None\<rparr>"

definition demo_opt_state :: request_state where
  "demo_opt_state = fresh_state\<lparr>st_optimizable := Some True\<rparr>"

lemma demo_swap_swap: "demo_swap (demo_swap x) = x"
  by (auto simp: demo_swap_def)

lemmas demo_opt_defs = demo_opt_env_def demo_opt_settings_def demo_opt_request_def
  demo_opt_response_def demo_opt_state_def fresh_state_def

lemma demo_accepts: "accepts_gzip ''gzip''"
  by (simp add: accepts_gzip_def accepted_codings_def dict_of_items_def coding_quality_def dict_get_def
      py_eval)

lemma demo_not_skipped: "\<not> optimizer_skips demo_opt_request demo_opt_response demo_opt_state"
  by (simp add: demo_opt_defs optimizer_skips_def is_json_def header_or_def header_in_def Let_def py_eval)

lemma demo_optimized:
  "\<exists>resp' st' eff. optimize demo_opt_env demo_opt_settings demo_opt_request demo_opt_response demo_opt_state =
     Inr (resp', st', eff) \<and> r_status resp' = 200 \<and> r_content resp' = Bytes [1]"
proof -
  have "gzip_applies demo_opt_env Compression NQ_GOOD ''gzip'' (base_headers demo_opt_response) (replicate 300 0)"
    by (simp add: gzip_applies_def gzip_selected_def demo_accepts GZIP_MIN_SIZE_def base_headers_def Let_def
        demo_opt_defs demo_swap_def dict_of_headers_def dict_of_items_def header_or_def py_lower_def
        py_lower_char_def ccode_def)
  then show ?thesis
    by (simp add: optimize_def effective_mode_def adapt_body_def removal_selected_def skeleton_selected_def
        Let_def demo_opt_defs demo_swap_def header_or_def default_settings_def)
qed

theorem optimized_response_contract_witness:
  "\<exists>resp' st' eff. optimize demo_opt_env demo_opt_settings demo_opt_request demo_opt_response demo_opt_state =
       Inr (resp', st', eff) \<and>
     header_get (r_headers resp') ''content-encoding'' = Some ''gzip'' \<and>
     r_content resp' = Bytes [1] \<and> demo_swap [1] = replicate 300 0 \<and> st_response_size_optimized st' = Some 1"
proof -
  obtain resp' st' eff where run: "optimize demo_opt_env demo_opt_settings demo_opt_request
      demo_opt_response demo_opt_state = Inr (resp', st', eff)" "r_status resp' \<noteq> 406" "r_content resp' = Bytes [1]"
    using demo_optimized by auto
  have g: "\<And>x. demo_swap (oe_gzip demo_opt_env x) = x" by (simp add: demo_opt_env_def demo_swap_swap)
  have ne: "[1] \<noteq> (replicate 300 0 :: bytes)" by (auto dest: arg_cong [where f = length])
  from optimized_response_contract [OF g demo_not_skipped run(1,2)] run ne show ?thesis
    by (auto simp: demo_opt_defs demo_swap_def)
qed

end
