(* ===== verification/Py_Uuid.thy ===== *)
theory Py_Uuid
  imports Py_String "HOL-Library.Word"
begin

text \<open>
  \<^verbatim>\<open>uuid.UUID\<close> as the gateway uses it: a 128-bit identifier, its canonical text and the lenient
  parser of the constructor (URN prefixes, braces and hyphens are dropped, what remains has to be 32
  characters that \<^verbatim>\<open>int(s, 16)\<close> accepts).  The text of an identifier parses back to it.
\<close>

type_synonym uuid = "128 word"

definition hex_char :: "nat \<Rightarrow> char" where
  "hex_char d = (if d < 10 then char_of (48 + d) else char_of (87 + d))"

definition hex_val :: "char \<Rightarrow> nat option" where
  "hex_val c =
     (let n = ccode c
      in if 48 \<le> n \<and> n \<le> 57 then Some (n - 48)
         else if 97 \<le> n \<and> n \<le> 102 then Some (n - 87)
         else if 65 \<le> n \<and> n \<le> 70 then Some (n - 55) else None)"

fun hex_digits :: "nat \<Rightarrow> nat \<Rightarrow> string" where
  \<comment> \<open>the lowest \<open>k\<close> hexadecimal digits\<close>
  "hex_digits 0 n = []"
| "hex_digits (Suc k) n = hex_digits k (n div 16) @ [hex_char (n mod 16)]"

definition uuid_str :: "uuid \<Rightarrow> string" where
  "uuid_str u =
     (let h = hex_digits 32 (unat u)
      in take 8 h @ ''-'' @ take 4 (drop 8 h) @ ''-'' @ take 4 (drop 12 h) @ ''-'' @ take 4 (drop 16 h) @ ''-'' @ drop 20 h)"

function remove_all :: "string \<Rightarrow> string \<Rightarrow> string" where
  \<comment> \<open>\<^verbatim>\<open>s.replace(sub, "")\<close> for a nonempty \<open>sub\<close>\<close>
  "remove_all sub s =
     (case s of
        [] \<Rightarrow> []
      | c # r \<Rightarrow> if sub \<noteq> [] \<and> prefix sub s then remove_all sub (drop (length sub) s)
                 else c # remove_all sub r)"
  by pat_completeness auto
termination
  by (relation "measure (\<lambda>(sub, s). length s)") auto

declare remove_all.simps [simp del]

fun hex_body :: "bool \<Rightarrow> nat \<Rightarrow> string \<Rightarrow> nat option" where
  \<comment> \<open>the flag: the previous character is a digit\<close>
  "hex_body d acc [] = (if d then Some acc else None)"
| "hex_body d acc (c # s) =
     (if c = CHR ''_'' then (if d then hex_body False acc s else None)
      else case hex_val c of None \<Rightarrow> None | Some v \<Rightarrow> hex_body True (acc * 16 + v) s)"

definition py_int16 :: "string \<Rightarrow> int option" where
  \<comment> \<open>\<^verbatim>\<open>int(s, 16)\<close>\<close>
  "py_int16 s0 =
     (let s1 = py_strip s0;
          neg = prefix ''-'' s1;
          s2 = (if prefix ''-'' s1 \<or> prefix ''+'' s1 then drop 1 s1 else s1);
          prefixed = (prefix ''0x'' s2 \<or> prefix ''0X'' s2);
          s3 = (if prefixed then drop 2 s2 else s2);
          s4 = (if prefixed \<and> prefix ''_'' s3 then drop 1 s3 else s3)
      in map_option (\<lambda>n. if neg then - int n else int n) (hex_body False 0 s4))"

definition uuid_of_str :: "string \<Rightarrow> (py_error, uuid) result" where
  "uuid_of_str s =
     (let h1 = remove_all ''uuid:'' (remove_all ''urn:'' s);
          h2 = py_rstrip_by (\<lambda>c. c \<in> set ''{}'') (py_lstrip_by (\<lambda>c. c \<in> set ''{}'') h1);
          h = filter (\<lambda>c. c \<noteq> CHR ''-'') h2
      in if length h \<noteq> 32 then Inl ValueError
         else case py_int16 h of
                None \<Rightarrow> Inl ValueError
              | Some i \<Rightarrow> if 0 \<le> i \<and> i < 2 ^ 128 then Inr (of_int i) else Inl ValueError)"

section \<open>Round trip\<close>

abbreviation is_hex :: "char \<Rightarrow> bool" where
  "is_hex c \<equiv> ccode c \<in> {48..57} \<union> {97..102}"

lemma hex_char_hex: "d < 16 \<Longrightarrow> is_hex (hex_char d) \<and> hex_val (hex_char d) = Some d"
  by (simp add: hex_char_def ccode_def hex_val_def Let_def)

lemma hex_digits_props: "length (hex_digits k n) = k \<and> list_all is_hex (hex_digits k n)"
proof (induction k arbitrary: n)
  case (Suc k)
  then show ?case using hex_char_hex [of "n mod 16"] by simp
qed simp

lemma hex_not_special:
  "is_hex c \<Longrightarrow> c \<noteq> CHR ''_'' \<and> \<not> py_isspace c \<and> c \<notin> set ''{}+-xXurn:'' "
  by (auto simp: ccode_def py_isspace_def Let_def)

lemma hex_body_append:
  "list_all is_hex s \<Longrightarrow> hex_body d acc s = Some n \<Longrightarrow> s \<noteq> [] \<or> d \<Longrightarrow> x < 16 \<Longrightarrow>
   hex_body d acc (s @ [hex_char x]) = Some (n * 16 + x)"
proof (induction s arbitrary: d acc)
  case Nil
  then show ?case using hex_char_hex [of x] hex_not_special [of "hex_char x"] by (simp split: if_splits)
next
  case (Cons c s)
  from Cons.prems have c: "c \<noteq> CHR ''_''" using hex_not_special [of c] by simp
  with Cons.prems obtain v where v: "hex_val c = Some v" "hex_body True (acc * 16 + v) s = Some n"
    by (auto split: option.splits)
  have "hex_body True (acc * 16 + v) (s @ [hex_char x]) = Some (n * 16 + x)"
    by (rule Cons.IH) (use Cons.prems v in simp_all)
  then show ?case using c v by simp
qed

lemma hex_body_digits: "k \<noteq> 0 \<Longrightarrow> hex_body False 0 (hex_digits k n) = Some (n mod 16 ^ k)"
proof (induction k arbitrary: n)
  case (Suc k)
  show ?case
  proof (cases "k = 0")
    case True
    then show ?thesis using hex_char_hex [of "n mod 16"] hex_not_special [of "hex_char (n mod 16)"] by simp
  next
    case False
    have "hex_body False 0 (hex_digits k (n div 16) @ [hex_char (n mod 16)]) = Some (n div 16 mod 16 ^ k * 16 + n mod 16)"
      by (rule hex_body_append) (use Suc.IH False hex_digits_props [of k "n div 16"] in auto)
    moreover have "n div 16 mod 16 ^ k * 16 + n mod 16 = n mod 16 ^ Suc k"
      using mod_mult2_eq [of n 16 "16 ^ k"] by (simp add: algebra_simps)
    ultimately show ?thesis by simp
  qed
qed simp

lemma remove_all_absent: "c \<in> set sub \<Longrightarrow> c \<notin> set s \<Longrightarrow> remove_all sub s = s"
proof (induction s)
  case Nil
  then show ?case by (simp add: remove_all.simps)
next
  case (Cons a s)
  then have "\<not> prefix sub (a # s)" using set_mono_prefix by fastforce
  with Cons show ?case by (subst remove_all.simps) simp
qed

lemma py_int16_hex:
  assumes "list_all is_hex h" "h \<noteq> []"
  shows "py_int16 h = map_option int (hex_body False 0 h)"
proof -
  have sp: "list_all is_hex u \<Longrightarrow> dropWhile py_isspace u = u" for u by (cases u) (auto simp: hex_not_special)
  have "py_strip h = h"
    using sp [OF assms(1)] sp [of "rev h"] assms(1) by (simp add: py_strip_def py_lstrip_by_def py_rstrip_by_def)
  moreover have "\<not> prefix ''-'' h \<and> \<not> prefix ''+'' h \<and> \<not> prefix ''0x'' h \<and> \<not> prefix ''0X'' h"
  proof -
    have "\<forall>c \<in> set h. c \<notin> set ''+-xX''"
    proof
      fix c assume "c \<in> set h"
      then show "c \<notin> set ''+-xX''" using assms(1) hex_not_special [of c] by (simp add: list_all_iff)
    qed
    then have no: "\<not> prefix p h" if "c \<in> set p" "c \<in> set ''+-xX''" for p c
      using set_mono_prefix [of p h] that by blast
    show ?thesis
      using no [of "CHR ''-''" "''-''"] no [of "CHR ''+''" "''+''"] no [of "CHR ''x''" "''0x''"] no [of "CHR ''X''" "''0X''"]
      by simp
  qed
  ultimately show ?thesis by (simp add: py_int16_def Let_def)
qed

lemma uuid_roundtrip [simp]: "uuid_of_str (uuid_str u) = Inr u"
proof -
  let ?h = "hex_digits 32 (unat u)"
  have h: "length ?h = 32" "list_all is_hex ?h" using hex_digits_props by auto
  have parts: "set (uuid_str u) \<subseteq> set ?h \<union> {CHR ''-''}"
    by (auto simp: uuid_str_def Let_def dest: in_set_takeD in_set_dropD)
  have hs: "c \<in> set ?h \<Longrightarrow> c \<notin> set ''{}+-xXurn:''" for c using h(2) hex_not_special [of c] by (auto simp: list_all_iff)
  have "CHR ''u'' \<notin> set (uuid_str u)" using parts hs [of "CHR ''u''"] by auto
  then have rem: "remove_all ''uuid:'' (remove_all ''urn:'' (uuid_str u)) = uuid_str u"
    by (simp add: remove_all_absent [of "CHR ''u''"])
  have nb: "\<forall>c \<in> set (uuid_str u). c \<notin> set ''{}''" using parts hs by fastforce
  have "dropWhile (\<lambda>c. c \<in> set ''{}'') w = w" if "\<forall>c \<in> set w. c \<notin> set ''{}''" for w
    using that by (cases w) auto
  from this [OF nb] this [of "rev (uuid_str u)"] nb
  have strip: "py_rstrip_by (\<lambda>c. c \<in> set ''{}'') (py_lstrip_by (\<lambda>c. c \<in> set ''{}'') (uuid_str u)) = uuid_str u"
    by (simp add: py_rstrip_by_def py_lstrip_by_def)
  have keep: "filter (\<lambda>c. c \<noteq> CHR ''-'') w = w" if "set w \<subseteq> set ?h" for w
    using that hs by (auto simp: filter_id_conv)
  have cut: "take 4 (drop n ?h) @ drop (n + 4) ?h = drop n ?h" for n
    using append_take_drop_id [of 4 "drop n ?h"] by (simp add: add.commute)
  have sub: "set (take n (drop m ?h)) \<subseteq> set ?h" "set (drop m ?h) \<subseteq> set ?h" "set (take n ?h) \<subseteq> set ?h" for n m
    by (auto dest: in_set_takeD in_set_dropD)
  have "filter (\<lambda>c. c \<noteq> CHR ''-'') (uuid_str u) =
      take 8 ?h @ take 4 (drop 8 ?h) @ take 4 (drop 12 ?h) @ take 4 (drop 16 ?h) @ drop 20 ?h"
    unfolding uuid_str_def Let_def filter_append
    using sub by (simp add: keep)
  also have "\<dots> = ?h"
    using cut [of 8] cut [of 12] cut [of 16] append_take_drop_id [of 8 ?h] by simp
  finally have f: "filter (\<lambda>c. c \<noteq> CHR ''-'') (uuid_str u) = ?h" .
  have lim: "unat u < 16 ^ 32" using unsigned_less [of u, where ?'a = nat] by simp
  have "?h \<noteq> []" using h(1) by (metis list.size(3) zero_neq_numeral)
  then have "py_int16 ?h = Some (int (unat u))"
    using py_int16_hex [OF h(2)] hex_body_digits [of 32 "unat u"] lim by simp
  moreover have "int (unat u) < 2 ^ 128" using unsigned_less [of u, where ?'a = int] by simp
  ultimately show ?thesis
    unfolding uuid_of_str_def rem strip f Let_def using h(1) by simp
qed

end
