(* ===== verification/Auth.thy ===== *)
theory Auth
  imports Http Py_Url Py_Uuid
begin

text \<open>
  The rows of \<^verbatim>\<open>gateway/models/db.py\<close> that carry identities, \<^verbatim>\<open>gateway/auth/security.py\<close>,
  \<^verbatim>\<open>gateway/auth/dependencies.py\<close> and \<^verbatim>\<open>gateway/middleware/auth.py\<close>.  bcrypt, SHA-256 and the
  JWT library are the parameter \<open>auth_lib\<close>; instants are microseconds since the epoch.  The lemmas
  show which credential stands behind every identity the middleware hands to the application, and
  that an access token the gateway issued is one.
\<close>

section \<open>Rows\<close>

datatype datetime = Naive int | Aware int

record user_row =
  u_id :: uuid
  u_email :: string
  u_hashed_password :: string
  u_is_active :: bool
  u_is_admin :: bool
  u_created_at :: int

record token_row =
  t_hash :: string
  t_user :: uuid
  t_expires_at :: datetime
  t_revoked :: bool

record key_row =
  k_id :: uuid
  k_name :: string
  k_hash :: string
  k_prefix :: string
  k_user :: "uuid option"
  k_is_active :: bool
  k_created_at :: int

record dbase =
  db_users :: "user_row list"
  db_tokens :: "token_row list"
  db_keys :: "key_row list"

definition get_user :: "dbase \<Rightarrow> uuid \<Rightarrow> user_row option" where
  \<comment> \<open>\<^verbatim>\<open>session.get(User, id)\<close>\<close>
  "get_user db i = find (\<lambda>u. u_id u = i) (db_users db)"

datatype db_error = IntegrityError | MultipleResultsFound | DbUnavailable

definition scalar_one_or_none :: "'a list \<Rightarrow> (db_error, 'a option) result" where
  "scalar_one_or_none rows =
     (case rows of [] \<Rightarrow> Inr None | [x] \<Rightarrow> Inr (Some x) | _ \<Rightarrow> Inl MultipleResultsFound)"

section \<open>Security helpers\<close>

datatype claim = ClaimJson json | ClaimTime int

record auth_lib =
  al_bcrypt_hash :: "string \<Rightarrow> string \<Rightarrow> (py_error, string) result" \<comment> \<open>salt and password\<close>
  al_bcrypt_verify :: "string \<Rightarrow> string \<Rightarrow> (py_error, bool) result" \<comment> \<open>password and hash; passlib raises for a password with NUL\<close>
  al_sha256 :: "string \<Rightarrow> string"
  al_jwt_encode :: "(string \<times> claim) list \<Rightarrow> string \<Rightarrow> string \<Rightarrow> string"
  al_jwt_decode :: "int \<Rightarrow> string \<Rightarrow> string \<Rightarrow> string list \<Rightarrow> string list \<Rightarrow> (string \<times> json) list option"
    \<comment> \<open>now, token, key, algorithms, required claims; \<^const>\<open>None\<close>: PyJWTError\<close>

definition BCRYPT_MAX_BYTES :: nat where
  "BCRYPT_MAX_BYTES = 72"

definition utf8_length :: "string \<Rightarrow> nat" where
  "utf8_length s = length (concat (map utf8_bytes s))"

definition hash_password :: "auth_lib \<Rightarrow> string \<Rightarrow> string \<Rightarrow> (py_error, string) result" where
  "hash_password lib salt password =
     (if utf8_length password > BCRYPT_MAX_BYTES then Inl ValueError
      else al_bcrypt_hash lib salt password)"

definition verify_password :: "auth_lib \<Rightarrow> string \<Rightarrow> string \<Rightarrow> (py_error, bool) result" where
  "verify_password lib password hashed =
     (if utf8_length password > BCRYPT_MAX_BYTES then Inr False else al_bcrypt_verify lib password hashed)"

definition access_claims :: "settings \<Rightarrow> int \<Rightarrow> string \<Rightarrow> (string \<times> claim) list \<Rightarrow> (string \<times> claim) list" where
  "access_claims cfg issued subject extra =
     fold (\<lambda>(k, v). AList.update k v) extra
       [(''sub'', ClaimJson (JStr subject)), (''iat'', ClaimTime issued),
        (''exp'', ClaimTime (issued + access_token_ttl_minutes cfg * 60000000)),
        (''type'', ClaimJson (JStr ''access''))]"

definition create_access_token :: "auth_lib \<Rightarrow> settings \<Rightarrow> int \<Rightarrow> string \<Rightarrow> (string \<times> claim) list \<Rightarrow> string" where
  "create_access_token lib cfg issued subject extra =
     al_jwt_encode lib (access_claims cfg issued subject extra) (secret_key cfg) (jwt_algorithm cfg)"

definition decode_access_token :: "auth_lib \<Rightarrow> settings \<Rightarrow> int \<Rightarrow> string \<Rightarrow> (string \<times> json) list option" where
  "decode_access_token lib cfg now token =
     (case al_jwt_decode lib now token (secret_key cfg) [jwt_algorithm cfg] [''exp'', ''iat'', ''sub''] of
        None \<Rightarrow> None
      | Some payload \<Rightarrow>
          if map_of payload ''type'' \<noteq> Some (JStr ''access'') \<or> \<not> truthy (dict_get payload ''sub'' JNull)
          then None else Some payload)"

definition access_token_ttl_seconds :: "settings \<Rightarrow> int" where
  "access_token_ttl_seconds cfg = access_token_ttl_minutes cfg * 60"

definition hash_token :: "auth_lib \<Rightarrow> string \<Rightarrow> string" where
  "hash_token lib raw = al_sha256 lib raw"

definition refresh_token_expiry :: "settings \<Rightarrow> int \<Rightarrow> datetime" where
  "refresh_token_expiry cfg now = Aware (now + refresh_token_ttl_days cfg * 86400000000)"

definition generate_refresh_token :: "auth_lib \<Rightarrow> string \<Rightarrow> string \<times> string" where
  \<comment> \<open>the random text\<close>
  "generate_refresh_token lib raw = (raw, hash_token lib raw)"

definition generate_api_key :: "auth_lib \<Rightarrow> string \<Rightarrow> string \<Rightarrow> string \<times> string \<times> string" where
  \<comment> \<open>the two random texts\<close>
  "generate_api_key lib key_prefix secret =
     (let raw = ''agw_'' @ key_prefix @ ''_'' @ secret in (raw, key_prefix, hash_token lib raw))"

section \<open>Dependencies\<close>

definition require_principal :: "request_state \<Rightarrow> (http_exception, string option) result" where
  "require_principal st =
     (if st_authenticated st \<noteq> Some True
      then Inl (HTTPException 401 ''authentication required'' [(''WWW-Authenticate'', ''Bearer'')])
      else Inr (st_user_id st))"

definition require_admin :: "request_state \<Rightarrow> (http_exception, string option) result" where
  "require_admin st =
     (case require_principal st of
        Inl e \<Rightarrow> Inl e
      | Inr who \<Rightarrow>
          if st_is_admin st \<noteq> Some True then Inl (HTTPException 403 ''admin privileges required'' [])
          else Inr who)"

section \<open>The middleware\<close>

definition PUBLIC_PREFIXES :: "string list" where
  "PUBLIC_PREFIXES = [''/health'', ''/metrics'', ''/docs'', ''/redoc'', ''/openapi.json'', ''/auth'', ''/favicon.ico'']"

definition is_public :: "string \<Rightarrow> bool" where
  "is_public path = (path = ''/'' \<or> list_ex (\<lambda>p. path = p \<or> py_startswith path (p @ ''/'')) PUBLIC_PREFIXES)"

definition unauthorized :: "string \<Rightarrow> response" where
  "unauthorized detail = (json_error 401 detail)\<lparr>r_headers := raw_headers [(''WWW-Authenticate'', ''Bearer'')]\<rparr>"

definition auth_unavailable :: response where
  "auth_unavailable = json_error 503 ''authentication unavailable''"

definition uuid_of_claim :: "json \<Rightarrow> (py_error, uuid) result" where
  "uuid_of_claim v = (case v of JStr s \<Rightarrow> uuid_of_str s | _ \<Rightarrow> Inl AttributeError)"

definition bearer_user ::
  "auth_lib \<Rightarrow> settings \<Rightarrow> dbase option \<Rightarrow> int \<Rightarrow> string \<Rightarrow> (py_error, response + user_row) result" where
  \<comment> \<open>no database: \<^verbatim>\<open>SQLAlchemyError\<close>\<close>
  "bearer_user lib cfg dbo now token =
     (case decode_access_token lib cfg now token of
        None \<Rightarrow> Inr (Inl (unauthorized ''invalid or expired token''))
      | Some payload \<Rightarrow>
          (case (case map_of payload ''sub'' of None \<Rightarrow> Inl KeyError | Some v \<Rightarrow> uuid_of_claim v) of
             Inl e \<Rightarrow> if e \<in> {ValueError, TypeError, KeyError}
                      then Inr (Inl (unauthorized ''invalid token subject'')) else Inl e
           | Inr i \<Rightarrow>
               (case dbo of
                  None \<Rightarrow> Inr (Inl auth_unavailable)
                | Some db \<Rightarrow>
                    (case get_user db i of
                       None \<Rightarrow> Inr (Inl (unauthorized ''invalid or disabled account''))
                     | Some user \<Rightarrow>
                         if \<not> u_is_active user then Inr (Inl (unauthorized ''invalid or disabled account''))
                         else Inr (Inr user)))))"

definition verify_api_key :: "auth_lib \<Rightarrow> dbase \<Rightarrow> string \<Rightarrow> (db_error, string option) result" where
  "verify_api_key lib db raw_key =
     (case scalar_one_or_none (filter (\<lambda>k. k_hash k = hash_token lib raw_key \<and> k_is_active k) (db_keys db)) of
        Inl e \<Rightarrow> Inl e
      | Inr None \<Rightarrow> Inr None
      | Inr (Some key) \<Rightarrow>
          (case k_user key of
             None \<Rightarrow> Inr (Some (uuid_str (k_id key)))
           | Some i \<Rightarrow>
               (case get_user db i of
                  None \<Rightarrow> Inr None
                | Some user \<Rightarrow> Inr (if u_is_active user then Some (uuid_str i) else None))))"

definition authenticate ::
  "auth_lib \<Rightarrow> settings \<Rightarrow> dbase option \<Rightarrow> int \<Rightarrow> request \<Rightarrow> request_state \<Rightarrow> (py_error, response + request_state) result" where
  \<comment> \<open>the refusal, or the state the application is called with\<close>
  "authenticate lib cfg dbo now rq st0 =
     (let auth_header = header_or (req_headers rq) ''authorization'' [];
          api_key = header_or (req_headers rq) ''x-api-key'' []
      in if is_public (req_path rq) then Inr (Inr st0)
         else if py_startswith (py_lower auth_header) ''bearer ''
         then (case bearer_user lib cfg dbo now (py_strip (drop 7 auth_header)) of
                 Inl e \<Rightarrow> Inl e
               | Inr (Inl resp) \<Rightarrow> Inr (Inl resp)
               | Inr (Inr user) \<Rightarrow>
                   Inr (Inr (st0\<lparr>st_authenticated := Some True, st_user_id := Some (uuid_str (u_id user)),
                                  st_is_admin := Some (u_is_admin user), st_auth_type := Some AuthJwt\<rparr>)))
         else if api_key \<noteq> []
         then (case dbo of
                 None \<Rightarrow> Inr (Inl auth_unavailable)
               | Some db \<Rightarrow>
                   (case verify_api_key lib db api_key of
                      Inl _ \<Rightarrow> Inr (Inl auth_unavailable)
                    | Inr None \<Rightarrow> Inr (Inl (unauthorized ''invalid API key''))
                    | Inr (Some who) \<Rightarrow>
                        Inr (Inr (st0\<lparr>st_authenticated := Some True, st_user_id := Some who,
                                       st_auth_type := Some AuthApiKey\<rparr>))))
         else if auth_header \<noteq> [] then Inr (Inl (unauthorized ''unsupported authorization scheme''))
         else Inr (Inr st0))"

definition auth_dispatch ::
  "auth_lib \<Rightarrow> settings \<Rightarrow> dbase option \<Rightarrow> int \<Rightarrow> request \<Rightarrow> 'r app \<Rightarrow> 'r app" where
  "auth_dispatch lib cfg dbo now rq call_next st r =
     (let st0 = st\<lparr>st_authenticated := Some False, st_user_id := None, st_is_admin := Some False, st_auth_type := None\<rparr>
      in case authenticate lib cfg dbo now rq st0 of
           Inl e \<Rightarrow> ((Inl e, st0, []), r)
         | Inr (Inl resp) \<Rightarrow> ((Inr resp, st0, []), r)
         | Inr (Inr st1) \<Rightarrow> call_next st1 r)"

section \<open>Which credential stands behind an identity\<close>

text \<open>What the application may conclude from the state it is given.\<close>

definition anonymous :: "request \<Rightarrow> request_state \<Rightarrow> bool" where
  "anonymous rq st =
     (st_authenticated st = Some False \<and> st_user_id st = None \<and> st_is_admin st = Some False \<and> st_auth_type st = None \<and>
      (is_public (req_path rq) \<or>
       header_or (req_headers rq) ''authorization'' [] = [] \<and> header_or (req_headers rq) ''x-api-key'' [] = []))"

definition token_identity :: "auth_lib \<Rightarrow> settings \<Rightarrow> dbase \<Rightarrow> int \<Rightarrow> request \<Rightarrow> request_state \<Rightarrow> bool" where
  "token_identity lib cfg db now rq st =
     (\<exists>payload subject user.
        decode_access_token lib cfg now (py_strip (drop 7 (header_or (req_headers rq) ''authorization'' []))) = Some payload \<and>
        map_of payload ''sub'' = Some (JStr subject) \<and> uuid_of_str subject = Inr (u_id user) \<and>
        user \<in> set (db_users db) \<and> u_is_active user \<and>
        st_authenticated st = Some True \<and> st_user_id st = Some (uuid_str (u_id user)) \<and>
        st_is_admin st = Some (u_is_admin user) \<and> st_auth_type st = Some AuthJwt)"

definition key_identity :: "auth_lib \<Rightarrow> dbase \<Rightarrow> request \<Rightarrow> request_state \<Rightarrow> bool" where
  "key_identity lib db rq st =
     (\<exists>key. key \<in> set (db_keys db) \<and> k_is_active key \<and>
        k_hash key = hash_token lib (header_or (req_headers rq) ''x-api-key'' []) \<and>
        (case k_user key of
           None \<Rightarrow> st_user_id st = Some (uuid_str (k_id key))
         | Some i \<Rightarrow> st_user_id st = Some (uuid_str i) \<and> (\<exists>user \<in> set (db_users db). u_id user = i \<and> u_is_active user)) \<and>
        st_authenticated st = Some True \<and> st_is_admin st = Some False \<and> st_auth_type st = Some AuthApiKey)"

lemma get_userD: "get_user db i = Some u \<Longrightarrow> u \<in> set (db_users db) \<and> u_id u = i"
  by (auto simp: get_user_def find_Some_iff)

lemma bearer_userD:
  assumes "bearer_user lib cfg dbo now token = Inr (Inr user)"
  obtains payload subject db where "decode_access_token lib cfg now token = Some payload"
    "map_of payload ''sub'' = Some (JStr subject)" "uuid_of_str subject = Inr (u_id user)"
    "dbo = Some db" "user \<in> set (db_users db)" "u_is_active user"
  using assms that
  by (auto simp: bearer_user_def uuid_of_claim_def dest!: get_userD split: option.splits sum.splits if_splits json.splits)

lemma bearer_user_rejects:
  "bearer_user lib cfg dbo now token = Inr (Inl resp) \<Longrightarrow> r_status resp \<in> {401, 503}"
  by (auto simp: bearer_user_def unauthorized_def auth_unavailable_def json_error_def
      split: option.splits sum.splits if_splits)

lemma verify_api_keyD:
  assumes "verify_api_key lib db raw = Inr (Some who)"
  obtains key where "key \<in> set (db_keys db)" "k_is_active key" "k_hash key = hash_token lib raw"
    "case k_user key of None \<Rightarrow> who = uuid_str (k_id key)
     | Some i \<Rightarrow> who = uuid_str i \<and> (\<exists>user \<in> set (db_users db). u_id user = i \<and> u_is_active user)"
proof -
  from assms obtain key where k: "filter (\<lambda>k. k_hash k = hash_token lib raw \<and> k_is_active k) (db_keys db) = [key]"
    by (auto simp: verify_api_key_def scalar_one_or_none_def split: sum.splits option.splits list.splits)
  then have "key \<in> set (filter (\<lambda>k. k_hash k = hash_token lib raw \<and> k_is_active k) (db_keys db))" by simp
  moreover have "case k_user key of None \<Rightarrow> who = uuid_str (k_id key)
     | Some i \<Rightarrow> who = uuid_str i \<and> (\<exists>user \<in> set (db_users db). u_id user = i \<and> u_is_active user)"
    using assms k
    by (auto simp: verify_api_key_def scalar_one_or_none_def dest!: get_userD split: option.splits if_splits)
  ultimately show thesis using that by auto
qed

lemma authenticate_refusal:
  assumes "authenticate lib cfg dbo now rq st0 = Inr (Inl resp)"
  shows "r_status resp \<in> {401, 503}"
proof -
  have "r_status (unauthorized d) = 401" for d by (simp add: unauthorized_def json_error_def)
  moreover have "r_status auth_unavailable = 503" by (simp add: auth_unavailable_def json_error_def)
  ultimately show ?thesis
    using assms bearer_user_rejects
    by (auto simp: authenticate_def Let_def split: if_splits sum.splits option.splits)
qed

lemma authenticate_identity:
  assumes "authenticate lib cfg dbo now rq st0 = Inr (Inr st1)"
    and "st_authenticated st0 = Some False" "st_user_id st0 = None" "st_is_admin st0 = Some False" "st_auth_type st0 = None"
  shows "anonymous rq st1 \<or> (\<exists>db. dbo = Some db \<and> (token_identity lib cfg db now rq st1 \<or> key_identity lib db rq st1))"
proof -
  let ?hdr = "header_or (req_headers rq) ''authorization'' []" and ?key = "header_or (req_headers rq) ''x-api-key'' []"
  note run = assms(1) [unfolded authenticate_def Let_def]
  consider (open_path) "is_public (req_path rq)"
    | (bearer) "\<not> is_public (req_path rq)" "prefix ''bearer '' (py_lower ?hdr)"
    | (api) "\<not> is_public (req_path rq)" "\<not> prefix ''bearer '' (py_lower ?hdr)" "?key \<noteq> []"
    | (other) "\<not> is_public (req_path rq)" "\<not> prefix ''bearer '' (py_lower ?hdr)" "?key = []" by blast
  then show ?thesis
  proof cases
    case open_path
    then show ?thesis using run assms by (auto simp: anonymous_def)
  next
    case bearer
    then obtain user where user: "bearer_user lib cfg dbo now (py_strip (drop 7 ?hdr)) = Inr (Inr user)"
      "st1 = st0\<lparr>st_authenticated := Some True, st_user_id := Some (uuid_str (u_id user)),
         st_is_admin := Some (u_is_admin user), st_auth_type := Some AuthJwt\<rparr>"
      using run by (auto split: sum.splits)
    from user(1) show ?thesis by (rule bearer_userD) (auto simp: token_identity_def user(2))
  next
    case api
    then obtain db who where db: "dbo = Some db" "verify_api_key lib db ?key = Inr (Some who)"
      "st1 = st0\<lparr>st_authenticated := Some True, st_user_id := Some who, st_auth_type := Some AuthApiKey\<rparr>"
      using run by (auto split: sum.splits option.splits)
    from db(2) show ?thesis
    proof (rule verify_api_keyD)
      fix key assume "key \<in> set (db_keys db)" "k_is_active key" "k_hash key = hash_token lib ?key"
        "case k_user key of None \<Rightarrow> who = uuid_str (k_id key)
         | Some i \<Rightarrow> who = uuid_str i \<and> (\<exists>user \<in> set (db_users db). u_id user = i \<and> u_is_active user)"
      then have "key_identity lib db rq st1"
        using assms(4) unfolding key_identity_def db(3) by (intro exI [of _ key]) (auto split: option.splits)
      then show ?thesis using db(1) by blast
    qed
  next
    case other
    then show ?thesis using run assms by (auto simp: anonymous_def split: if_splits)
  qed
qed

text \<open>How the JWT library renders a claim: an instant becomes whole seconds.\<close>

definition claim_json :: "claim \<Rightarrow> json" where
  "claim_json c = (case c of ClaimJson j \<Rightarrow> j | ClaimTime t \<Rightarrow> JInt (t div 1000000))"

definition user_claims :: "settings \<Rightarrow> int \<Rightarrow> user_row \<Rightarrow> (string \<times> claim) list" where
  \<comment> \<open>what \<open>issue_tokens\<close> signs\<close>
  "user_claims cfg issued user =
     access_claims cfg issued (uuid_str (u_id user)) [(''is_admin'', ClaimJson (JBool (u_is_admin user)))]"

lemma uuid_str_nonempty [simp]: "uuid_str u \<noteq> []"
  by (simp add: uuid_str_def Let_def)

lemma decode_user_claims:
  assumes "al_jwt_decode lib now token (secret_key cfg) [jwt_algorithm cfg] [''exp'', ''iat'', ''sub''] =
      Some (map (\<lambda>(k, c). (k, claim_json c)) (user_claims cfg issued user))"
  shows "\<exists>payload. decode_access_token lib cfg now token = Some payload \<and> map_of payload ''sub'' = Some (JStr (uuid_str (u_id user)))"
  using assms
  by (simp add: decode_access_token_def user_claims_def access_claims_def claim_json_def dict_get_def)

lemma get_user_unique:
  assumes "user \<in> set (db_users db)" "distinct (map u_id (db_users db))"
  shows "get_user db (u_id user) = Some user"
proof -
  have "\<exists>w. get_user db (u_id user) = Some w"
    using assms(1) find_None_iff [of "\<lambda>u. u_id u = u_id user" "db_users db"] by (auto simp: get_user_def)
  then obtain w where w: "get_user db (u_id user) = Some w" ..
  from get_userD [OF w] assms have "w = user" by (metis (mono_tags) distinct_map inj_on_def)
  with w show ?thesis by simp
qed

lemma bearer_of_issued:
  assumes "al_jwt_decode lib now token (secret_key cfg) [jwt_algorithm cfg] [''exp'', ''iat'', ''sub''] =
      Some (map (\<lambda>(k, c). (k, claim_json c)) (user_claims cfg issued then_user))"
    and "user \<in> set (db_users db)" "u_id user = u_id then_user" "distinct (map u_id (db_users db))"
  shows "bearer_user lib cfg (Some db) now token =
    Inr (if u_is_active user then Inr user else Inl (unauthorized ''invalid or disabled account''))"
proof -
  obtain payload where "decode_access_token lib cfg now token = Some payload"
    "map_of payload ''sub'' = Some (JStr (uuid_str (u_id then_user)))" using decode_user_claims [OF assms(1)] by blast
  then show ?thesis using get_user_unique [OF assms(2,4)] assms(3) by (simp add: bearer_user_def uuid_of_claim_def)
qed

definition refusal :: "(py_error, response) result \<Rightarrow> bool" where
  \<comment> \<open>401 or 503, or an exception that becomes 500\<close>
  "refusal res = (case res of Inl e \<Rightarrow> True | Inr resp \<Rightarrow> r_status resp \<in> {401, 503})"

lemma auth_dispatch_cases [consumes 1, case_names refused called]:
  fixes st :: request_state
  defines "st0 \<equiv> st\<lparr>st_authenticated := Some False, st_user_id := None, st_is_admin := Some False, st_auth_type := None\<rparr>"
  assumes "auth_dispatch lib cfg dbo now rq call_next st r = ((res, st', eff), r')"
  obtains "refusal res" "st' = st0" "eff = []" "r' = r"
  | st1 where "call_next st1 r = ((res, st', eff), r')"
      "anonymous rq st1 \<or> (\<exists>db. dbo = Some db \<and> (token_identity lib cfg db now rq st1 \<or> key_identity lib db rq st1))"
proof (cases "authenticate lib cfg dbo now rq st0")
  case (Inl e)
  then show thesis using that(1) assms(2) by (auto simp: auth_dispatch_def st0_def Let_def refusal_def)
next
  case (Inr answer)
  show thesis
  proof (cases answer)
    case (Inl resp)
    then show thesis using that(1) assms(2) Inr authenticate_refusal
      by (fastforce simp: auth_dispatch_def st0_def Let_def refusal_def)
  next
    case st1: (Inr st1)
    then have "call_next st1 r = ((res, st', eff), r')" using assms(2) Inr by (simp add: auth_dispatch_def st0_def Let_def)
    then show thesis using that(2) authenticate_identity [OF Inr [unfolded st1]] by (simp add: st0_def)
  qed
qed

section \<open>Properties\<close>

text \<open>
  C7.  Every identity has a valid credential behind it.  A request reaches the application only
  anonymously, when its path is public or it carries no credential; or as an active user named by a
  valid access token, with exactly that user's administrator flag; or as the active API key it
  presents (whose owner, if any, is active), and then never as an administrator.  Otherwise it is
  refused with 401 or 503, or the middleware raises, and the application is not called.
\<close>

theorem identity_backed_by_credential:
  assumes "auth_dispatch lib cfg dbo now rq call_next st r = ((res, st', eff), r')"
  shows "(r' = r \<and> eff = [] \<and> refusal res \<and> st_authenticated st' = Some False) \<or>
    (\<exists>st1. call_next st1 r = ((res, st', eff), r') \<and>
       (anonymous rq st1 \<or>
        (\<exists>db. dbo = Some db \<and> (token_identity lib cfg db now rq st1 \<or> key_identity lib db rq st1))))"
  using assms by (cases rule: auth_dispatch_cases) auto

text \<open>
  C30.  An access token works for exactly as long as its account does: while the library verifies a
  token that was issued for a user, a request that carries it is handed to the application under that
  user's identifier and current administrator flag, whatever the flag was when the token was issued;
  once the account is disabled the same request is refused.
\<close>

theorem issued_token_authenticates:
  fixes st :: request_state
  assumes token: "token = create_access_token lib cfg issued (uuid_str (u_id then_user))
        [(''is_admin'', ClaimJson (JBool (u_is_admin then_user)))]" "py_strip token = token"
    and verified: "al_jwt_decode lib now token (secret_key cfg) [jwt_algorithm cfg] [''exp'', ''iat'', ''sub''] =
        Some (map (\<lambda>(k, c). (k, claim_json c)) (user_claims cfg issued then_user))"
    and account: "user \<in> set (db_users db)" "u_id user = u_id then_user" "distinct (map u_id (db_users db))"
    and request: "\<not> is_public (req_path rq)" "header_get (req_headers rq) ''authorization'' = Some (''Bearer '' @ token)"
  defines "st0 \<equiv> st\<lparr>st_authenticated := Some False, st_user_id := None, st_is_admin := Some False, st_auth_type := None\<rparr>"
  shows "auth_dispatch lib cfg (Some db) now rq call_next st r =
    (if u_is_active user
     then call_next (st0\<lparr>st_authenticated := Some True, st_user_id := Some (uuid_str (u_id user)),
                   st_is_admin := Some (u_is_admin user), st_auth_type := Some AuthJwt\<rparr>) r
     else ((Inr (unauthorized ''invalid or disabled account''), st0, []), r))"
proof -
  have hdr: "header_or (req_headers rq) ''authorization'' [] = ''Bearer '' @ token"
    using request(2) by (simp add: header_or_def header_get_def)
  have "py_lower (''Bearer '' @ token) = py_lower ''Bearer '' @ py_lower token" unfolding py_lower_def by (rule map_append)
  moreover have "py_lower ''Bearer '' = ''bearer ''" by code_simp
  ultimately have scheme: "prefix ''bearer '' (py_lower (''Bearer '' @ token))" by simp
  have strip: "py_strip (drop 7 (''Bearer '' @ token)) = token" using token(2) by simp
  have "authenticate lib cfg (Some db) now rq st0 =
      Inr (if u_is_active user then Inr (st0\<lparr>st_authenticated := Some True, st_user_id := Some (uuid_str (u_id user)),
             st_is_admin := Some (u_is_admin user), st_auth_type := Some AuthJwt\<rparr>)
           else Inl (unauthorized ''invalid or disabled account''))"
    unfolding authenticate_def Let_def hdr strip bearer_of_issued [OF verified account] using request(1) scheme by simp
  then show ?thesis by (simp add: auth_dispatch_def st0_def [symmetric] Let_def)
qed

section \<open>Witnesses\<close>

definition demo_user :: user_row where
  "demo_user = \<lparr>u_id = 7, u_email = ''a@b'', u_hashed_password = ''h'', u_is_active = True, u_is_admin = True,
     u_created_at = 0\<rparr>"

definition demo_auth_lib :: auth_lib where
  "demo_auth_lib = \<lparr>al_bcrypt_hash = (\<lambda>salt p. if CHR 0x00 \<in> set p then Inl ValueError else Inr (salt @ p)),
     al_bcrypt_verify = (\<lambda>p h. if CHR 0x00 \<in> set p then Inl ValueError else Inr (suffix p h)),
     al_sha256 = (\<lambda>s. s), al_jwt_encode = (\<lambda>claims key alg. ''token''),
     al_jwt_decode = (\<lambda>now token key algs required. if token = ''token'' \<and> now < 900000000
        then Some (map (\<lambda>(k, c). (k, claim_json c)) (user_claims default_settings 0 demo_user)) else None)\<rparr>"

definition demo_db :: dbase where
  "demo_db = \<lparr>db_users = [demo_user], db_tokens = [], db_keys = []\<rparr>"

definition demo_admin_request :: request where
  "demo_admin_request = \<lparr>req_method = ''GET'', req_path = ''/admin/queue'', req_query = [],
     req_headers = [(''authorization'', ''Bearer token'')], req_client = None\<rparr>"

definition demo_echo :: "unit app" where
  \<comment> \<open>an application that answers with the identity it was given\<close>
  "demo_echo st r = ((Inr (json_error 200 (case st_user_id st of Some u \<Rightarrow> u | None \<Rightarrow> ''-'')), st, []), r)"

lemma demo_admin_simps [simp]:
  "\<not> is_public (req_path demo_admin_request)"
  "header_get (req_headers demo_admin_request) ''authorization'' = Some ''Bearer token''"
  "al_jwt_decode demo_auth_lib 0 ''token'' k a q = Some (map (\<lambda>(k, c). (k, claim_json c)) (user_claims default_settings 0 demo_user))"
  by (simp_all add: demo_admin_request_def is_public_def PUBLIC_PREFIXES_def header_get_def demo_auth_lib_def)

theorem issued_token_authenticates_witness:
  "\<exists>resp st1. auth_dispatch demo_auth_lib default_settings (Some demo_db) 0 demo_admin_request demo_echo fresh_state () =
       ((Inr resp, st1, []), ()) \<and> st_user_id st1 = Some (uuid_str 7) \<and> st_is_admin st1 = Some True"
proof -
  have "py_strip ''token'' = ''token''" by (simp add: py_eval)
  then show ?thesis
    using issued_token_authenticates [of "''token''" demo_auth_lib default_settings 0 demo_user 0 demo_user demo_db
        demo_admin_request demo_echo fresh_state "()"]
    by (simp add: create_access_token_def demo_db_def demo_echo_def) (simp add: demo_user_def demo_auth_lib_def demo_echo_def)
qed

theorem identity_backed_by_credential_witness:
  "\<exists>st1. demo_echo st1 () = ((Inr (json_error 200 ''-''), st1, []), ()) \<and> anonymous (demo_admin_request\<lparr>req_headers := []\<rparr>) st1"
proof -
  let ?rq = "demo_admin_request\<lparr>req_headers := []\<rparr>"
  obtain st1 where run: "auth_dispatch demo_auth_lib default_settings None 0 ?rq demo_echo fresh_state () =
      ((Inr (json_error 200 ''-''), st1, []), ())"
    by (simp add: auth_dispatch_def authenticate_def demo_echo_def header_or_def Let_def fresh_state_def demo_admin_request_def
        is_public_def PUBLIC_PREFIXES_def py_lower_def)
  from identity_backed_by_credential [OF run] show ?thesis
    by (auto simp: json_error_def demo_echo_def refusal_def)
qed

end
