(* ===== verification/Rate_Limit.thy ===== *)
theory Rate_Limit
  imports Http Redis_Service Client_Identity
begin

text \<open>
  \<^verbatim>\<open>gateway/middleware/rate_limit.py\<close>: fixed-window counters in Redis, the per-endpoint helper
  and the global middleware.  The lemmas show that a window admits exactly the first \<open>limit\<close>
  requests, and what happens when the server does not answer.
\<close>

section \<open>Model\<close>

definition rate_skip_prefixes :: "string list" where
  "rate_skip_prefixes = [''/health'', ''/metrics'', ''/docs'', ''/redoc'', ''/openapi.json'']"

definition incr_script :: "'r redis_kv \<Rightarrow> int \<Rightarrow> string \<Rightarrow> int \<Rightarrow> 'r \<Rightarrow> (redis_error, int) result \<times> 'r" where
  \<comment> \<open>INCR, and EXPIRE when the counter is new, in one step of the server\<close>
  "incr_script ops t key window r =
     (case rk_incr ops t key r of
        (Inl e, r1) \<Rightarrow> (Inl e, r1)
      | (Inr n, r1) \<Rightarrow>
          if n = 1
          then (case rk_expire ops t key window r1 of
                  (Inl e, r2) \<Rightarrow> (Inl e, r2)
                | (Inr _, r2) \<Rightarrow> (Inr n, r2))
          else (Inr n, r1))"

definition check_rate_limit ::
  "'r redis_kv \<Rightarrow> settings \<Rightarrow> int \<Rightarrow> string \<Rightarrow> int \<Rightarrow> int \<Rightarrow> 'r \<Rightarrow>
     (http_exception, bool \<times> int) result \<times> 'r" where
  "check_rate_limit ops cfg t key limit window r =
     (case incr_script ops t key window r of
        (Inl _, r') \<Rightarrow>
          (if is_production cfg then Inl (HTTPException 503 ''rate limiter unavailable'' [])
           else Inr (True, limit), r')
      | (Inr count, r') \<Rightarrow> (Inr (count \<le> limit, max (limit - count) 0), r'))"

definition enforce_rate_limit ::
  "'r redis_kv \<Rightarrow> 'ip ip_lib \<Rightarrow> settings \<Rightarrow> int \<Rightarrow> request \<Rightarrow> string \<Rightarrow> int \<Rightarrow> int \<Rightarrow> 'r \<Rightarrow>
     (http_exception, unit) result \<times> 'r" where
  "enforce_rate_limit ops ipl cfg t rq scope limit window r =
     (let key = ''ratelimit:'' @ scope @ '':'' @ request_client_ip ipl cfg rq
      in case check_rate_limit ops cfg t key limit window r of
           (Inl e, r') \<Rightarrow> (Inl e, r')
         | (Inr (allowed, _), r') \<Rightarrow>
             (if allowed then Inr ()
              else Inl (HTTPException 429 ''rate limit exceeded'' [(''Retry-After'', str_of_int window)]), r'))"

definition rate_limit_dispatch ::
  "'r redis_kv \<Rightarrow> 'ip ip_lib \<Rightarrow> settings \<Rightarrow> int \<Rightarrow> request \<Rightarrow> 'r app \<Rightarrow> 'r app" where
  "rate_limit_dispatch ops ipl cfg t rq call_next st r =
     (if list_ex (py_startswith (req_path rq)) rate_skip_prefixes then call_next st r
      else
        let key = ''ratelimit:global:'' @ request_client_ip ipl cfg rq
        in case check_rate_limit ops cfg t key (global_rate_limit cfg) (global_rate_window_seconds cfg) r of
             (Inl e, r1) \<Rightarrow> ((Inr (json_error (he_status e) (he_detail e)), st, []), r1)
           | (Inr (allowed, remaining), r1) \<Rightarrow>
               if \<not> allowed
               then ((Inr ((json_error 429 ''rate limit exceeded'')
                        \<lparr>r_headers := raw_headers [(''Retry-After'', str_of_int (global_rate_window_seconds cfg))]\<rparr>), st, []), r1)
               else (case call_next st r1 of
                       ((Inl e, st', eff), r2) \<Rightarrow> ((Inl e, st', eff), r2)
                     | ((Inr resp, st', eff), r2) \<Rightarrow>
                         ((Inr (resp\<lparr>r_headers :=
                            set_header ''X-RateLimit-Remaining'' (str_of_int remaining)
                              (set_header ''X-RateLimit-Limit'' (str_of_int (global_rate_limit cfg))
                                (r_headers resp))\<rparr>), st', eff), r2)))"

section \<open>A window of requests\<close>

text \<open>
  Successive checks of one counter, each after whatever the rest of the system did to the server.
\<close>

fun run_checks ::
  "'r redis_kv \<Rightarrow> settings \<Rightarrow> string \<Rightarrow> int \<Rightarrow> int \<Rightarrow> (int \<times> ('r \<Rightarrow> 'r)) list \<Rightarrow> 'r \<Rightarrow>
     (http_exception, bool \<times> int) result list" where
  "run_checks ops cfg key limit window [] r = []"
| "run_checks ops cfg key limit window ((t, other) # steps) r =
     (case check_rate_limit ops cfg t key limit window (other r) of
        (res, r') \<Rightarrow> res # run_checks ops cfg key limit window steps r')"

fun run_scripts :: "'r redis_kv \<Rightarrow> string \<Rightarrow> int \<Rightarrow> (int \<times> ('r \<Rightarrow> 'r)) list \<Rightarrow> 'r \<Rightarrow> (redis_error, int) result list" where
  \<comment> \<open>the replies the server gives in that run\<close>
  "run_scripts ops key window [] r = []"
| "run_scripts ops key window ((t, other) # steps) r =
     (case incr_script ops t key window (other r) of
        (res, r') \<Rightarrow> res # run_scripts ops key window steps r')"

definition leaves_key :: "'r kv_view \<Rightarrow> string \<Rightarrow> ('r \<Rightarrow> 'r) \<Rightarrow> bool" where
  "leaves_key view key other = (\<forall>r t. view t (other r) key = view t r key)"

definition counting :: "'r kv_view \<Rightarrow> string \<Rightarrow> int \<Rightarrow> int \<Rightarrow> int \<Rightarrow> 'r \<Rightarrow> bool" where
  "counting view key t expires n r =
     (\<forall>t' \<ge> t. view t' r key = (if t' < expires then Some (str_of_int n) else None))"

lemma counter_val_str: "0 \<le> n \<Longrightarrow> counter_val (Some (str_of_int n)) = n"
  by (simp add: counter_val_def str_of_int_def)

context redis_kv_laws
begin

lemma script_first:
  assumes "incr_script ops t key window r = (Inr n, r')" "view t r key = None" "0 < window"
  shows "n = 1" "counting view key t (t + window * 1000) 1 r'"
proof -
  obtain m r1 where i: "rk_incr ops t key r = (Inr m, r1)"
    using assms(1) by (auto simp: incr_script_def split: prod.splits sum.splits)
  have m: "m = 1" using incr_reply [OF i] assms(2) by (simp add: counter_val_def)
  obtain b where x: "rk_expire ops t key window r1 = (Inr b, r')"
    using assms(1) i m by (auto simp: incr_script_def split: prod.splits sum.splits)
  show "n = 1" using assms(1) i m x by (simp add: incr_script_def)
  have "view t r1 key = Some (str_of_int 1)"
    using incr_effect [OF i] assms(2) by (simp add: effected_def bumped_from_def counter_val_def)
  then show "counting view key t (t + window * 1000) 1 r'"
    using expire_effect [OF x assms(3)] by (simp add: effected_def expiring_from_def counting_def)
qed

lemma script_next:
  assumes "incr_script ops t key window r = (Inr m, r')"
    and "counting view key t0 e n r" "t0 \<le> t" "t < e" "1 \<le> n"
  shows "m = n + 1" "counting view key t e (n + 1) r'"
proof -
  obtain k r1 where i: "rk_incr ops t key r = (Inr k, r1)"
    using assms(1) by (auto simp: incr_script_def split: prod.splits sum.splits)
  have v: "t \<le> t' \<Longrightarrow> view t' r key = (if t' < e then Some (str_of_int n) else None)" for t'
    using assms(2,3) by (simp add: counting_def)
  have k: "k = n + 1" using incr_reply [OF i] v [of t] assms(4,5) by (simp add: counter_val_str)
  with i assms(1,5) show "m = n + 1" by (simp add: incr_script_def)
  have "r' = r1" using i k assms(1,5) by (simp add: incr_script_def)
  then show "counting view key t e (n + 1) r'"
    using incr_effect [OF i] v assms(4,5)
    by (simp add: effected_def bumped_from_def counting_def counter_val_str)
qed

lemma run_from_count:
  assumes "counting view key t0 e n r" "1 \<le> n"
    and "sorted (t0 # map fst steps)" "list_all (\<lambda>(t, other). t < e \<and> leaves_key view key other) steps"
    and "list_all is_ok (run_scripts ops key window steps r)"
  shows "run_scripts ops key window steps r = map (\<lambda>i. Inr (n + 1 + int i)) [0..<length steps]"
  using assms
proof (induction steps arbitrary: n t0 r)
  case (Cons step steps)
  obtain t other where step: "step = (t, other)" by (cases step)
  obtain res r' where sc: "incr_script ops t key window (other r) = (res, r')" by fastforce
  with Cons.prems(5) step obtain m where res: "res = Inr m" by (auto simp: is_ok_iff)
  have c: "counting view key t0 e n (other r)"
    using Cons.prems(1,4) step by (simp add: counting_def leaves_key_def)
  have t: "t0 \<le> t" "t < e" using Cons.prems(3,4) step by auto
  note nxt = script_next [OF sc [unfolded res] c t Cons.prems(2)]
  have "run_scripts ops key window steps r' = map (\<lambda>i. Inr (n + 1 + 1 + int i)) [0..<length steps]"
    by (rule Cons.IH [OF nxt(2)]) (use Cons.prems step sc in auto)
  then show ?case using step sc res nxt(1)
    by (simp add: upt_conv_Cons map_Suc_upt [symmetric] comp_def add_ac del: upt_Suc)
qed simp

lemma run_window:
  assumes "view t0 (other0 r) key = None" "0 < window"
    and "sorted (t0 # map fst steps)"
    and "list_all (\<lambda>(t, other). t < t0 + window * 1000 \<and> leaves_key view key other) steps"
    and "list_all is_ok (run_scripts ops key window ((t0, other0) # steps) r)"
  shows "run_scripts ops key window ((t0, other0) # steps) r = map (\<lambda>i. Inr (1 + int i)) [0..<Suc (length steps)]"
proof -
  obtain res r' where sc: "incr_script ops t0 key window (other0 r) = (res, r')" by fastforce
  with assms(5) obtain m where res: "res = Inr m" by (auto simp: is_ok_iff)
  note fst = script_first [OF sc [unfolded res] assms(1,2)]
  have "run_scripts ops key window steps r' = map (\<lambda>i. Inr (1 + 1 + int i)) [0..<length steps]"
    by (rule run_from_count [OF fst(2) _ assms(3,4)]) (use assms(5) sc in auto)
  then show ?thesis using sc res fst(1)
    by (simp add: upt_conv_Cons map_Suc_upt [symmetric] comp_def add_ac del: upt_Suc)
qed

end

lemma run_checks_scripts:
  "list_all is_ok (run_scripts ops key window steps r) \<Longrightarrow>
    run_checks ops cfg key limit window steps r =
      map (map_sum (\<lambda>_. HTTPException 503 [] []) (\<lambda>n. (n \<le> limit, max (limit - n) 0))) (run_scripts ops key window steps r)"
proof (induction steps arbitrary: r)
  case (Cons step steps)
  obtain t other where step: "step = (t, other)" by (cases step)
  obtain res r' where sc: "incr_script ops t key window (other r) = (res, r')" by fastforce
  with Cons.prems step obtain m where "res = Inr m" by (auto simp: is_ok_iff)
  with Cons sc step show ?case by (simp add: check_rate_limit_def)
qed simp

section \<open>Properties\<close>

text \<open>
  C32.  A window admits exactly the first \<open>limit\<close> requests: from the request that opens it until it
  ends, the \<open>i\<close>-th check of a counter is allowed iff \<open>i \<le> limit\<close> and reports \<open>limit - i\<close> remaining, whatever
  else happens on the server that leaves the counter alone.
\<close>

theorem rate_window_exact:
  assumes "redis_kv_laws ops view" "0 < window"
    and "view t0 (other0 r) key = None"
    and "sorted (t0 # map fst steps)"
    and "list_all (\<lambda>(t, other). t < t0 + window * 1000 \<and> leaves_key view key other) steps"
    and "list_all is_ok (run_scripts ops key window ((t0, other0) # steps) r)"
  shows "run_checks ops cfg key limit window ((t0, other0) # steps) r =
     map (\<lambda>i. Inr (1 + int i \<le> limit, max (limit - (1 + int i)) 0)) [0..<Suc (length steps)]"
  unfolding run_checks_scripts [OF assms(6)]
    redis_kv_laws.run_window [OF assms(1,3,2,4-6)]
  by (simp add: comp_def)

text \<open>A refused request never reaches the application.\<close>

lemma rate_limited_not_forwarded:
  assumes "\<not> list_ex (py_startswith (req_path rq)) rate_skip_prefixes"
    and "check_rate_limit ops cfg t (''ratelimit:global:'' @ request_client_ip ipl cfg rq)
           (global_rate_limit cfg) (global_rate_window_seconds cfg) r = (Inr (False, k), r')"
  shows "\<exists>resp. rate_limit_dispatch ops ipl cfg t rq call_next st r = ((Inr resp, st, []), r') \<and>
     r_status resp = 429 \<and> r_headers resp = raw_headers [(''Retry-After'', str_of_int (global_rate_window_seconds cfg))]"
  using assms by (simp add: rate_limit_dispatch_def Let_def json_error_def)

lemma py_lower_rate_headers [simp]:
  "py_lower ''X-RateLimit-Remaining'' = ''x-ratelimit-remaining''"
  "py_lower ''X-RateLimit-Limit'' = ''x-ratelimit-limit''"
  by code_simp+

text \<open>
  A Redis outage: a production gateway answers 503 without calling the application, any other
  environment calls it and reports the full allowance as remaining.
\<close>

theorem rate_limit_outage:
  assumes "\<not> list_ex (py_startswith (req_path rq)) rate_skip_prefixes"
    and "rk_incr ops t (''ratelimit:global:'' @ request_client_ip ipl cfg rq) r = (Inl e, r1)"
    and "call_next st r1 = ((Inr resp, st', eff), r2)"
  shows "if is_production cfg
    then rate_limit_dispatch ops ipl cfg t rq call_next st r =
      ((Inr (json_error 503 ''rate limiter unavailable''), st, []), r1)
    else \<exists>hs. rate_limit_dispatch ops ipl cfg t rq call_next st r = ((Inr (resp\<lparr>r_headers := hs\<rparr>), st', eff), r2) \<and>
      header_get hs ''x-ratelimit-remaining'' = Some (str_of_int (global_rate_limit cfg))"
proof (cases "is_production cfg")
  case True
  then show ?thesis using assms by (simp add: rate_limit_dispatch_def check_rate_limit_def incr_script_def Let_def)
next
  case False
  let ?hs = "set_header ''X-RateLimit-Remaining'' (str_of_int (global_rate_limit cfg))
    (set_header ''X-RateLimit-Limit'' (str_of_int (global_rate_limit cfg)) (r_headers resp))"
  have "rate_limit_dispatch ops ipl cfg t rq call_next st r = ((Inr (resp\<lparr>r_headers := ?hs\<rparr>), st', eff), r2)"
    using assms False by (simp add: rate_limit_dispatch_def check_rate_limit_def incr_script_def Let_def)
  then show ?thesis using False by (intro if_bool_eq_disj [THEN iffD2] disjI2 conjI exI [of _ ?hs]) simp_all
qed

section \<open>Witnesses\<close>

lemma mem_script_up: "m_up r \<Longrightarrow> \<exists>n r'. incr_script mem_kv t key w r = (Inr n, r') \<and> m_up r'"
  by (auto simp: incr_script_def mem_kv_def mem_put_def mem_drop_def Let_def split: option.splits)

lemma mem_scripts_ok:
  "m_up r \<Longrightarrow> list_all is_ok (run_scripts mem_kv key w (map (\<lambda>t. (t, id)) ts) r)"
proof (induction ts arbitrary: r)
  case (Cons t ts)
  then obtain n r' where "incr_script mem_kv t key w r = (Inr n, r')" "m_up r'"
    using mem_script_up by blast
  with Cons show ?case by simp
qed simp

theorem rate_window_exact_witness:
  "run_checks mem_kv default_settings ''k'' 2 60 ((0, id) # [(5, id), (59999, id)]) mem_empty =
     [Inr (True, 1), Inr (True, 0), Inr (False, 0)]"
proof -
  have ok: "list_all is_ok (run_scripts mem_kv ''k'' 60 ((0, id) # [(5, id), (59999, id)]) mem_empty)"
    using mem_scripts_ok [of mem_empty "''k''" 60 "[0, 5, 59999]"] by (simp add: mem_empty_def)
  have "view ''k'' = None" if "view = mem_view 0 (id mem_empty)" for view
    using that by (simp add: mem_empty_def mem_view_def)
  from rate_window_exact [OF mem.redis_kv_laws_axioms _ this [OF refl] _ _ ok]
  show ?thesis by (simp add: leaves_key_def numeral_3_eq_3)
qed

definition demo_rate_request :: request where
  "demo_rate_request = \<lparr>req_method = ''GET'', req_path = ''/x'', req_query = [], req_headers = [],
     req_client = Some ''c''\<rparr>"

theorem rate_limit_outage_witness:
  "rate_limit_dispatch mem_kv demo_ip (default_settings\<lparr>environment := ''prod''\<rparr>) 0 demo_rate_request
     (\<lambda>st r. ((Inr (json_error 200 []), st, []), r)) fresh_state (mem_empty\<lparr>m_up := False\<rparr>) =
     ((Inr (json_error 503 ''rate limiter unavailable''), fresh_state, []), mem_empty\<lparr>m_up := False\<rparr>)"
proof -
  have p: "is_production (default_settings\<lparr>environment := ''prod''\<rparr>)"
    by (simp add: is_production_def py_eval)
  have s: "\<not> list_ex (py_startswith (req_path demo_rate_request)) rate_skip_prefixes"
    by (simp add: demo_rate_request_def rate_skip_prefixes_def)
  have d: "rk_incr mem_kv 0 key (mem_empty\<lparr>m_up := False\<rparr>) = (Inl RedisError, mem_empty\<lparr>m_up := False\<rparr>)" for key
    by (simp add: mem_kv_def)
  show ?thesis
    using rate_limit_outage [where ipl = demo_ip and cfg = "default_settings\<lparr>environment := ''prod''\<rparr>" and st = fresh_state
        and call_next = "\<lambda>st r. ((Inr (json_error 200 []), st, []), r)", OF s d refl] p
    by simp
qed

end
