(* ===== verification/Accounts.thy ===== *)
theory Accounts
  imports Auth Rate_Limit
begin

text \<open>
  \<^verbatim>\<open>gateway/routes/auth.py\<close>, the account and key operations of \<^verbatim>\<open>gateway/routes/admin.py\<close> and
  \<^verbatim>\<open>gateway/manage.py\<close> on the tables of \<^verbatim>\<open>gateway/models/db.py\<close>.  Each operation is one
  transaction: it is committed as a whole, or an error leaves the tables as they were.  Identifiers,
  random texts, clocks and whether the database accepts the commit are arguments.  The lemmas follow
  refresh tokens through arbitrary sequences of these operations.
\<close>

section \<open>Transactions\<close>

datatype route_error = HttpError http_exception | DbFailure db_error | PyFailure py_error

definition has_user :: "dbase \<Rightarrow> uuid \<Rightarrow> bool" where
  "has_user db i = list_ex (\<lambda>u. u_id u = i) (db_users db)"

definition owner_ok :: "dbase \<Rightarrow> key_row \<Rightarrow> bool" where
  "owner_ok db k = (case k_user k of None \<Rightarrow> True | Some i \<Rightarrow> has_user db i)"

definition constraints_ok :: "dbase \<Rightarrow> bool" where
  \<comment> \<open>primary keys, unique columns and foreign keys\<close>
  "constraints_ok db =
     (distinct (map u_id (db_users db)) \<and> distinct (map u_email (db_users db)) \<and>
      distinct (map t_hash (db_tokens db)) \<and> distinct (map k_id (db_keys db)) \<and> distinct (map k_hash (db_keys db)) \<and>
      list_all (\<lambda>t. has_user db (t_user t)) (db_tokens db) \<and>
      list_all (owner_ok db) (db_keys db))"

lemma owner_ok_tokens [simp]: "owner_ok (db\<lparr>db_tokens := ts\<rparr>) = owner_ok db"
  by (simp add: owner_ok_def has_user_def fun_eq_iff split: option.split)

lemma has_user_simps [simp]:
  "has_user (db\<lparr>db_tokens := ts\<rparr>) = has_user db" "user \<in> set (db_users db) \<Longrightarrow> has_user db (u_id user)"
  by (auto simp: has_user_def list_ex_iff fun_eq_iff)

definition commit :: "bool \<Rightarrow> dbase \<Rightarrow> (db_error, dbase) result" where
  \<comment> \<open>the flag: the database is reachable; a commit that raises is taken to have been rolled back (one that took
    effect before the connection broke is not modelled here, unlike for the dead letters and the request log)\<close>
  "commit up db' = (if \<not> up then Inl DbUnavailable else if constraints_ok db' then Inr db' else Inl IntegrityError)"

type_synonym 'a transaction = "dbase \<Rightarrow> (route_error, 'a) result \<times> dbase"

definition finish :: "bool \<Rightarrow> dbase \<Rightarrow> 'a \<Rightarrow> 'a transaction" where
  "finish up db' x db =
     (case commit up db' of Inl e \<Rightarrow> (Inl (DbFailure e), db) | Inr db'' \<Rightarrow> (Inr x, db''))"

definition http_fail :: "int \<Rightarrow> string \<Rightarrow> 'a transaction" where
  "http_fail status detail db = (Inl (HttpError (HTTPException status detail [])), db)"

section \<open>Requests and answers\<close>

record register_request =
  rg_email :: string
  rg_password :: string

definition password_bytes :: "string \<Rightarrow> (py_error, string) result" where
  "password_bytes value = (if utf8_length value > 72 then Inl ValueError else Inr value)"

definition RegisterRequest :: "(string \<Rightarrow> string option) \<Rightarrow> string \<Rightarrow> string \<Rightarrow> (py_error, register_request) result" where
  \<comment> \<open>the first argument is the check of \<^verbatim>\<open>EmailStr\<close>, which normalises the address; a validation
    error of pydantic is a \<^verbatim>\<open>ValueError\<close>\<close>
  "RegisterRequest valid_email email password =
     (case valid_email email of
        None \<Rightarrow> Inl ValueError
      | Some email' \<Rightarrow>
          if length password < 8 \<or> 128 < length password then Inl ValueError
          else (case password_bytes password of
                  Inl e \<Rightarrow> Inl e
                | Inr p \<Rightarrow> Inr \<lparr>rg_email = email', rg_password = p\<rparr>))"

definition text_field :: "nat \<Rightarrow> nat \<Rightarrow> string \<Rightarrow> (py_error, string) result" where
  \<comment> \<open>\<^verbatim>\<open>Field(min_length=lo, max_length=hi)\<close>\<close>
  "text_field lo hi value = (if length value < lo \<or> hi < length value then Inl ValueError else Inr value)"

definition LoginRequest :: "(string \<Rightarrow> string option) \<Rightarrow> string \<Rightarrow> string \<Rightarrow> (py_error, register_request) result" where
  "LoginRequest valid_email email password =
     (case valid_email email of
        None \<Rightarrow> Inl ValueError
      | Some email' \<Rightarrow> map_sum id (\<lambda>p. \<lparr>rg_email = email', rg_password = p\<rparr>) (text_field 1 128 password))"

definition RefreshRequest :: "string \<Rightarrow> (py_error, string) result" where
  "RefreshRequest refresh_token = text_field 1 256 refresh_token"

definition LogoutRequest :: "string \<Rightarrow> (py_error, string) result" where
  "LogoutRequest refresh_token = text_field 1 256 refresh_token"

definition APIKeyCreate :: "string \<Rightarrow> (py_error, string) result" where
  "APIKeyCreate name = text_field 1 128 name"

record token_response =
  tr_access_token :: string
  tr_refresh_token :: string
  tr_token_type :: string
  tr_expires_in :: int

record user_out =
  uo_id :: uuid
  uo_email :: string
  uo_is_active :: bool
  uo_is_admin :: bool
  uo_created_at :: int

definition UserOut :: "user_row \<Rightarrow> user_out" where
  \<comment> \<open>what the response model keeps of a row\<close>
  "UserOut u = \<lparr>uo_id = u_id u, uo_email = u_email u, uo_is_active = u_is_active u, uo_is_admin = u_is_admin u,
     uo_created_at = u_created_at u\<rparr>"

record api_key_out =
  ko_id :: uuid
  ko_name :: string
  ko_prefix :: string
  ko_is_active :: bool
  ko_created_at :: int

definition APIKeyOut :: "key_row \<Rightarrow> api_key_out" where
  "APIKeyOut k = \<lparr>ko_id = k_id k, ko_name = k_name k, ko_prefix = k_prefix k, ko_is_active = k_is_active k,
     ko_created_at = k_created_at k\<rparr>"

record api_key_created = api_key_out +
  kc_api_key :: string

definition APIKeyCreated :: "key_row \<Rightarrow> string \<Rightarrow> api_key_created" where
  "APIKeyCreated k raw = api_key_out.extend (APIKeyOut k) \<lparr>kc_api_key = raw\<rparr>"

record message_response =
  mr_message :: string

section \<open>Authentication routes\<close>

fun aware :: "datetime \<Rightarrow> int" where
  "aware (Aware t) = t"
| "aware (Naive t) = t"

definition issue_tokens :: "auth_lib \<Rightarrow> settings \<Rightarrow> int \<Rightarrow> string \<Rightarrow> user_row \<Rightarrow> dbase \<Rightarrow> token_response \<times> dbase" where
  "issue_tokens lib cfg now random user db =
     (let (raw_refresh, refresh_hash) = generate_refresh_token lib random
      in (\<lparr>tr_access_token = create_access_token lib cfg now (uuid_str (u_id user))
             [(''is_admin'', ClaimJson (JBool (u_is_admin user)))],
           tr_refresh_token = raw_refresh, tr_token_type = ''bearer'',
           tr_expires_in = access_token_ttl_seconds cfg\<rparr>,
          db\<lparr>db_tokens := db_tokens db @ [\<lparr>t_hash = refresh_hash, t_user = u_id user,
               t_expires_at = refresh_token_expiry cfg now, t_revoked = False\<rparr>]\<rparr>))"

definition add_user :: "int \<Rightarrow> uuid \<Rightarrow> string \<Rightarrow> string \<Rightarrow> bool \<Rightarrow> dbase \<Rightarrow> user_row \<times> dbase" where
  "add_user now new_id email hashed admin db =
     (let user = \<lparr>u_id = new_id, u_email = email, u_hashed_password = hashed, u_is_active = True,
            u_is_admin = admin, u_created_at = now\<rparr>
      in (user, db\<lparr>db_users := db_users db @ [user]\<rparr>))"

definition users_by_email :: "dbase \<Rightarrow> string \<Rightarrow> user_row list" where
  "users_by_email db email = filter (\<lambda>u. u_email u = email) (db_users db)"

definition register_user :: "auth_lib \<Rightarrow> bool \<Rightarrow> int \<Rightarrow> uuid \<Rightarrow> string \<Rightarrow> register_request \<Rightarrow> user_row transaction" where
  "register_user lib up now new_id salt payload db =
     (case scalar_one_or_none (users_by_email db (rg_email payload)) of
        Inl e \<Rightarrow> (Inl (DbFailure e), db)
      | Inr (Some _) \<Rightarrow> http_fail 409 ''email already registered'' db
      | Inr None \<Rightarrow>
          (case hash_password lib salt (rg_password payload) of
             Inl e \<Rightarrow> (Inl (PyFailure e), db)
           | Inr hashed \<Rightarrow>
               (case add_user now new_id (rg_email payload) hashed False db of
                  (user, db') \<Rightarrow>
                    (case commit up db' of
                       Inl IntegrityError \<Rightarrow> http_fail 409 ''email already registered'' db
                     | Inl e \<Rightarrow> (Inl (DbFailure e), db)
                     | Inr db'' \<Rightarrow> (Inr user, db'')))))"

definition login_user :: "auth_lib \<Rightarrow> settings \<Rightarrow> bool \<Rightarrow> int \<Rightarrow> string \<Rightarrow> string \<Rightarrow> string \<Rightarrow> token_response transaction" where
  "login_user lib cfg up now random email password db =
     (case scalar_one_or_none (users_by_email db email) of
        Inl e \<Rightarrow> (Inl (DbFailure e), db)
      | Inr None \<Rightarrow> http_fail 401 ''invalid credentials'' db
      | Inr (Some user) \<Rightarrow>
          (case verify_password lib password (u_hashed_password user) of
             Inl e \<Rightarrow> (Inl (PyFailure e), db)
           | Inr right \<Rightarrow>
               if \<not> right then http_fail 401 ''invalid credentials'' db
               else if \<not> u_is_active user then http_fail 403 ''account disabled'' db
               else (case issue_tokens lib cfg now random user db of (tokens, db') \<Rightarrow> finish up db' tokens db)))"

definition revoke_row :: "(token_row \<Rightarrow> bool) \<Rightarrow> token_row \<Rightarrow> token_row" where
  "revoke_row P t = (if P t then t\<lparr>t_revoked := True\<rparr> else t)"

definition revoke_where :: "(token_row \<Rightarrow> bool) \<Rightarrow> dbase \<Rightarrow> dbase" where
  "revoke_where P db = db\<lparr>db_tokens := map (revoke_row P) (db_tokens db)\<rparr>"

definition refresh :: "auth_lib \<Rightarrow> settings \<Rightarrow> bool \<Rightarrow> int \<Rightarrow> string \<Rightarrow> string \<Rightarrow> token_response transaction" where
  "refresh lib cfg up now random presented db =
     (let token_hash = hash_token lib presented
      in case scalar_one_or_none (filter (\<lambda>t. t_hash t = token_hash) (db_tokens db)) of
           Inl e \<Rightarrow> (Inl (DbFailure e), db)
         | Inr None \<Rightarrow> http_fail 401 ''invalid refresh token'' db
         | Inr (Some stored) \<Rightarrow>
             if t_revoked stored
             then (case commit up (revoke_where (\<lambda>t. t_user t = t_user stored) db) of
                     Inl e \<Rightarrow> (Inl (DbFailure e), db)
                   | Inr db' \<Rightarrow> http_fail 401 ''refresh token reused'' db')
             else if aware (t_expires_at stored) < now then http_fail 401 ''refresh token expired'' db
             else (case get_user db (t_user stored) of
                     None \<Rightarrow> http_fail 401 ''invalid refresh token'' db
                   | Some user \<Rightarrow>
                       if \<not> u_is_active user then http_fail 401 ''invalid refresh token'' db
                       else (case issue_tokens lib cfg now random user (revoke_where (\<lambda>t. t_hash t = token_hash) db) of
                               (tokens, db') \<Rightarrow> finish up db' tokens db)))"

definition logout :: "auth_lib \<Rightarrow> bool \<Rightarrow> string \<Rightarrow> message_response transaction" where
  "logout lib up presented db =
     finish up (revoke_where (\<lambda>t. t_hash t = hash_token lib presented) db) \<lparr>mr_message = ''logged out''\<rparr> db"

text \<open>The two routes that are limited per client address.\<close>

definition answer :: "('a \<Rightarrow> 'b) \<Rightarrow> 'a transaction \<Rightarrow> 'b transaction" where
  \<comment> \<open>the response model of a route\<close>
  "answer model tx db = map_prod (map_sum id model) id (tx db)"

definition limited :: "(http_exception, unit) result \<times> 'r \<Rightarrow> 'a transaction \<Rightarrow> dbase \<Rightarrow> ((route_error, 'a) result \<times> dbase) \<times> 'r" where
  "limited check tx db =
     (case check of
        (Inl e, r) \<Rightarrow> ((Inl (HttpError e), db), r)
      | (Inr _, r) \<Rightarrow> (tx db, r))"

definition session :: "bool \<Rightarrow> 'a transaction \<Rightarrow> 'a transaction" where
  \<comment> \<open>the session a route gets from \<^verbatim>\<open>get_db\<close>: every operation starts with a query, which raises while the database
    cannot be reached\<close>
  "session reached tx db = (if reached then tx db else (Inl (DbFailure DbUnavailable), db))"

definition register ::
  "'r redis_kv \<Rightarrow> 'ip ip_lib \<Rightarrow> settings \<Rightarrow> auth_lib \<Rightarrow> int \<Rightarrow> bool \<Rightarrow> bool \<Rightarrow> int \<Rightarrow> uuid \<Rightarrow> string \<Rightarrow> register_request \<Rightarrow> request \<Rightarrow>
     dbase \<Rightarrow> 'r \<Rightarrow> ((route_error, user_out) result \<times> dbase) \<times> 'r" where
  "register ops ipl cfg lib t reached up now new_id salt payload rq db r =
     limited (enforce_rate_limit ops ipl cfg t rq ''register'' 20 60 r) (session reached (answer UserOut (register_user lib up now new_id salt payload))) db"

definition login ::
  "'r redis_kv \<Rightarrow> 'ip ip_lib \<Rightarrow> settings \<Rightarrow> auth_lib \<Rightarrow> int \<Rightarrow> bool \<Rightarrow> bool \<Rightarrow> int \<Rightarrow> string \<Rightarrow> string \<Rightarrow> string \<Rightarrow> request \<Rightarrow>
     dbase \<Rightarrow> 'r \<Rightarrow> ((route_error, token_response) result \<times> dbase) \<times> 'r" where
  "login ops ipl cfg lib t reached up now random email password rq db r =
     limited (enforce_rate_limit ops ipl cfg t rq ''login'' (login_rate_limit cfg) (login_rate_window_seconds cfg) r)
       (session reached (login_user lib cfg up now random email password)) db"

section \<open>Administration\<close>

definition is_uuid :: "string \<Rightarrow> bool" where
  "is_uuid s = is_ok (uuid_of_str s)"

definition create_api_key ::
  "auth_lib \<Rightarrow> bool \<Rightarrow> int \<Rightarrow> uuid \<Rightarrow> string \<Rightarrow> string \<Rightarrow> string \<Rightarrow> string \<Rightarrow> api_key_created transaction" where
  \<comment> \<open>the random prefix and secret, the administrator and the name of the key; the answer has the raw key\<close>
  "create_api_key lib up now new_id key_prefix secret who name db =
     (let (raw, pfx, key_hash) = generate_api_key lib key_prefix secret;
          key = \<lparr>k_id = new_id, k_name = name, k_hash = key_hash, k_prefix = pfx,
                 k_user = (if is_uuid who then (case uuid_of_str who of Inr i \<Rightarrow> Some i | Inl _ \<Rightarrow> None) else None),
                 k_is_active = True, k_created_at = now\<rparr>
      in finish up (db\<lparr>db_keys := db_keys db @ [key]\<rparr>) (APIKeyCreated key raw) db)"

definition revoke_api_key :: "bool \<Rightarrow> uuid \<Rightarrow> unit transaction" where
  "revoke_api_key up i db =
     (if \<not> list_ex (\<lambda>k. k_id k = i) (db_keys db) then http_fail 404 ''API key not found'' db
      else finish up (db\<lparr>db_keys := map (\<lambda>k. if k_id k = i then k\<lparr>k_is_active := False\<rparr> else k) (db_keys db)\<rparr>) () db)"

definition create_admin_user :: "auth_lib \<Rightarrow> bool \<Rightarrow> int \<Rightarrow> uuid \<Rightarrow> string \<Rightarrow> register_request \<Rightarrow> user_out transaction" where
  "create_admin_user lib up now new_id salt payload db =
     (case scalar_one_or_none (users_by_email db (rg_email payload)) of
        Inl e \<Rightarrow> (Inl (DbFailure e), db)
      | Inr (Some _) \<Rightarrow> http_fail 409 ''email already registered'' db
      | Inr None \<Rightarrow>
          (case hash_password lib salt (rg_password payload) of
             Inl e \<Rightarrow> (Inl (PyFailure e), db)
           | Inr hashed \<Rightarrow>
               (case add_user now new_id (rg_email payload) hashed True db of (user, db') \<Rightarrow> finish up db' (UserOut user) db)))"

definition create_admin ::
  "auth_lib \<Rightarrow> (string \<Rightarrow> string option) \<Rightarrow> bool \<Rightarrow> int \<Rightarrow> uuid \<Rightarrow> string \<Rightarrow> string \<Rightarrow> string \<Rightarrow> unit transaction" where
  \<comment> \<open>the operator command\<close>
  "create_admin lib valid_email up now new_id salt email password db =
     (case RegisterRequest valid_email email password of
        Inl e \<Rightarrow> (Inl (PyFailure e), db)
      | Inr payload \<Rightarrow>
          (case scalar_one_or_none (users_by_email db (rg_email payload)) of
             Inl e \<Rightarrow> (Inl (DbFailure e), db)
           | Inr (Some _) \<Rightarrow> (Inl (PyFailure ValueError), db)
           | Inr None \<Rightarrow>
               (case hash_password lib salt (rg_password payload) of
                  Inl e \<Rightarrow> (Inl (PyFailure e), db)
                | Inr hashed \<Rightarrow>
                    (case add_user now new_id (rg_email payload) hashed True db of (user, db') \<Rightarrow> finish up db' () db))))"

datatype command_exit = Printed string | SystemExit string | Raised route_error

definition manage_main ::
  "auth_lib \<Rightarrow> (string \<Rightarrow> string option) \<Rightarrow> bool \<Rightarrow> int \<Rightarrow> uuid \<Rightarrow> string \<Rightarrow> string \<Rightarrow> string \<Rightarrow> string \<Rightarrow> dbase \<Rightarrow> command_exit \<times> dbase" where
  \<comment> \<open>the address of the command line and the two passwords that were typed\<close>
  "manage_main lib valid_email up now new_id salt email password again db =
     (if password \<noteq> again then (SystemExit ''Passwords differ'', db)
      else case create_admin lib valid_email up now new_id salt email password db of
             (Inr _, db') \<Rightarrow> (Printed ''Administrator created.'', db')
           | (Inl (PyFailure ValueError), db') \<Rightarrow> (SystemExit ''Account exists or email/password is invalid'', db')
           | (Inl e, db') \<Rightarrow> (Raised e, db'))"

section \<open>Histories\<close>

text \<open>
  The tables under any sequence of these operations; an operator may change accounts by other means
  (disabling one, say) without touching tokens.
\<close>

inductive account_step :: "auth_lib \<Rightarrow> settings \<Rightarrow> dbase \<Rightarrow> dbase \<Rightarrow> bool" for lib cfg where
  registered: "account_step lib cfg db (snd (register_user lib up now i salt payload db))"
| logged_in: "account_step lib cfg db (snd (login_user lib cfg up now random email password db))"
| refreshed: "account_step lib cfg db (snd (refresh lib cfg up now random presented db))"
| logged_out: "account_step lib cfg db (snd (logout lib up presented db))"
| key_created: "account_step lib cfg db (snd (create_api_key lib up now i pfx secret who name db))"
| key_revoked: "account_step lib cfg db (snd (revoke_api_key up i db))"
| admin_created: "account_step lib cfg db (snd (create_admin_user lib up now i salt payload db))"
| operator_admin: "account_step lib cfg db (snd (manage_main lib valid_email up now i salt email password again db))"
| operator_change: "constraints_ok (db\<lparr>db_users := users\<rparr>) \<Longrightarrow> account_step lib cfg db (db\<lparr>db_users := users\<rparr>)"

definition row_kept :: "token_row \<Rightarrow> token_row \<Rightarrow> bool" where
  "row_kept t t' = (t_hash t' = t_hash t \<and> t_user t' = t_user t \<and> t_expires_at t' = t_expires_at t \<and>
     (t_revoked t \<longrightarrow> t_revoked t'))"

definition tokens_kept :: "dbase \<Rightarrow> dbase \<Rightarrow> bool" where
  \<comment> \<open>no token row disappears, changes its owner or comes back to life\<close>
  "tokens_kept db db' = (\<forall>t \<in> set (db_tokens db). \<exists>t' \<in> set (db_tokens db'). row_kept t t')"

lemma row_kept_refl [simp]: "row_kept t t"
  by (simp add: row_kept_def)

lemma row_kept_trans: "row_kept a b \<Longrightarrow> row_kept b c \<Longrightarrow> row_kept a c"
  by (simp add: row_kept_def)

lemma tokens_kept_refl [simp]: "tokens_kept db db"
  unfolding tokens_kept_def using row_kept_refl by blast

lemma tokens_kept_trans: "tokens_kept a b \<Longrightarrow> tokens_kept b c \<Longrightarrow> tokens_kept a c"
  unfolding tokens_kept_def using row_kept_trans by meson

lemma revoke_row_simps [simp]:
  "t_hash (revoke_row P t) = t_hash t" "t_user (revoke_row P t) = t_user t" "row_kept t (revoke_row P t)"
  "t_revoked (revoke_row P t) = (P t \<or> t_revoked t)"
  by (simp_all add: revoke_row_def row_kept_def)

lemma tokens_kept_revoke [simp]: "tokens_kept db (revoke_where P db)"
proof -
  have "\<exists>t' \<in> set (map (revoke_row P) ts). row_kept t t'" if "t \<in> set ts" for t ts
    using that by (intro bexI [of _ "revoke_row P t"]) auto
  then show ?thesis unfolding tokens_kept_def revoke_where_def by simp
qed

lemma tokens_kept_append: "tokens_kept db db' \<Longrightarrow> db_tokens db'' = db_tokens db' @ ts \<Longrightarrow> tokens_kept db db''"
  by (fastforce simp: tokens_kept_def)

lemma tokens_kept_same: "db_tokens db' = db_tokens db \<Longrightarrow> tokens_kept db db'"
  unfolding tokens_kept_def using row_kept_refl by metis

lemma finish_kept: "tokens_kept db db' \<Longrightarrow> tokens_kept db (snd (finish up db' x db))"
  by (auto simp: finish_def commit_def split: sum.splits)

lemma finish_kept_same: "db_tokens db' = db_tokens db \<Longrightarrow> tokens_kept db (snd (finish up db' x db))"
  by (rule finish_kept) (rule tokens_kept_same)

lemma finish_constraints: "constraints_ok db \<Longrightarrow> constraints_ok (snd (finish up db' x db))"
  by (auto simp: finish_def commit_def split: sum.splits)

lemma constraints_revoke [simp]: "constraints_ok (revoke_where P db) = constraints_ok db"
  by (simp add: constraints_ok_def revoke_where_def comp_def list_all_length)

lemma issue_tokens_tokens:
  "issue_tokens lib cfg now random user db = (x, db') \<Longrightarrow>
     db_tokens db' = db_tokens db @ [\<lparr>t_hash = hash_token lib random, t_user = u_id user,
       t_expires_at = refresh_token_expiry cfg now, t_revoked = False\<rparr>]"
  by (auto simp: issue_tokens_def generate_refresh_token_def)

lemmas issue_tokens_kept = tokens_kept_append [OF _ issue_tokens_tokens]

lemma manage_main_tables:
  "snd (manage_main lib valid_email up now i salt email password again db) =
     (if password \<noteq> again then db else snd (create_admin lib valid_email up now i salt email password db))"
  by (auto simp: manage_main_def split: sum.splits prod.splits route_error.splits py_error.splits)

lemma create_admin_kept: "tokens_kept db (snd (create_admin lib valid_email up now i salt email password db))"
  by (auto simp: create_admin_def add_user_def Let_def intro!: finish_kept_same
      split: sum.splits option.splits prod.splits)

lemma account_step_kept:
  "account_step lib cfg db db' \<Longrightarrow> tokens_kept db db'"
proof (induction rule: account_step.induct)
  case (registered db up now i salt payload)
  then show ?case
    by (auto simp: register_user_def http_fail_def add_user_def commit_def Let_def intro: tokens_kept_same
        split: sum.splits option.splits prod.splits db_error.splits)
next
  case (logged_in db up now random email password)
  then show ?case
    by (auto simp: login_user_def http_fail_def intro!: finish_kept intro: issue_tokens_kept [OF tokens_kept_refl]
        split: sum.splits option.splits prod.splits)
next
  case (refreshed db up now random presented)
  then show ?case
    by (auto simp: refresh_def http_fail_def commit_def Let_def intro!: finish_kept intro: issue_tokens_kept [OF tokens_kept_revoke]
        split: sum.splits option.splits prod.splits if_splits)
next
  case (logged_out db up presented)
  then show ?case by (simp add: logout_def finish_kept)
next
  case (key_created db up now i pfx secret who name)
  then show ?case by (auto simp: create_api_key_def Let_def intro!: finish_kept_same split: prod.splits)
next
  case (key_revoked db up i)
  then show ?case by (auto simp: revoke_api_key_def http_fail_def intro!: finish_kept_same)
next
  case (admin_created db up now i salt payload)
  then show ?case
    by (auto simp: create_admin_user_def http_fail_def add_user_def Let_def intro!: finish_kept_same
        split: sum.splits option.splits prod.splits)
next
  case (operator_admin db valid_email up now i salt email password again)
  then show ?case
    by (simp add: manage_main_tables create_admin_kept)
next
  case (operator_change db users)
  then show ?case by (simp add: tokens_kept_same)
qed

lemma account_step_constraints:
  "account_step lib cfg db db' \<Longrightarrow> constraints_ok db \<Longrightarrow> constraints_ok db'"
proof (induction rule: account_step.induct)
  case (registered db up now i salt payload)
  then show ?case
    by (auto simp: register_user_def http_fail_def add_user_def commit_def Let_def
        split: sum.splits option.splits prod.splits db_error.splits if_splits)
next
  case (logged_in db up now random email password)
  then show ?case
    by (auto simp: login_user_def http_fail_def finish_constraints split: sum.splits option.splits prod.splits)
next
  case (refreshed db up now random presented)
  then show ?case
    by (auto simp: refresh_def http_fail_def commit_def finish_constraints Let_def
        split: sum.splits option.splits prod.splits if_splits)
next
  case (logged_out db up presented)
  then show ?case by (simp add: logout_def finish_constraints)
next
  case (key_created db up now i pfx secret who name)
  then show ?case by (auto simp: create_api_key_def Let_def finish_constraints split: prod.splits)
next
  case (key_revoked db up i)
  then show ?case by (auto simp: revoke_api_key_def http_fail_def finish_constraints)
next
  case (admin_created db up now i salt payload)
  then show ?case
    by (auto simp: create_admin_user_def http_fail_def finish_constraints split: sum.splits option.splits prod.splits)
next
  case (operator_admin db valid_email up now i salt email password again)
  then show ?case
    by (auto simp: manage_main_tables create_admin_def finish_constraints split: sum.splits option.splits prod.splits)
next
  case (operator_change db users)
  then show ?case by simp
qed

lemma account_run:
  assumes "(account_step lib cfg)\<^sup>*\<^sup>* db db'" "constraints_ok db"
  shows "constraints_ok db' \<and> tokens_kept db db'"
  using assms
proof (induction rule: rtranclp_induct)
  case (step y z)
  then show ?case using account_step_constraints account_step_kept tokens_kept_trans by blast
qed simp

section \<open>Single lookups\<close>

lemma scalar_unique:
  assumes "distinct (map f xs)" "x \<in> set xs"
  shows "scalar_one_or_none (filter (\<lambda>y. f y = f x) xs) = Inr (Some x)"
proof -
  have "filter (\<lambda>y. f y = f x) xs = [x]" using assms
  proof (induction xs)
    case (Cons a xs)
    have none: "f a \<notin> f ` set xs" using Cons.prems(1) by simp
    show ?case
    proof (cases "x = a")
      case True
      have "filter (\<lambda>y. f y = f a) xs = []" using none by (auto simp: filter_empty_conv image_iff)
      with True show ?thesis by simp
    next
      case False
      with Cons.prems none have "x \<in> set xs" "f a \<noteq> f x" by auto
      with Cons show ?thesis by simp
    qed
  qed simp
  then show ?thesis by (simp add: scalar_one_or_none_def)
qed

lemma scalar_some: "scalar_one_or_none xs = Inr (Some x) \<Longrightarrow> xs = [x]"
  by (auto simp: scalar_one_or_none_def split: list.splits)

lemma refresh_success:
  assumes "refresh lib cfg up now random presented db = (Inr tokens, db')"
  obtains stored user where "stored \<in> set (db_tokens db)" "t_hash stored = hash_token lib presented" "\<not> t_revoked stored"
    "now \<le> aware (t_expires_at stored)" "user \<in> set (db_users db)" "u_id user = t_user stored" "u_is_active user"
    "issue_tokens lib cfg now random user (revoke_where (\<lambda>t. t_hash t = hash_token lib presented) db) = (tokens, db')"
    "constraints_ok db'"
proof -
  from assms obtain stored user where s: "scalar_one_or_none (filter (\<lambda>t. t_hash t = hash_token lib presented) (db_tokens db)) = Inr (Some stored)"
    "\<not> t_revoked stored" "now \<le> aware (t_expires_at stored)" "get_user db (t_user stored) = Some user" "u_is_active user"
    "issue_tokens lib cfg now random user (revoke_where (\<lambda>t. t_hash t = hash_token lib presented) db) = (tokens, db')" "constraints_ok db'"
    by (auto simp: refresh_def http_fail_def finish_def commit_def Let_def
        split: sum.splits option.splits prod.splits if_splits)
  have "stored \<in> set (filter (\<lambda>t. t_hash t = hash_token lib presented) (db_tokens db))"
    using scalar_some [OF s(1)] by simp
  then show thesis using that [of stored user] s get_userD [OF s(4)] by simp
qed

text \<open>A presented token that is stored and revoked is reuse, and reuse is nothing else.\<close>

lemma refresh_reused:
  assumes "constraints_ok db" "t \<in> set (db_tokens db)" "t_hash t = hash_token lib presented" "t_revoked t"
  shows "refresh lib cfg True now random presented db =
    (Inl (HttpError (HTTPException 401 ''refresh token reused'' [])), revoke_where (\<lambda>x. t_user x = t_user t) db)"
proof -
  have "scalar_one_or_none (filter (\<lambda>x. t_hash x = hash_token lib presented) (db_tokens db)) = Inr (Some t)"
    using scalar_unique [of t_hash "db_tokens db" t] assms(1-3) by (simp add: constraints_ok_def)
  then show ?thesis using assms(1,4) by (simp add: refresh_def commit_def http_fail_def Let_def)
qed

lemma login_unknown:
  "\<not> (\<exists>user \<in> set (db_users db). u_email user = email) \<Longrightarrow>
   login_user lib cfg up now random email password db = (Inl (HttpError (HTTPException 401 ''invalid credentials'' [])), db)"
proof -
  assume "\<not> (\<exists>user \<in> set (db_users db). u_email user = email)"
  then have "users_by_email db email = []" by (auto simp: users_by_email_def filter_empty_conv)
  then show ?thesis by (simp add: login_user_def scalar_one_or_none_def http_fail_def)
qed

lemma login_known:
  assumes "constraints_ok db" "user \<in> set (db_users db)" "u_email user = email"
  shows "login_user lib cfg up now random email password db =
    (case verify_password lib password (u_hashed_password user) of
       Inl e \<Rightarrow> (Inl (PyFailure e), db)
     | Inr right \<Rightarrow>
         if \<not> right then http_fail 401 ''invalid credentials'' db
         else if \<not> u_is_active user then http_fail 403 ''account disabled'' db
         else (case issue_tokens lib cfg now random user db of (tokens, db') \<Rightarrow> finish up db' tokens db))"
  using scalar_unique [of u_email "db_users db" user] assms
  by (simp add: login_user_def users_by_email_def constraints_ok_def)

lemma issue_tokens_constraints:
  assumes "issue_tokens lib cfg now random user db = (x, db')" "constraints_ok db" "user \<in> set (db_users db)"
  shows "constraints_ok db' \<longleftrightarrow> hash_token lib random \<notin> t_hash ` set (db_tokens db)"
  using assms by (auto simp: issue_tokens_def generate_refresh_token_def constraints_ok_def)

lemma verify_password_iff:
  "verify_password lib password hashed = Inr True \<longleftrightarrow>
     utf8_length password \<le> 72 \<and> al_bcrypt_verify lib password hashed = Inr True"
  "verify_password lib password hashed = Inl e \<longleftrightarrow>
     utf8_length password \<le> 72 \<and> al_bcrypt_verify lib password hashed = Inl e"
  by (auto simp: verify_password_def BCRYPT_MAX_BYTES_def)

lemma login_granted:
  assumes "constraints_ok db" "user \<in> set (db_users db)" "u_email user = email"
    and ok: "verify_password lib password (u_hashed_password user) = Inr True \<and> u_is_active user \<and> up \<and>
      hash_token lib random \<notin> t_hash ` set (db_tokens db)"
    and i: "issue_tokens lib cfg now random user db = (tokens, db')"
  shows "login_user lib cfg up now random email password db = (Inr tokens, db')"
  unfolding login_known [OF assms(1-3)] using ok issue_tokens_constraints [OF i assms(1,2)]
  by (simp add: i finish_def commit_def)

lemma login_refused:
  assumes "constraints_ok db" "user \<in> set (db_users db)" "u_email user = email"
    and bad: "\<not> (verify_password lib password (u_hashed_password user) = Inr True \<and> u_is_active user \<and> up \<and>
      hash_token lib random \<notin> t_hash ` set (db_tokens db))"
  shows "\<exists>e. login_user lib cfg up now random email password db = (Inl e, db) \<and>
    (\<forall>x. verify_password lib password (u_hashed_password user) = Inl x \<longrightarrow> e = PyFailure x) \<and>
    (verify_password lib password (u_hashed_password user) = Inr False \<longrightarrow>
       e = HttpError (HTTPException 401 ''invalid credentials'' [])) \<and>
    (verify_password lib password (u_hashed_password user) = Inr True \<and> \<not> u_is_active user \<longrightarrow>
       e = HttpError (HTTPException 403 ''account disabled'' []))"
proof -
  obtain tokens db' where i: "issue_tokens lib cfg now random user db = (tokens, db')" by fastforce
  show ?thesis unfolding login_known [OF assms(1-3)] i
    using bad issue_tokens_constraints [OF i assms(1,2)]
    by (cases "verify_password lib password (u_hashed_password user)") (auto simp: http_fail_def finish_def commit_def)
qed

section \<open>Properties\<close>

text \<open>
  C6.  Refresh tokens are single use, for ever: once a token was exchanged, then after any sequence of
  registrations, logins, refreshes, logouts, key and account operations, presenting it again is
  refused as reuse, and the refusal revokes every token of its owner, so that nobody holding a token
  of that family can refresh any more.
\<close>

theorem refresh_token_single_use:
  assumes first: "refresh lib cfg up1 now1 random1 presented db = (Inr tokens, db1)"
    and later: "(account_step lib cfg)\<^sup>*\<^sup>* db1 db2"
  shows "\<exists>owner db3. refresh lib cfg True now2 random2 presented db2 =
        (Inl (HttpError (HTTPException 401 ''refresh token reused'' [])), db3) \<and>
      (\<exists>t \<in> set (db_tokens db). t_hash t = hash_token lib presented \<and> t_user t = owner) \<and>
      (\<forall>t \<in> set (db_tokens db3). t_user t = owner \<longrightarrow> t_revoked t) \<and>
      (\<forall>raw up now random. (\<exists>t \<in> set (db_tokens db3). t_hash t = hash_token lib raw \<and> t_user t = owner) \<longrightarrow>
         (\<nexists>answer. fst (refresh lib cfg up now random raw db3) = Inr answer))"
proof -
  obtain stored user where s: "stored \<in> set (db_tokens db)" "t_hash stored = hash_token lib presented"
    "issue_tokens lib cfg now1 random1 user (revoke_where (\<lambda>t. t_hash t = hash_token lib presented) db) = (tokens, db1)"
    "constraints_ok db1" using first by (rule refresh_success)
  let ?gone = "revoke_row (\<lambda>t. t_hash t = hash_token lib presented) stored"
  have "?gone \<in> set (db_tokens db1)" using s(1) issue_tokens_tokens [OF s(3)] by (simp add: revoke_where_def)
  moreover have run: "constraints_ok db2" "tokens_kept db1 db2" using account_run [OF later s(4)] by auto
  ultimately obtain t2 where t2: "t2 \<in> set (db_tokens db2)" "row_kept ?gone t2" unfolding tokens_kept_def by blast
  have k: "t_hash t2 = hash_token lib presented" "t_user t2 = t_user stored" "t_revoked t2"
    using t2(2) s(2) by (simp_all add: row_kept_def)
  let ?db3 = "revoke_where (\<lambda>t. t_user t = t_user stored) db2"
  have "refresh lib cfg True now2 random2 presented db2 =
      (Inl (HttpError (HTTPException 401 ''refresh token reused'' [])), ?db3)"
    using refresh_reused [OF run(1) t2(1) k(1,3)] by (simp add: k(2))
  moreover have dead: "\<forall>t \<in> set (db_tokens ?db3). t_user t = t_user stored \<longrightarrow> t_revoked t"
    by (auto simp: revoke_where_def)
  moreover have "fst (refresh lib cfg up now random raw ?db3) \<noteq> Inr answer"
    if "t \<in> set (db_tokens ?db3)" "t_hash t = hash_token lib raw" "t_user t = t_user stored" for raw up now random answer t
  proof
    assume "fst (refresh lib cfg up now random raw ?db3) = Inr answer"
    then obtain db4 where "refresh lib cfg up now random raw ?db3 = (Inr answer, db4)" by (metis prod.collapse)
    then obtain t' where "t' \<in> set (db_tokens ?db3)" "t_hash t' = hash_token lib raw" "\<not> t_revoked t'" by (rule refresh_success)
    moreover have "distinct (map t_hash (db_tokens ?db3))"
      using run(1) constraints_revoke [of _ db2] by (simp add: constraints_ok_def)
    ultimately show False using that dead by (metis (mono_tags, lifting) distinct_map inj_on_def)
  qed
  ultimately show ?thesis using s(1,2) by blast
qed

text \<open>
  C31.  Tokens are issued exactly to whoever may have them.  A login succeeds iff the address is
  registered, bcrypt confirms the password (which must be within its limit), the account is active
  and the commit goes through; then one refresh token for that account is stored, as a hash.  No
  failure changes the tables.  A wrong password and an unknown address are answered alike with 401, a
  disabled account with 403 once the password is right; where bcrypt raises (passlib does for a
  password with a NUL character) a registered address fails with that exception instead, so that
  there the answer does tell registered and unknown addresses apart.
\<close>

theorem login_exact:
  assumes db: "constraints_ok db"
  shows "((\<exists>tokens db'. login_user lib cfg up now random email password db = (Inr tokens, db')) \<longleftrightarrow>
      (\<exists>user \<in> set (db_users db). u_email user = email \<and> utf8_length password \<le> 72 \<and>
         al_bcrypt_verify lib password (u_hashed_password user) = Inr True \<and> u_is_active user) \<and>
      up \<and> hash_token lib random \<notin> t_hash ` set (db_tokens db)) \<and>
    (\<forall>tokens db'. login_user lib cfg up now random email password db = (Inr tokens, db') \<longrightarrow>
      (\<exists>user \<in> set (db_users db). u_email user = email \<and>
         db_tokens db' = db_tokens db @ [\<lparr>t_hash = hash_token lib random, t_user = u_id user,
           t_expires_at = refresh_token_expiry cfg now, t_revoked = False\<rparr>])) \<and>
    (\<forall>e db'. login_user lib cfg up now random email password db = (Inl e, db') \<longrightarrow> db' = db) \<and>
    ((\<nexists>user. user \<in> set (db_users db) \<and> u_email user = email) \<longrightarrow>
       login_user lib cfg up now random email password db =
         (Inl (HttpError (HTTPException 401 ''invalid credentials'' [])), db)) \<and>
    (\<forall>user \<in> set (db_users db). u_email user = email \<longrightarrow>
      (verify_password lib password (u_hashed_password user) = Inr False \<longrightarrow>
         login_user lib cfg up now random email password db =
           (Inl (HttpError (HTTPException 401 ''invalid credentials'' [])), db)) \<and>
      (verify_password lib password (u_hashed_password user) = Inr True \<and> \<not> u_is_active user \<longrightarrow>
         login_user lib cfg up now random email password db =
           (Inl (HttpError (HTTPException 403 ''account disabled'' [])), db)) \<and>
      (\<forall>e. utf8_length password \<le> 72 \<and> al_bcrypt_verify lib password (u_hashed_password user) = Inl e \<longrightarrow>
         login_user lib cfg up now random email password db = (Inl (PyFailure e), db)))"
proof (cases "\<exists>user \<in> set (db_users db). u_email user = email")
  case False
  then have run: "login_user lib cfg up now random email password db =
      (Inl (HttpError (HTTPException 401 ''invalid credentials'' [])), db)" by (rule login_unknown)
  show ?thesis unfolding run using False by simp
next
  case True
  then obtain user where user: "user \<in> set (db_users db)" "u_email user = email" by blast
  have only: "\<And>v. v \<in> set (db_users db) \<Longrightarrow> u_email v = email \<Longrightarrow> v = user"
    using user db by (metis constraints_ok_def distinct_map inj_onD)
  let ?check = "verify_password lib password (u_hashed_password user)"
  show ?thesis
  proof (cases "?check = Inr True \<and> u_is_active user \<and> up \<and> hash_token lib random \<notin> t_hash ` set (db_tokens db)")
    case ok: True
    obtain tokens db' where i: "issue_tokens lib cfg now random user db = (tokens, db')" by fastforce
    note run = login_granted [OF db user ok i]
    have right: "al_bcrypt_verify lib password (u_hashed_password user) = Inr True" "utf8_length password \<le> 72"
      using ok by (simp_all add: verify_password_iff)
    show ?thesis unfolding run using ok right user issue_tokens_tokens [OF i] by (auto dest: only)
  next
    case bad: False
    from login_refused [OF db user bad] obtain e where run:
      "login_user lib cfg up now random email password db = (Inl e, db)"
      "\<And>x. ?check = Inl x \<Longrightarrow> e = PyFailure x"
      "?check = Inr False \<Longrightarrow> e = HttpError (HTTPException 401 ''invalid credentials'' [])"
      "?check = Inr True \<Longrightarrow> \<not> u_is_active user \<Longrightarrow> e = HttpError (HTTPException 403 ''account disabled'' [])"
      by blast
    have no: "\<not> (utf8_length password \<le> 72 \<and> al_bcrypt_verify lib password (u_hashed_password user) = Inr True \<and>
        u_is_active user \<and> up \<and> hash_token lib random \<notin> t_hash ` set (db_tokens db))"
      using bad by (simp add: verify_password_iff)
    have raised: "e = PyFailure x" if "utf8_length password \<le> 72" "al_bcrypt_verify lib password (u_hashed_password user) = Inl x" for x
      using that run(2) by (simp add: verify_password_iff)
    show ?thesis unfolding run(1) using no raised run(3,4) user(1,2) by (auto dest: only)
  qed
qed

text \<open>The distinction that a password with a NUL character makes.\<close>

lemma raising_password_tells_addresses_apart:
  assumes "constraints_ok db" "user \<in> set (db_users db)" "unknown \<notin> u_email ` set (db_users db)"
    and "utf8_length password \<le> 72" "al_bcrypt_verify lib password (u_hashed_password user) = Inl e"
  shows "fst (login_user lib cfg up now random (u_email user) password db) = Inl (PyFailure e)"
    and "fst (login_user lib cfg up now random unknown password db) =
      Inl (HttpError (HTTPException 401 ''invalid credentials'' []))"
proof -
  show "fst (login_user lib cfg up now random (u_email user) password db) = Inl (PyFailure e)"
    using assms(4,5) by (simp add: login_known [OF assms(1,2) refl] verify_password_iff(2) [THEN iffD2])
  show "fst (login_user lib cfg up now random unknown password db) =
      Inl (HttpError (HTTPException 401 ''invalid credentials'' []))"
    using assms(3) by (subst login_unknown) auto
qed

text \<open>
  The specification of sessions: which refresh tokens (by digest) are alive and whose they are.
\<close>

type_synonym sessions = "string \<rightharpoonup> uuid"

definition live_sessions :: "dbase \<Rightarrow> sessions" where
  "live_sessions db = map_of (map (\<lambda>t. (t_hash t, t_user t)) (filter (\<lambda>t. \<not> t_revoked t) (db_tokens db)))"

definition end_family :: "uuid \<Rightarrow> sessions \<Rightarrow> sessions" where
  "end_family u s = (\<lambda>h. if s h = Some u then None else s h)"

lemma live_revoke_hash: "live_sessions (revoke_where (\<lambda>t. t_hash t = h) db) = (live_sessions db)(h := None)"
proof -
  have "map_of (map (\<lambda>t. (t_hash t, t_user t)) (filter (\<lambda>t. \<not> t_revoked t) (map (revoke_row (\<lambda>t. t_hash t = h)) ts))) =
      (map_of (map (\<lambda>t. (t_hash t, t_user t)) (filter (\<lambda>t. \<not> t_revoked t) ts)))(h := None)" for ts
    by (induction ts) (auto simp: fun_eq_iff)
  then show ?thesis by (simp add: live_sessions_def revoke_where_def)
qed

lemma live_revoke_user:
  assumes "distinct (map t_hash (db_tokens db))"
  shows "live_sessions (revoke_where (\<lambda>t. t_user t = u) db) = end_family u (live_sessions db)"
proof -
  let ?live = "\<lambda>ts. map_of (map (\<lambda>t. (t_hash t, t_user t)) (filter (\<lambda>t. \<not> t_revoked t) ts))"
  have out: "?live ts h = None" if "h \<notin> t_hash ` set ts" for ts h
    using that by (auto simp: map_of_eq_None_iff)
  have "?live (map (revoke_row (\<lambda>t. t_user t = u)) ts) = end_family u (?live ts)" if "distinct (map t_hash ts)" for ts
    using that
  proof (induction ts)
    case (Cons t ts)
    then have "?live ts (t_hash t) = None" by (intro out) auto
    with Cons show ?case by (auto simp: end_family_def fun_eq_iff)
  qed (simp add: end_family_def)
  then show ?thesis using assms by (simp add: live_sessions_def revoke_where_def)
qed

lemma live_issue:
  assumes "issue_tokens lib cfg now random user db = (x, db')" "constraints_ok db'"
  shows "live_sessions db' = (live_sessions db)(hash_token lib random \<mapsto> u_id user)"
proof -
  note rows = issue_tokens_tokens [OF assms(1)]
  have "hash_token lib random \<notin> t_hash ` set (db_tokens db)" using assms(2) rows by (auto simp: constraints_ok_def)
  then have "live_sessions db (hash_token lib random) = None" by (auto simp: live_sessions_def map_of_eq_None_iff)
  then show ?thesis
    by (auto simp: live_sessions_def rows map_add_def fun_eq_iff split: option.splits)
qed

lemma login_success:
  assumes "login_user lib cfg up now random email password db = (Inr tokens, db')"
  obtains user where "user \<in> set (db_users db)" "u_is_active user" "issue_tokens lib cfg now random user db = (tokens, db')" "constraints_ok db'"
proof -
  from assms obtain user where s: "scalar_one_or_none (users_by_email db email) = Inr (Some user)" "u_is_active user"
    "issue_tokens lib cfg now random user db = (tokens, db')" "constraints_ok db'"
    by (auto simp: login_user_def http_fail_def finish_def commit_def split: sum.splits option.splits prod.splits if_splits)
  have "user \<in> set (users_by_email db email)" using scalar_some [OF s(1)] by simp
  then have "user \<in> set (db_users db)" by (simp add: users_by_email_def)
  then show thesis using that s(2-4) by blast
qed

lemma refresh_failure:
  assumes "refresh lib cfg up now random presented db = (Inl e, db')"
  shows "e \<noteq> HttpError (HTTPException 401 ''refresh token reused'' []) \<and> db' = db \<or>
    (\<exists>stored \<in> set (db_tokens db). t_hash stored = hash_token lib presented \<and> t_revoked stored \<and>
    e = HttpError (HTTPException 401 ''refresh token reused'' []) \<and> db' = revoke_where (\<lambda>t. t_user t = t_user stored) db)"
proof (cases "scalar_one_or_none (filter (\<lambda>t. t_hash t = hash_token lib presented) (db_tokens db))")
  case (Inr found)
  show ?thesis
  proof (cases found)
    case (Some stored)
    have "stored \<in> set (filter (\<lambda>t. t_hash t = hash_token lib presented) (db_tokens db))"
      using scalar_some [OF Inr [unfolded Some]] by simp
    then show ?thesis using assms Inr Some
      by (auto simp: refresh_def http_fail_def finish_def commit_def Let_def
          split: if_splits option.splits prod.splits)
  qed (use assms Inr in \<open>auto simp: refresh_def http_fail_def\<close>)
qed (use assms in \<open>auto simp: refresh_def\<close>)

text \<open>
  C16.  The token table implements sessions.  A login adds one live session of the account; a refresh
  replaces the session of the presented token by a new one of the same account, which must have been
  alive; a logout ends the session of the token.  A token that was used before is always refused as
  reuse when the database commits, and then every session of its owner has ended and nothing else
  changed; any other failure of a refresh is reported differently and leaves the tables alone.
\<close>

theorem token_table_refines_sessions:
  assumes db: "constraints_ok db"
  shows "(\<forall>tokens db'. login_user lib cfg up now random email password db = (Inr tokens, db') \<longrightarrow>
      (\<exists>user \<in> set (db_users db). u_is_active user \<and> live_sessions db' = (live_sessions db)(hash_token lib random \<mapsto> u_id user))) \<and>
    (\<forall>tokens db'. refresh lib cfg up now random presented db = (Inr tokens, db') \<longrightarrow>
      (\<exists>owner. live_sessions db (hash_token lib presented) = Some owner \<and>
         live_sessions db' = ((live_sessions db)(hash_token lib presented := None))(hash_token lib random \<mapsto> owner))) \<and>
    (\<forall>t \<in> set (db_tokens db). t_hash t = hash_token lib presented \<and> t_revoked t \<longrightarrow>
      (\<exists>db'. refresh lib cfg True now random presented db =
           (Inl (HttpError (HTTPException 401 ''refresh token reused'' [])), db') \<and>
         live_sessions db' = end_family (t_user t) (live_sessions db))) \<and>
    (\<forall>e db'. refresh lib cfg up now random presented db = (Inl e, db') \<longrightarrow>
      (if e = HttpError (HTTPException 401 ''refresh token reused'' [])
       then \<exists>t \<in> set (db_tokens db). t_hash t = hash_token lib presented \<and> t_revoked t \<and>
         live_sessions db' = end_family (t_user t) (live_sessions db)
       else db' = db)) \<and>
    (\<forall>msg db'. logout lib up presented db = (Inr msg, db') \<longrightarrow>
      live_sessions db' = (live_sessions db)(hash_token lib presented := None))"
proof (intro conjI allI impI ballI)
  fix tokens db' assume "login_user lib cfg up now random email password db = (Inr tokens, db')"
  then show "\<exists>user \<in> set (db_users db). u_is_active user \<and>
      live_sessions db' = (live_sessions db)(hash_token lib random \<mapsto> u_id user)"
    by (rule login_success) (use live_issue in blast)
next
  fix tokens db' assume "refresh lib cfg up now random presented db = (Inr tokens, db')"
  then show "\<exists>owner. live_sessions db (hash_token lib presented) = Some owner \<and>
      live_sessions db' = ((live_sessions db)(hash_token lib presented := None))(hash_token lib random \<mapsto> owner)"
  proof (rule refresh_success)
    fix stored user
    assume s: "stored \<in> set (db_tokens db)" "t_hash stored = hash_token lib presented" "\<not> t_revoked stored" "u_id user = t_user stored"
      "issue_tokens lib cfg now random user (revoke_where (\<lambda>t. t_hash t = hash_token lib presented) db) = (tokens, db')" "constraints_ok db'"
    have "live_sessions db (hash_token lib presented) = Some (t_user stored)"
      unfolding live_sessions_def using s(1-3) db
      by (intro map_of_is_SomeI) (auto simp: constraints_ok_def comp_def distinct_map_filter image_iff)
    then show ?thesis using live_issue [OF s(5,6)] s(4) by (simp add: live_revoke_hash)
  qed
next
  fix t assume t: "t \<in> set (db_tokens db)" "t_hash t = hash_token lib presented \<and> t_revoked t"
  then show "\<exists>db'. refresh lib cfg True now random presented db =
        (Inl (HttpError (HTTPException 401 ''refresh token reused'' [])), db') \<and>
      live_sessions db' = end_family (t_user t) (live_sessions db)"
    using refresh_reused [OF db t(1)] live_revoke_user db by (simp add: constraints_ok_def)
next
  fix e db' assume "refresh lib cfg up now random presented db = (Inl e, db')"
  from refresh_failure [OF this] live_revoke_user db
  show "if e = HttpError (HTTPException 401 ''refresh token reused'' [])
      then \<exists>t \<in> set (db_tokens db). t_hash t = hash_token lib presented \<and> t_revoked t \<and>
        live_sessions db' = end_family (t_user t) (live_sessions db)
      else db' = db"
    by (fastforce simp: constraints_ok_def)
next
  fix msg db' assume "logout lib up presented db = (Inr msg, db')"
  then have "db' = revoke_where (\<lambda>t. t_hash t = hash_token lib presented) db"
    by (auto simp: logout_def finish_def commit_def split: sum.splits if_splits)
  then show "live_sessions db' = (live_sessions db)(hash_token lib presented := None)" by (simp add: live_revoke_hash)
qed

section \<open>API keys\<close>

text \<open>What a route answers of a row does not depend on the secrets in it.\<close>

lemma answers_without_hashes:
  "UserOut (u\<lparr>u_hashed_password := h\<rparr>) = UserOut u" "APIKeyOut (k\<lparr>k_hash := h\<rparr>) = APIKeyOut k"
  by (simp_all add: UserOut_def APIKeyOut_def)

text \<open>
  The key that is shown once at its creation: it identifies the active administrator who made it,
  and it identifies nobody once it is revoked.
\<close>

lemma created_key_identifies:
  assumes "create_api_key lib up now i key_prefix secret who name db = (Inr key, db')"
    and "uuid_of_str who = Inr u" "get_user db u = Some user" "u_is_active user"
  shows "verify_api_key lib db' (kc_api_key key) = Inr (Some (uuid_str u))"
proof -
  let ?raw = "''agw_'' @ key_prefix @ ''_'' @ secret"
  let ?row = "\<lparr>k_id = i, k_name = name, k_hash = hash_token lib ?raw, k_prefix = key_prefix, k_user = Some u,
    k_is_active = True, k_created_at = now\<rparr>"
  have made: "db' = db\<lparr>db_keys := db_keys db @ [?row]\<rparr>" "constraints_ok db'" "kc_api_key key = ?raw"
    using assms(1,2)
    by (auto simp: create_api_key_def generate_api_key_def is_uuid_def finish_def commit_def APIKeyCreated_def
        api_key_out.defs Let_def split: sum.splits if_splits)
  have "filter (\<lambda>k. k_hash k = hash_token lib ?raw \<and> k_is_active k) (db_keys db) = []"
    using made(1,2) by (force simp: constraints_ok_def filter_empty_conv)
  then show ?thesis
    using made assms(3,4) by (simp add: verify_api_key_def scalar_one_or_none_def get_user_def)
qed

lemma revoked_key_identifies_nobody:
  assumes "revoke_api_key up (k_id k) db = (Inr (), db')" "constraints_ok db" "k \<in> set (db_keys db)"
    "k_hash k = hash_token lib raw"
  shows "verify_api_key lib db' raw = Inr None"
proof -
  have db': "db_keys db' = map (\<lambda>x. if k_id x = k_id k then x\<lparr>k_is_active := False\<rparr> else x) (db_keys db)"
    using assms(1) by (auto simp: revoke_api_key_def http_fail_def finish_def commit_def split: if_splits sum.splits)
  have "k_id x = k_id k" if "x \<in> set (db_keys db)" "k_hash x = hash_token lib raw" for x
    using that assms(2,3,4) inj_onD [of k_hash "set (db_keys db)" x k] by (simp add: constraints_ok_def distinct_map)
  then have "filter (\<lambda>x. k_hash x = hash_token lib raw \<and> k_is_active x) (db_keys db') = []"
    by (auto simp: db' filter_empty_conv)
  then show ?thesis by (simp add: verify_api_key_def scalar_one_or_none_def)
qed

section \<open>Witnesses\<close>

definition demo_token :: token_row where
  "demo_token = \<lparr>t_hash = ''old'', t_user = 7, t_expires_at = Aware 100, t_revoked = False\<rparr>"

lemma demo_password: "utf8_length ''h'' = 1" by code_simp

lemma demo_bcrypt [simp]:
  "al_bcrypt_verify demo_auth_lib p h = (if CHR 0x00 \<in> set p then Inl ValueError else Inr (suffix p h))"
  by (simp add: demo_auth_lib_def)

lemma demo_verify [simp]: "verify_password demo_auth_lib ''h'' ''h'' = Inr True"
  "verify_password demo_auth_lib ''wrong'' ''h'' = Inr False"
  by (simp_all add: verify_password_def demo_password suffix_def BCRYPT_MAX_BYTES_def)

lemma demo_hash [simp]: "hash_token demo_auth_lib s = s"
  by (simp add: hash_token_def demo_auth_lib_def)

lemma demo_users:
  "db_users demo_db = [demo_user]" "db_tokens demo_db = []" "u_email demo_user = ''a@b''"
  "u_hashed_password demo_user = ''h''" "u_is_active demo_user"
  by (simp_all add: demo_db_def demo_user_def)

lemma demo_refresh:
  "\<exists>tokens. refresh demo_auth_lib default_settings True 50 ''new'' ''old'' (demo_db\<lparr>db_tokens := [demo_token]\<rparr>) =
     (Inr tokens, demo_db\<lparr>db_tokens := [demo_token\<lparr>t_revoked := True\<rparr>,
        \<lparr>t_hash = ''new'', t_user = 7, t_expires_at = refresh_token_expiry default_settings 50, t_revoked = False\<rparr>]\<rparr>)"
  by (simp add: refresh_def hash_token_def demo_auth_lib_def scalar_one_or_none_def demo_token_def get_user_def demo_db_def
      demo_user_def issue_tokens_def generate_refresh_token_def finish_def commit_def constraints_ok_def has_user_def revoke_where_def
      revoke_row_def Let_def)

theorem refresh_token_single_use_witness:
  "\<exists>db1 db2 db3. db1 = demo_db\<lparr>db_tokens := [demo_token\<lparr>t_revoked := True\<rparr>,
        \<lparr>t_hash = ''new'', t_user = 7, t_expires_at = refresh_token_expiry default_settings 50, t_revoked = False\<rparr>]\<rparr> \<and>
     db2 = snd (login_user demo_auth_lib default_settings True 60 ''another'' ''a@b'' ''h'' db1) \<and>
     length (db_tokens db2) = 3 \<and>
     refresh demo_auth_lib default_settings True 70 ''x'' ''old'' db2 =
       (Inl (HttpError (HTTPException 401 ''refresh token reused'' [])), db3)"
proof -
  let ?db1 = "demo_db\<lparr>db_tokens := [demo_token\<lparr>t_revoked := True\<rparr>,
        \<lparr>t_hash = ''new'', t_user = 7, t_expires_at = refresh_token_expiry default_settings 50, t_revoked = False\<rparr>]\<rparr>"
  let ?db2 = "snd (login_user demo_auth_lib default_settings True 60 ''another'' ''a@b'' ''h'' ?db1)"
  have "(account_step demo_auth_lib default_settings)\<^sup>*\<^sup>* ?db1 ?db2" by (rule r_into_rtranclp) (rule logged_in)
  then have "\<exists>db3. refresh demo_auth_lib default_settings True 70 ''x'' ''old'' ?db2 =
       (Inl (HttpError (HTTPException 401 ''refresh token reused'' [])), db3)"
    using demo_refresh refresh_token_single_use by metis
  moreover have "length (db_tokens ?db2) = 3"
    by (simp add: login_user_def users_by_email_def scalar_one_or_none_def demo_token_def demo_db_def demo_password
        demo_user_def issue_tokens_def generate_refresh_token_def finish_def commit_def constraints_ok_def has_user_def Let_def)
  ultimately show ?thesis by blast
qed

theorem login_exact_witness:
  "constraints_ok demo_db \<and>
   (\<exists>tokens db'. login_user demo_auth_lib default_settings True 0 ''r'' ''a@b'' ''h'' demo_db = (Inr tokens, db')) \<and>
   login_user demo_auth_lib default_settings True 0 ''r'' ''a@b'' ''wrong'' demo_db =
     (Inl (HttpError (HTTPException 401 ''invalid credentials'' [])), demo_db) \<and>
   login_user demo_auth_lib default_settings True 0 ''r'' ''a@b'' [CHR 0x00] demo_db = (Inl (PyFailure ValueError), demo_db)"
proof -
  have nul: "utf8_length [CHR 0x00] = 1" by code_simp
  have db: "constraints_ok demo_db" by (simp add: constraints_ok_def demo_db_def)
  have "\<exists>tokens db'. login_user demo_auth_lib default_settings True 0 ''r'' ''a@b'' ''h'' demo_db = (Inr tokens, db')"
    using login_exact [OF db, of demo_auth_lib default_settings True 0 "''r''" "''a@b''" "''h''"]
    by (auto simp: demo_users demo_password)
  moreover have "login_user demo_auth_lib default_settings True 0 ''r'' ''a@b'' ''wrong'' demo_db =
     (Inl (HttpError (HTTPException 401 ''invalid credentials'' [])), demo_db)"
    using login_exact [OF db, of demo_auth_lib default_settings True 0 "''r''" "''a@b''" "''wrong''"]
    by (auto simp: demo_users suffix_def)
  moreover have "login_user demo_auth_lib default_settings True 0 ''r'' ''a@b'' [CHR 0x00] demo_db = (Inl (PyFailure ValueError), demo_db)"
    using login_exact [OF db, of demo_auth_lib default_settings True 0 "''r''" "''a@b''" "[CHR 0x00]"]
    by (auto simp: demo_users nul)
  ultimately show ?thesis using db by simp
qed

theorem token_table_refines_sessions_witness:
  "\<exists>db1. constraints_ok (demo_db\<lparr>db_tokens := [demo_token]\<rparr>) \<and>
     live_sessions (demo_db\<lparr>db_tokens := [demo_token]\<rparr>) = [''old'' \<mapsto> 7] \<and>
     (\<exists>tokens. refresh demo_auth_lib default_settings True 50 ''new'' ''old'' (demo_db\<lparr>db_tokens := [demo_token]\<rparr>) = (Inr tokens, db1)) \<and>
     live_sessions db1 = [''new'' \<mapsto> 7]"
proof -
  let ?db = "demo_db\<lparr>db_tokens := [demo_token]\<rparr>"
  have ok: "constraints_ok ?db"
    by (simp add: constraints_ok_def has_user_def demo_db_def demo_token_def demo_user_def)
  have live: "live_sessions ?db = [''old'' \<mapsto> 7]" by (simp add: live_sessions_def demo_token_def)
  obtain tokens db1 where run: "refresh demo_auth_lib default_settings True 50 ''new'' ''old'' ?db = (Inr tokens, db1)"
    using demo_refresh by blast
  from token_table_refines_sessions [OF ok] run
  have "\<exists>owner. live_sessions ?db (hash_token demo_auth_lib ''old'') = Some owner \<and>
      live_sessions db1 = ((live_sessions ?db)(hash_token demo_auth_lib ''old'' := None))(hash_token demo_auth_lib ''new'' \<mapsto> owner)"
    by blast
  then have "live_sessions db1 = [''new'' \<mapsto> 7]" by (simp add: live)
  then show ?thesis using ok live run by blast
qed

end
