(* ===== verification/Network_Detector.thy ===== *)
theory Network_Detector
  imports Http Redis_Service Client_Identity
begin

text \<open>
  \<^verbatim>\<open>gateway/middleware/network_detector.py\<close>: the classification of a request's connection from
  client hints or from the passive state kept in Redis, and the middleware that runs it.  The
  lemmas show the signal priority, that hints keep Redis out of the request, what a stored state
  decodes to, and that the shared state is updated without losing another worker's sample.
\<close>

section \<open>Classification\<close>

definition ECT_MAP :: "(string \<times> network_quality) list" where
  "ECT_MAP = [(''4g'', NQ_GOOD), (''3g'', NQ_DEGRADED), (''2g'', NQ_POOR), (''slow-2g'', NQ_POOR)]"

definition detector_skip_paths :: "string list" where
  "detector_skip_paths = [''/health'', ''/metrics'', ''/favicon.ico'']"

definition state_key :: "string \<Rightarrow> string" where
  "state_key client_id = ''netq:'' @ client_id"

definition thresholds_of :: "settings \<Rightarrow> thresholds" where
  "thresholds_of cfg = \<lparr>good_ms = rtt_good_threshold_ms cfg,
     degraded_ms = rtt_degraded_threshold_ms cfg, hysteresis_ms = rtt_hysteresis_ms cfg,
     transition_samples = rtt_transition_samples cfg, alpha = rtt_ewma_alpha cfg\<rparr>"

definition classify_rtt :: "settings \<Rightarrow> pyfloat \<Rightarrow> (py_error, network_quality) result" where
  "classify_rtt cfg rtt_ms =
     (if \<not> f_isfinite rtt_ms \<or> f_lt rtt_ms (Fin 0) then Inl ValueError
      else if f_lt rtt_ms (rtt_good_threshold_ms cfg) then Inr NQ_GOOD
      else if f_lt rtt_ms (rtt_degraded_threshold_ms cfg) then Inr NQ_DEGRADED
      else Inr NQ_POOR)"

definition parse_float :: "string option \<Rightarrow> pyfloat option" where
  "parse_float value =
     (case value of
        None \<Rightarrow> None
      | Some v \<Rightarrow>
          (case py_float_of_str v of
             None \<Rightarrow> None
           | Some parsed \<Rightarrow>
               if f_isfinite parsed \<and> f_le (Fin 0) parsed then Some parsed else None))"

definition explicit_signal ::
  "settings \<Rightarrow> headers \<Rightarrow> (py_error, (network_quality \<times> pyfloat option) option) result" where
  "explicit_signal cfg hs =
     (case parse_float (header_get hs ''x-client-rtt'') of
        Some client_rtt \<Rightarrow>
          (case classify_rtt cfg client_rtt of
             Inl e \<Rightarrow> Inl e
           | Inr q \<Rightarrow> Inr (Some (q, Some client_rtt)))
      | None \<Rightarrow>
          let ect = py_strip (header_or hs ''ect'' [])
          in case (if ect \<noteq> [] then map_of ECT_MAP (py_lower ect) else None) of
               Some q \<Rightarrow> Inr (Some (q, None))
             | None \<Rightarrow>
                 if py_lower (py_strip (header_or hs ''save-data'' [])) = ''on''
                 then Inr (Some (NQ_DEGRADED, None))
                 else Inr None)"

section \<open>The stored state\<close>

definition tier_str :: "tier \<Rightarrow> string" where
  "tier_str c = (case c of GOOD \<Rightarrow> ''GOOD'' | DEGRADED \<Rightarrow> ''DEGRADED'' | POOR \<Rightarrow> ''POOR'')"

definition tier_of_json :: "json \<Rightarrow> tier option" where
  "tier_of_json j =
     (case j of
        JStr s \<Rightarrow> if s = ''GOOD'' then Some GOOD
                  else if s = ''DEGRADED'' then Some DEGRADED
                  else if s = ''POOR'' then Some POOR
                  else None
      | _ \<Rightarrow> None)"

definition decode_state :: "json_loads \<Rightarrow> string option \<Rightarrow> (py_error, rtt_state) result" where
  "decode_state loads raw =
     (case raw of
        None \<Rightarrow> Inr RttState_default
      | Some text \<Rightarrow>
          if text = [] then Inr RttState_default
          else case loads text of
            Inl e \<Rightarrow> if e = ValueError \<or> e = TypeError then Inr RttState_default else Inl e
          | Inr (JObj data) \<Rightarrow>
              let tier = dict_get data ''tier'' (JStr ''GOOD'');
                  pending = dict_get data ''pending_tier'' JNull;
                  ew = dict_get data ''ewma'' JNull
              in (case tier_of_json tier of
                    None \<Rightarrow> Inr RttState_default
                  | Some ti \<Rightarrow>
                      if pending \<noteq> JNull \<and> tier_of_json pending = None then Inr RttState_default
                      else if ew \<noteq> JNull \<and>
                        (case py_float_of_text ew of
                           None \<Rightarrow> True
                         | Some x \<Rightarrow> \<not> (f_isfinite x \<and> f_le (Fin 0) x))
                      then Inr RttState_default
                      else case (if ew = JNull then Inr None else map_sum id Some (py_float_of_json ew)) of
                        Inl e \<Rightarrow> if e = ValueError \<or> e = TypeError then Inr RttState_default else Inl e
                      | Inr f \<Rightarrow>
                          (case py_int_of_json (dict_get data ''pending_count'' (JInt 0)) of
                             Inl e \<Rightarrow> if e = ValueError \<or> e = TypeError then Inr RttState_default else Inl e
                           | Inr n \<Rightarrow> Inr \<lparr>ewma = f, cur_tier = ti, pending_tier = tier_of_json pending,
                                         pending_count = n\<rparr>))
          | Inr _ \<Rightarrow> Inr RttState_default)"

definition state_asdict :: "rtt_state \<Rightarrow> json" where
  "state_asdict s = JObj [
     (''ewma'', case ewma s of None \<Rightarrow> JNull | Some x \<Rightarrow> JFloat x),
     (''tier'', JStr (tier_str (cur_tier s))),
     (''pending_tier'', case pending_tier s of None \<Rightarrow> JNull | Some c \<Rightarrow> JStr (tier_str c)),
     (''pending_count'', JInt (pending_count s))]"

definition load_state ::
  "'r redis_kv \<Rightarrow> json_loads \<Rightarrow> int \<Rightarrow> string \<Rightarrow> 'r \<Rightarrow> (py_error, rtt_state) result \<times> 'r" where
  "load_state ops loads t client_id r =
     (case rk_get ops t (state_key client_id) r of
        (Inr raw, r') \<Rightarrow> (decode_state loads raw, r')
      | (Inl _, r') \<Rightarrow> (Inr RttState_default, r'))"

text \<open>
  One attempt of the optimistic update: when the key is read under WATCH, what other clients do to
  the server before EXEC, and when EXEC runs.  WATCH and the GET after it are one point in time; a
  value that expires between them and EXEC does not abort the transaction.
\<close>

record 'r attempt =
  at_watch :: int
  at_env :: "'r \<Rightarrow> 'r"
  at_exec :: int

datatype outcome = Committed | Retry | GaveUp | Raised py_error

definition update_attempt ::
  "'r redis_kv \<Rightarrow> json_loads \<Rightarrow> json_dumps \<Rightarrow> settings \<Rightarrow> string \<Rightarrow> pyfloat \<Rightarrow> 'r attempt \<Rightarrow> 'r \<Rightarrow> outcome \<times> 'r" where
  "update_attempt ops loads dumps cfg key sample_ms a r =
     (case rk_get ops (at_watch a) key r of
        (Inl WatchError, r1) \<Rightarrow> (Retry, r1)
      | (Inl _, r1) \<Rightarrow> (GaveUp, r1)
      | (Inr raw, r1) \<Rightarrow>
          (case decode_state loads raw of
             Inl e \<Rightarrow> (Raised e, r1)
           | Inr current \<Rightarrow>
               let updated = advance current sample_ms (thresholds_of cfg)
               in case rk_exec_set ops r1 (at_exec a) key (dumps (state_asdict updated))
                         (rtt_state_ttl_seconds cfg) (at_env a r1) of
                    (Inr _, r2) \<Rightarrow> (Committed, r2)
                  | (Inl WatchError, r2) \<Rightarrow> (Retry, r2)
                  | (Inl _, r2) \<Rightarrow> (GaveUp, r2)))"

fun update_loop ::
  "'r redis_kv \<Rightarrow> json_loads \<Rightarrow> json_dumps \<Rightarrow> settings \<Rightarrow> string \<Rightarrow> pyfloat \<Rightarrow> 'r attempt list \<Rightarrow> 'r \<Rightarrow>
     (py_error, unit) result \<times> 'r" where
  "update_loop ops loads dumps cfg key x [] r = (Inr (), r)"
| "update_loop ops loads dumps cfg key x (a # as) r =
     (case update_attempt ops loads dumps cfg key x a r of
        (Retry, r') \<Rightarrow> update_loop ops loads dumps cfg key x as r'
      | (Raised e, r') \<Rightarrow> (Inl e, r')
      | (_, r') \<Rightarrow> (Inr (), r'))"

definition update_state ::
  "'r redis_kv \<Rightarrow> json_loads \<Rightarrow> json_dumps \<Rightarrow> settings \<Rightarrow> string \<Rightarrow> pyfloat \<Rightarrow> 'r attempt list \<Rightarrow> 'r \<Rightarrow>
     (py_error, unit) result \<times> 'r" where
  \<comment> \<open>\<^verbatim>\<open>for _ in range(4)\<close>: the schedule of the first four attempts\<close>
  "update_state ops loads dumps cfg client_id sample_ms schedule r =
     update_loop ops loads dumps cfg (state_key client_id) sample_ms (take 4 schedule) r"

section \<open>The middleware\<close>

definition server_elapsed_ms :: "pyfloat \<Rightarrow> pyfloat \<Rightarrow> pyfloat" where
  "server_elapsed_ms start now = f_mul (f_sub now start) (Fin 1000)"

definition finish_request ::
  "request \<Rightarrow> string \<Rightarrow> network_quality \<Rightarrow> pyfloat option \<Rightarrow> pyfloat \<Rightarrow> pyfloat \<Rightarrow> response \<Rightarrow> request_state \<Rightarrow>
     pyfloat \<Rightarrow> response \<times> request_state \<times> effect list" where
  "finish_request rq route_label quality explicit_rtt elapsed_ms upstream_ms resp st link_rtt_ms =
     (let qv = quality_value quality;
          hs = set_header ''X-RTT-Source''
                 (if explicit_rtt \<noteq> None then ''client-hint'' else ''server-processing-estimate'')
                 (set_header ''X-RTT-Ms'' (fmt_fixed 1 link_rtt_ms)
                   (set_header ''X-Network-Quality'' qv (r_headers resp)));
          log = (case st_request_log_record st of
              None \<Rightarrow> []
            | Some rec \<Rightarrow> [EnqueueLog (rec\<lparr>lg_rtt_ms := elapsed_ms,
                 lg_upstream_latency_ms := Some upstream_ms,
                 lg_response_size_optimized := Some
                   (case st_response_size_optimized st of
                      Some n \<Rightarrow> n | None \<Rightarrow> lg_response_size_original rec)\<rparr>)]);
          cache_hit = (st_served_from_cache st = Some True)
      in (resp\<lparr>r_headers := hs\<rparr>, st\<lparr>st_rtt_ms := Some link_rtt_ms\<rparr>,
          log @ [CountQuality qv, RecordRequest (req_method rq) route_label qv cache_hit]))"

definition detector_dispatch ::
  "'r redis_kv \<Rightarrow> json_loads \<Rightarrow> json_dumps \<Rightarrow> 'ip ip_lib \<Rightarrow> settings \<Rightarrow> request \<Rightarrow> string \<Rightarrow> 'r app \<Rightarrow>
     pyfloat \<Rightarrow> int \<Rightarrow> pyfloat \<Rightarrow> 'r attempt list \<Rightarrow> 'r app" where
  "detector_dispatch ops loads dumps ipl cfg rq route_label call_next start t_load finish schedule st r =
     (if req_path rq \<in> set detector_skip_paths then call_next (st\<lparr>st_network_quality := Some NQ_GOOD\<rparr>) r
      else
        let client_id = client_ip ipl cfg (req_client rq) (header_get (req_headers rq) ''x-forwarded-for'')
        in case explicit_signal cfg (req_headers rq) of
             Inl e \<Rightarrow> ((Inl e, st, []), r)
           | Inr explicit \<Rightarrow>
               (let (loaded, r1) =
                  (case explicit of
                     Some (q, x) \<Rightarrow> (Inr (q, x, False), r)
                   | None \<Rightarrow>
                       (case load_state ops loads t_load client_id r of
                          (Inl e, r1) \<Rightarrow> (Inl e, r1)
                        | (Inr s, r1) \<Rightarrow> (Inr (quality_of_tier (cur_tier s), None, True), r1)))
                in case loaded of
                     Inl e \<Rightarrow> ((Inl e, st, []), r1)
                   | Inr (quality, explicit_rtt, passive) \<Rightarrow>
                       (case call_next (st\<lparr>st_network_quality := Some quality, st_request_start := Some start,
                                         st_upstream_latency_ms := None\<rparr>) r1 of
                          ((Inl e, st2, eff), r2) \<Rightarrow> ((Inl e, st2, eff), r2)
                        | ((Inr resp, st2, eff), r2) \<Rightarrow>
                            (let elapsed_ms = server_elapsed_ms start finish;
                                 upstream_ms = (case st_upstream_latency_ms st2 of Some u \<Rightarrow> u | None \<Rightarrow> Fin 0);
                                 link_rtt_ms = (case explicit_rtt of
                                     Some x \<Rightarrow> x
                                   | None \<Rightarrow> f_max (f_sub elapsed_ms upstream_ms) (Fin 0));
                                 (res, r3) = (if passive
                                   then update_state ops loads dumps cfg client_id link_rtt_ms schedule r2
                                   else (Inr (), r2))
                             in case res of
                                  Inl e \<Rightarrow> ((Inl e, st2, eff), r3)
                                | Inr _ \<Rightarrow>
                                    (let (resp3, st3, own) = finish_request rq route_label quality explicit_rtt
                                           elapsed_ms upstream_ms resp st2 link_rtt_ms
                                     in ((Inr resp3, st3, eff @ own), r3))))))"

section \<open>Lemmas\<close>

lemma parse_float_ok: "parse_float v = Some x \<Longrightarrow> f_isfinite x \<and> f_le (Fin 0) x"
  by (auto simp: parse_float_def split: option.splits if_splits)

lemma classify_rtt_ok:
  "f_isfinite x \<Longrightarrow> f_le (Fin 0) x \<Longrightarrow> classify_rtt cfg x =
     Inr (if f_lt x (rtt_good_threshold_ms cfg) then NQ_GOOD
          else if f_lt x (rtt_degraded_threshold_ms cfg) then NQ_DEGRADED else NQ_POOR)"
  by (cases x) (auto simp: classify_rtt_def)

lemma ECT_MAP_no_empty [simp]: "map_of ECT_MAP (py_lower []) = None"
  by (simp add: ECT_MAP_def py_lower_def)

text \<open>The tier a hint-free passive classification would give agrees with the interval rule.\<close>

lemma classify_rtt_candidate:
  assumes "thresholds_ok (thresholds_of cfg)" "f_isfinite x" "f_le (Fin 0) x"
  shows "classify_rtt cfg x = Inr (quality_of_tier (candidate_tier x GOOD (thresholds_of cfg)))"
proof -
  have "x \<noteq> NaN" using assms(2) by auto
  from candidate_tier_cases [OF assms(1) this, of GOOD] show ?thesis
    using classify_rtt_ok [OF assms(2,3), of cfg] by (simp add: thresholds_of_def)
qed

lemma py_float_of_text_finite:
  "py_float_of_text j = Some x \<Longrightarrow> f_isfinite x \<Longrightarrow> py_float_of_json j = Inr x"
  by (cases j) (auto split: pyfloat.splits elim: f_isfinite.elims)

lemma decode_state_ewma_ok:
  assumes "decode_state loads raw = Inr s"
  shows "ewma_ok s"
  using assms
  by (auto simp: decode_state_def Let_def RttState_default_def ewma_ok_def py_float_of_text_finite
      split: option.splits if_splits sum.splits json.splits)

definition stored_state_valid :: "(string \<times> json) list \<Rightarrow> bool" where
  "stored_state_valid data =
     (tier_of_json (dict_get data ''tier'' (JStr ''GOOD'')) \<noteq> None \<and>
      (dict_get data ''pending_tier'' JNull = JNull \<or>
       tier_of_json (dict_get data ''pending_tier'' JNull) \<noteq> None) \<and>
      (dict_get data ''ewma'' JNull = JNull \<or>
       (\<exists>x. py_float_of_text (dict_get data ''ewma'' JNull) = Some x \<and> f_isfinite x \<and> f_le (Fin 0) x)))"

lemma py_int_of_json_overflow:
  "py_int_of_json j = Inl e \<and> e \<noteq> ValueError \<and> e \<noteq> TypeError \<longleftrightarrow>
     (j = JFloat PosInf \<or> j = JFloat NegInf) \<and> e = OverflowError"
  by (cases j rule: py_int_of_json.cases) (auto split: option.splits)

lemma decode_state_obj:
  assumes "text \<noteq> []" "loads text = Inr (JObj data)"
  shows "decode_state loads (Some text) =
    (if \<not> stored_state_valid data then Inr RttState_default
     else case py_int_of_json (dict_get data ''pending_count'' (JInt 0)) of
            Inl e \<Rightarrow> if e = ValueError \<or> e = TypeError then Inr RttState_default else Inl e
          | Inr n \<Rightarrow> Inr \<lparr>ewma = (if dict_get data ''ewma'' JNull = JNull then None
                                else py_float_of_text (dict_get data ''ewma'' JNull)),
                        cur_tier = the (tier_of_json (dict_get data ''tier'' (JStr ''GOOD''))),
                        pending_tier = tier_of_json (dict_get data ''pending_tier'' JNull),
                        pending_count = n\<rparr>)"
proof (cases "stored_state_valid data")
  case True
  then obtain ti where ti: "tier_of_json (dict_get data ''tier'' (JStr ''GOOD'')) = Some ti"
    and pe: "dict_get data ''pending_tier'' JNull = JNull \<or>
       tier_of_json (dict_get data ''pending_tier'' JNull) \<noteq> None"
    by (auto simp: stored_state_valid_def)
  show ?thesis
  proof (cases "dict_get data ''ewma'' JNull = JNull")
    case null: True
    show ?thesis using assms True ti pe null
      by (auto simp: decode_state_def Let_def split: sum.splits)
  next
    case False
    with True obtain x where x: "py_float_of_text (dict_get data ''ewma'' JNull) = Some x"
      "f_isfinite x" "f_le (Fin 0) x"
      by (auto simp: stored_state_valid_def)
    show ?thesis using assms True ti pe False x
      by (auto simp: decode_state_def Let_def py_float_of_text_finite split: sum.splits)
  qed
next
  case False
  then show ?thesis using assms
    by (auto simp: decode_state_def Let_def stored_state_valid_def split: option.splits)
qed

lemma tier_of_json_str [simp]: "tier_of_json (JStr (tier_str c)) = Some c"
  by (cases c) (simp_all add: tier_of_json_def tier_str_def)

lemma tier_of_json_null [simp]: "tier_of_json JNull = None"
  by (simp add: tier_of_json_def)

lemma py_lower_response_headers [simp]:
  "py_lower ''X-Network-Quality'' = ''x-network-quality''"
  "py_lower ''X-RTT-Ms'' = ''x-rtt-ms''"
  "py_lower ''X-RTT-Source'' = ''x-rtt-source''"
  by code_simp+

lemma finish_request_quality:
  "finish_request rq lbl q x el up resp st link = (resp', st', eff) \<Longrightarrow>
     header_get (r_headers resp') ''x-network-quality'' = Some (quality_value q)"
  by (auto simp: finish_request_def Let_def)

section \<open>Properties\<close>

text \<open>
  Signal priority: a valid RTT hint decides by the half-open intervals, otherwise a known
  ECT value, otherwise Save-Data; a malformed or negative RTT hint is ignored, and no header
  makes the classification raise.
\<close>

theorem explicit_signal_priority:
  "explicit_signal cfg hs = Inr
     (case parse_float (header_get hs ''x-client-rtt'') of
        Some x \<Rightarrow> Some (if f_lt x (rtt_good_threshold_ms cfg) then NQ_GOOD
                        else if f_lt x (rtt_degraded_threshold_ms cfg) then NQ_DEGRADED
                        else NQ_POOR, Some x)
      | None \<Rightarrow>
          (case map_of ECT_MAP (py_lower (py_strip (header_or hs ''ect'' []))) of
             Some q \<Rightarrow> Some (q, None)
           | None \<Rightarrow> if py_lower (py_strip (header_or hs ''save-data'' [])) = ''on''
                     then Some (NQ_DEGRADED, None) else None))"
  by (auto simp: explicit_signal_def Let_def classify_rtt_ok dest!: parse_float_ok
      split: option.splits)

text \<open>
  Hints keep Redis out of the request: when a request carries a usable hint the middleware
  neither reads nor writes the shared state, whatever the server does, and the response
  reports the hinted tier.
\<close>

theorem hinted_request_redis_free:
  assumes "explicit_signal cfg (req_headers rq) = Inr (Some (q, x))"
    and "req_path rq \<notin> set detector_skip_paths"
    and "call_next (st\<lparr>st_network_quality := Some q, st_request_start := Some start,
           st_upstream_latency_ms := None\<rparr>) r = ((Inr resp, st2, eff0), r2)"
  shows "\<exists>resp' st' eff.
      detector_dispatch ops loads dumps ipl cfg rq lbl call_next start t_load finish schedule st r =
        ((Inr resp', st', eff), r2) \<and>
      header_get (r_headers resp') ''x-network-quality'' = Some (quality_value q)"
proof -
  obtain resp' st' eff where f: "finish_request rq lbl q x (server_elapsed_ms start finish)
      (case st_upstream_latency_ms st2 of Some u \<Rightarrow> u | None \<Rightarrow> Fin 0) resp st2
      (case x of Some y \<Rightarrow> y
       | None \<Rightarrow> f_max (f_sub (server_elapsed_ms start finish)
            (case st_upstream_latency_ms st2 of Some u \<Rightarrow> u | None \<Rightarrow> Fin 0)) (Fin 0)) = (resp', st', eff)"
    by (metis prod_cases3)
  have "detector_dispatch ops loads dumps ipl cfg rq lbl call_next start t_load finish schedule st r =
      ((Inr resp', st', eff0 @ eff), r2)"
    using assms f by (simp add: detector_dispatch_def Let_def)
  with finish_request_quality [OF f] show ?thesis by blast
qed

text \<open>
  The stored state reads back: what the update writes for a state with a finite smoothed
  value is decoded to exactly that state by the next request.
\<close>

theorem stored_state_roundtrip:
  assumes "ewma_ok s" "dumps (state_asdict s) \<noteq> []"
    and "loads (dumps (state_asdict s)) = Inr (state_asdict s)"
  shows "decode_state loads (Some (dumps (state_asdict s))) = Inr s"
proof -
  obtain data where d: "state_asdict s = JObj data" by (simp add: state_asdict_def)
  have get: "dict_get data ''tier'' (JStr ''GOOD'') = JStr (tier_str (cur_tier s))"
    "dict_get data ''pending_tier'' JNull = (case pending_tier s of None \<Rightarrow> JNull | Some c \<Rightarrow> JStr (tier_str c))"
    "dict_get data ''ewma'' JNull = (case ewma s of None \<Rightarrow> JNull | Some x \<Rightarrow> JFloat x)"
    "dict_get data ''pending_count'' (JInt 0) = JInt (pending_count s)"
    using d by (auto simp: state_asdict_def dict_get_def)
  have "stored_state_valid data"
    using assms(1) by (auto simp: stored_state_valid_def get ewma_ok_def split: option.splits)
  then show ?thesis
    using decode_state_obj [of "dumps (state_asdict s)" loads data] assms
    by (simp add: d get split: option.splits)
qed

text \<open>
  Corrupt state: a stored JSON object makes the decoder raise exactly when the other
  fields are valid and \<open>pending_count\<close> is an infinite float, and then it raises OverflowError;
  every other malformed object decodes to some state.
\<close>

theorem decode_state_raises_iff:
  assumes "text \<noteq> []" "loads text = Inr (JObj data)"
  shows "decode_state loads (Some text) = Inl e \<longleftrightarrow>
     e = OverflowError \<and> stored_state_valid data \<and>
     dict_get data ''pending_count'' (JInt 0) \<in> {JFloat PosInf, JFloat NegInf}"
  using py_int_of_json_overflow [of "dict_get data ''pending_count'' (JInt 0)" e]
  by (auto simp: decode_state_obj [of "text" loads data, OF assms]
      split: sum.splits if_splits)

text \<open>
  C33.  No lost update: when an attempt commits, the key still held what the attempt had read (no
  other worker wrote it in between), and the new value is that state advanced by the sample;
  when it has to be retried, it changed nothing.
\<close>

theorem update_attempt_atomic:
  assumes "redis_kv_laws ops view" "0 < rtt_state_ttl_seconds cfg"
    and "rk_get ops (at_watch a) key r = (Inr raw, r1)"
    and "update_attempt ops loads dumps cfg key x a r = (oc, r')"
  shows "(oc = Committed \<longrightarrow>
      (\<exists>cur. decode_state loads (view (at_watch a) r key) = Inr cur \<and>
        view (at_exec a) (at_env a r1) key = view (at_exec a) r1 key \<and>
        put_from view (at_exec a) key (dumps (state_asdict (advance cur x (thresholds_of cfg))))
          (rtt_state_ttl_seconds cfg) (at_env a r1) r')) \<and>
    (oc = Retry \<longrightarrow> same_from view (at_exec a) (at_env a r1) r')"
proof (cases "decode_state loads raw")
  case (Inl e)
  with assms show ?thesis by (auto simp: update_attempt_def)
next
  case (Inr cur)
  let ?v = "dumps (state_asdict (advance cur x (thresholds_of cfg)))"
  obtain er r2 where ex: "rk_exec_set ops r1 (at_exec a) key ?v (rtt_state_ttl_seconds cfg)
      (at_env a r1) = (er, r2)" by fastforce
  have laws: "raw = view (at_watch a) r key"
    "is_ok er \<Longrightarrow> view (at_exec a) (at_env a r1) key = view (at_exec a) r1 key"
    "er = Inr () \<Longrightarrow> put_from view (at_exec a) key ?v (rtt_state_ttl_seconds cfg) (at_env a r1) r2"
    "er = Inl WatchError \<Longrightarrow> same_from view (at_exec a) (at_env a r1) r2"
    using redis_kv_laws.get_reply [OF assms(1,3)] redis_kv_laws.exec_watch [OF assms(1) ex]
      redis_kv_laws.exec_effect [OF assms(1) ex assms(2)] redis_kv_laws.exec_aborted [OF assms(1)] ex
    by (auto simp: effected_def)
  from laws assms(3,4) Inr ex show ?thesis
    by (auto simp: update_attempt_def Let_def effected_def split: sum.splits redis_error.splits)
qed

section \<open>Witnesses\<close>

definition demo_request :: request where
  "demo_request = \<lparr>req_method = ''GET'', req_path = ''/api/x'', req_query = [],
     req_headers = [(''ect'', ''3g'')], req_client = Some ''c''\<rparr>"

definition demo_response :: response where
  "demo_response = \<lparr>r_status = 200, r_headers = [], r_content = NoContent, r_media = None\<rparr>"

lemma demo_request_signal: "explicit_signal default_settings (req_headers demo_request) = Inr (Some (NQ_DEGRADED, None))"
  by (simp add: explicit_signal_def Let_def demo_request_def header_get_def header_or_def parse_float_def
      ECT_MAP_def py_eval)

theorem hinted_request_redis_free_witness:
  "\<exists>resp' st' eff.
      detector_dispatch mem_kv (\<lambda>_. Inl ValueError) (\<lambda>_. []) demo_ip default_settings demo_request ''/api''
        (\<lambda>st r. ((Inr demo_response, st, []), r)) (Fin 0) 0 (Fin 1) [] fresh_state (mem_empty\<lparr>m_up := False\<rparr>) =
        ((Inr resp', st', eff), mem_empty\<lparr>m_up := False\<rparr>) \<and>
      header_get (r_headers resp') ''x-network-quality'' = Some (quality_value NQ_DEGRADED)"
  by (rule hinted_request_redis_free [OF demo_request_signal])
     (simp_all add: demo_request_def detector_skip_paths_def)

definition demo_state :: rtt_state where
  "demo_state = \<lparr>ewma = Some (Fin 150), cur_tier = GOOD, pending_tier = Some DEGRADED, pending_count = 2\<rparr>"

theorem stored_state_roundtrip_witness:
  "decode_state (\<lambda>_. Inr (state_asdict demo_state)) (Some ((\<lambda>_. ''{}'') (state_asdict demo_state))) = Inr demo_state"
  by (rule stored_state_roundtrip) (simp_all add: demo_state_def ewma_ok_def)

theorem decode_state_raises_iff_witness:
  "decode_state (\<lambda>_. Inr (JObj [(''pending_count'', JFloat PosInf)])) (Some ''{}'') = Inl OverflowError"
  by (subst decode_state_raises_iff [where data = "[(''pending_count'', JFloat PosInf)]"])
     (simp_all add: stored_state_valid_def dict_get_def tier_of_json_def)

definition demo_attempt :: "mem_redis attempt" where
  "demo_attempt = \<lparr>at_watch = 0, at_env = id, at_exec = 1\<rparr>"

theorem update_attempt_atomic_witness:
  "\<exists>r'. update_attempt mem_kv (\<lambda>_. Inl ValueError) (\<lambda>_. ''{}'') default_settings ''k'' (Fin 800)
       demo_attempt mem_empty = (Committed, r') \<and>
     put_from mem_view 1 ''k'' ''{}'' 3600 mem_empty r'"
proof -
  have g: "rk_get mem_kv (at_watch demo_attempt) ''k'' mem_empty = (Inr None, mem_empty)"
    by (simp add: mem_kv_def mem_empty_def mem_view_def)
  obtain r' where u: "update_attempt mem_kv (\<lambda>_. Inl ValueError) (\<lambda>_. ''{}'') default_settings ''k'' (Fin 800)
       demo_attempt mem_empty = (Committed, r')"
    by (simp add: update_attempt_def mem_kv_def mem_empty_def mem_view_def decode_state_def
        demo_attempt_def default_settings_def Let_def)
  have "0 < rtt_state_ttl_seconds default_settings" by (simp add: default_settings_def)
  from update_attempt_atomic [OF mem.redis_kv_laws_axioms this g u] u show ?thesis
    by (auto simp: demo_attempt_def default_settings_def)
qed

end
