(* ===== verification/Config.thy ===== *)
theory Config
  imports Proxy_Http Network_Detector
begin

text \<open>
  The validation of the settings and the atomic loading of the route policy in
  \<^verbatim>\<open>gateway/config.py\<close>.  The file system, the YAML parser and pydantic's conversion of a scalar are
  the parameter \<open>config_env\<close>; which fields a rule has, their defaults and bounds are written out.
  The lemmas show that validated settings meet what the other components rely on, that a load
  either installs a complete valid policy or changes nothing, and that the policy in force does
  not depend on what was loaded before.
\<close>

section \<open>Settings\<close>

definition settings_floats :: "settings \<Rightarrow> pyfloat list" where
  "settings_floats s =
     [rtt_good_threshold_ms s, rtt_degraded_threshold_ms s, rtt_hysteresis_ms s, rtt_ewma_alpha s,
      upstream_timeout_seconds s, redis_socket_timeout_seconds s]"

definition settings_fields_ok :: "settings \<Rightarrow> bool" where
  \<comment> \<open>floats are doubles, none infinite or NaN; the \<^verbatim>\<open>Field(gt=0)\<close> bounds\<close>
  "settings_fields_ok s =
     (list_all (\<lambda>x. f_valid x \<and> f_isfinite x) (settings_floats s) \<and>
      0 < max_request_body_bytes s \<and> 0 < max_response_body_bytes s \<and>
      f_lt (Fin 0) (redis_socket_timeout_seconds s) \<and>
      0 < queue_claim_idle_seconds s \<and> 0 < queue_max_age_seconds s \<and> 0 < queue_max_depth s)"

definition positive_settings :: "settings \<Rightarrow> int list" where
  "positive_settings s =
     [rtt_transition_samples s, rtt_state_ttl_seconds s, access_token_ttl_minutes s, refresh_token_ttl_days s,
      cache_default_ttl s, revalidate_lock_ttl_seconds s, login_rate_limit s, login_rate_window_seconds s,
      global_rate_limit s, global_rate_window_seconds s, queue_sample_interval_seconds s]"

definition weak_secret :: "string \<Rightarrow> bool" where
  "weak_secret k = (length k < 32 \<or> py_startswith k ''change-me'' \<or> py_startswith k ''your-secret'')"

definition default_db_password :: "string option \<Rightarrow> bool" where
  "default_db_password p = (p \<in> {None, Some ''gateway'', Some ''postgres'', Some ''password''})"

definition production_ok :: "(string \<Rightarrow> bool) \<Rightarrow> settings \<Rightarrow> bool" where
  "production_ok bracket_ok s =
     (\<not> weak_secret (secret_key s) \<and> ''*'' \<notin> set (allowed_origins s) \<and>
      (py_startswith (database_url s) ''postgresql'' \<longrightarrow>
        (case urlsplit bracket_ok (database_url s) of
           Inl _ \<Rightarrow> False | Inr u \<Rightarrow> \<not> default_db_password (snd (userinfo u)))))"

definition validate_boundaries ::
  "(string \<Rightarrow> bool) \<Rightarrow> (string \<Rightarrow> bool) \<Rightarrow> settings \<Rightarrow> (py_error, settings) result" where
  \<comment> \<open>whether \<^verbatim>\<open>ipaddress.ip_network\<close> accepts a text, and the check of a bracketed host; every
    refusal is a \<^verbatim>\<open>ValueError\<close>\<close>
  "validate_boundaries network_ok bracket_ok s =
     (if \<not> (f_lt (Fin 0) (rtt_good_threshold_ms s) \<and> f_lt (rtt_good_threshold_ms s) (rtt_degraded_threshold_ms s))
      then Inl ValueError
      else if \<not> (f_le (Fin 0) (rtt_hysteresis_ms s) \<and> f_lt (rtt_hysteresis_ms s) (rtt_good_threshold_ms s))
      then Inl ValueError
      else if \<not> (f_lt (Fin 0) (rtt_ewma_alpha s) \<and> f_le (rtt_ewma_alpha s) (Fin 1)) then Inl ValueError
      else if list_ex (\<lambda>n. n \<le> 0) (positive_settings s) then Inl ValueError
      else if f_le (upstream_timeout_seconds s) (Fin 0) \<or> queue_max_retries s < 0 then Inl ValueError
      else if queue_backoff_schedule s = [] \<or> list_ex (\<lambda>delay. delay \<le> 0) (queue_backoff_schedule s) then Inl ValueError
      else if f_le (Fin (of_int (queue_claim_idle_seconds s))) (upstream_timeout_seconds s) then Inl ValueError
      else if \<not> (4 \<le> bcrypt_rounds s \<and> bcrypt_rounds s \<le> 16) \<or> jwt_algorithm s \<noteq> ''HS256'' then Inl ValueError
      else if \<not> list_all network_ok (trusted_proxy_networks s) then Inl ValueError
      else if \<not> list_all (\<lambda>base. is_ok (validate_upstream_url bracket_ok base)) (map snd (upstream_services s))
      then Inl ValueError
      else if allow_unlisted_upstreams s \<and> upstream_discovery_domains s = [] then Inl ValueError
      else if is_production s \<and> \<not> production_ok bracket_ok s then Inl ValueError
      else Inr s)"

definition Settings :: "(string \<Rightarrow> bool) \<Rightarrow> (string \<Rightarrow> bool) \<Rightarrow> settings \<Rightarrow> (py_error, settings) result" where
  "Settings network_ok bracket_ok s =
     (if settings_fields_ok s then validate_boundaries network_ok bracket_ok s else Inl ValueError)"

section \<open>Files\<close>

definition find_file :: "(string \<Rightarrow> bool) \<Rightarrow> string list \<Rightarrow> string \<Rightarrow> string option" where
  \<comment> \<open>whether a path is a file; the working directory and the parents of the module\<close>
  "find_file is_file parents name =
     map_option (\<lambda>parent. parent @ ''/'' @ name) (find (\<lambda>parent. is_file (parent @ ''/'' @ name)) parents)"

definition find_env_file :: "bool \<Rightarrow> (string \<Rightarrow> bool) \<Rightarrow> string list \<Rightarrow> string option" where
  "find_env_file pytest_running is_file parents =
     (if pytest_running then None else find_file is_file parents ''.env'')"

section \<open>The policy document\<close>

datatype yaml = YNull | YBool bool | YInt int | YFloat pyfloat | YStr string | YSeq "yaml list"
  | YMap "(yaml \<times> yaml) list" | YOther string

record config_env =
  ce_is_file :: "string \<Rightarrow> bool"
  ce_parents :: "string list"
  ce_read_text :: "string \<Rightarrow> (py_error, string) result" \<comment> \<open>\<^verbatim>\<open>OSError\<close>, or \<^verbatim>\<open>ValueError\<close> for bad UTF-8\<close>
  ce_safe_load :: "string \<Rightarrow> yaml option" \<comment> \<open>\<^const>\<open>None\<close>: \<^verbatim>\<open>YAMLError\<close>\<close>
  ce_to_bool :: "yaml \<Rightarrow> bool option" \<comment> \<open>pydantic's conversions, \<^const>\<open>None\<close> where it refuses the value\<close>
  ce_to_int :: "yaml \<Rightarrow> int option"
  ce_to_float :: "yaml \<Rightarrow> pyfloat option"
  ce_to_strings :: "yaml \<Rightarrow> string list option"
  ce_bracket_ok :: "string \<Rightarrow> bool"

definition rule_fields :: "string list" where
  "rule_fields = [''cacheable'', ''cache_ttl'', ''optional_fields'', ''upstream_timeout'', ''queue_writes'']"

definition yaml_get :: "(yaml \<times> yaml) list \<Rightarrow> string \<Rightarrow> yaml option" where
  "yaml_get d name = map_of d (YStr name)"

definition field :: "('a \<Rightarrow> bool) \<Rightarrow> (yaml \<Rightarrow> 'a option) \<Rightarrow> 'a \<Rightarrow> yaml option \<Rightarrow> 'a option" where
  \<comment> \<open>the bound, the conversion and the default of a field; \<^const>\<open>None\<close>: a validation error\<close>
  "field bound conv dflt v =
     (case v of
        None \<Rightarrow> Some dflt
      | Some y \<Rightarrow> (case conv y of None \<Rightarrow> None | Some x \<Rightarrow> if bound x then Some x else None))"

definition timeout_field :: "config_env \<Rightarrow> yaml \<Rightarrow> pyfloat option option" where
  "timeout_field env y = (if y = YNull then Some None else map_option Some (ce_to_float env y))"

definition timeout_bound :: "pyfloat option \<Rightarrow> bool" where
  "timeout_bound t = (case t of None \<Rightarrow> True | Some x \<Rightarrow> f_isfinite x \<and> f_lt (Fin 0) x)"

definition RouteRule_model_validate :: "config_env \<Rightarrow> yaml \<Rightarrow> (py_error, route_rule) result" where
  "RouteRule_model_validate env y =
     (case y of
        YMap d \<Rightarrow>
          if \<not> list_all (\<lambda>k. k \<in> YStr ` set rule_fields) (map fst d) then Inl ValueError
          else (case (field (\<lambda>_. True) (ce_to_bool env) True (yaml_get d ''cacheable''),
                      field (\<lambda>n. 0 < n) (ce_to_int env) 60 (yaml_get d ''cache_ttl''),
                      field (\<lambda>_. True) (ce_to_strings env) [] (yaml_get d ''optional_fields''),
                      field timeout_bound (timeout_field env) None (yaml_get d ''upstream_timeout''),
                      field (\<lambda>_. True) (ce_to_bool env) False (yaml_get d ''queue_writes'')) of
                  (Some c, Some ttl, Some fs, Some t, Some q) \<Rightarrow>
                    Inr \<lparr>rr_cacheable = c, rr_cache_ttl = ttl, rr_optional_fields = fs,
                         rr_upstream_timeout = t, rr_queue_writes = q\<rparr>
                | _ \<Rightarrow> Inl ValueError)
      | _ \<Rightarrow> Inl ValueError)"

type_synonym rule_table = "(yaml, route_rule) dict"
  \<comment> \<open>the names of a document are not checked to be strings\<close>

fun validate_rules :: "config_env \<Rightarrow> (yaml \<times> yaml) list \<Rightarrow> (py_error, rule_table) result" where
  "validate_rules env [] = Inr []"
| "validate_rules env ((name, rule) # rest) =
     (case RouteRule_model_validate env rule of
        Inl e \<Rightarrow> Inl e
      | Inr r \<Rightarrow> (case validate_rules env rest of Inl e \<Rightarrow> Inl e | Inr d \<Rightarrow> Inr ((name, r) # d)))"

definition parse_rules :: "config_env \<Rightarrow> yaml \<Rightarrow> (py_error, rule_table) result" where
  "parse_rules env raw = (case raw of YMap d \<Rightarrow> validate_rules env d | _ \<Rightarrow> Inl ValueError)"

fun add_upstreams ::
  "config_env \<Rightarrow> (yaml \<times> yaml) list \<Rightarrow> (string, string) dict \<Rightarrow> (py_error, (string, string) dict) result" where
  "add_upstreams env [] d = Inr d"
| "add_upstreams env ((name, base) # rest) d =
     (case (name, base) of
        (YStr n, YStr b) \<Rightarrow>
          (case validate_upstream_url (ce_bracket_ok env) b of
             Inl e \<Rightarrow> Inl e
           | Inr u \<Rightarrow> add_upstreams env rest (AList.update n u d))
      | _ \<Rightarrow> Inl ValueError)"

section \<open>Loading\<close>

record config_state =
  cs_rules :: rule_table
  cs_settings :: settings
  cs_loaded_path :: "string option"

definition builtin_table :: rule_table where
  "builtin_table = map (\<lambda>(k, v). (YStr k, v)) BUILTIN_RULES"

definition parse_document ::
  "config_env \<Rightarrow> (string, string) dict \<Rightarrow> yaml \<Rightarrow> (py_error, rule_table \<times> (string, string) dict) result" where
  "parse_document env env_upstreams document =
     (case document of
        YMap d \<Rightarrow>
          if \<not> list_all (\<lambda>k. k \<in> {YStr ''upstreams'', YStr ''rules''}) (map fst d) then Inl ValueError
          else (case (case yaml_get d ''upstreams'' of None \<Rightarrow> YMap [] | Some y \<Rightarrow> y) of
                  YMap raw \<Rightarrow>
                    (case add_upstreams env raw env_upstreams of
                       Inl e \<Rightarrow> Inl e
                     | Inr upstreams \<Rightarrow>
                         (case parse_rules env (case yaml_get d ''rules'' of None \<Rightarrow> YMap [] | Some y \<Rightarrow> y) of
                            Inl e \<Rightarrow> Inl e
                          | Inr parsed \<Rightarrow> Inr (fold (\<lambda>(k, v). AList.update k v) parsed builtin_table, upstreams)))
                | _ \<Rightarrow> Inl ValueError)
      | _ \<Rightarrow> Inl ValueError)"

definition read_document :: "config_env \<Rightarrow> string \<Rightarrow> (py_error, yaml) result" where
  "read_document env path =
     (case ce_read_text env path of
        Inl e \<Rightarrow> Inl e
      | Inr s \<Rightarrow> (case ce_safe_load env s of None \<Rightarrow> Inl ValueError | Some y \<Rightarrow> Inr y))"

text \<open>
  The path is kept as the text of the settings; \<^verbatim>\<open>Path\<close> would drop doubled slashes and single dots from it,
  which name the same file.
\<close>

definition config_path :: "config_env \<Rightarrow> settings \<Rightarrow> string option" where
  "config_path env s =
     (case gateway_config_file s of
        Some p \<Rightarrow> if p = [] then find_file (ce_is_file env) (ce_parents env) ''gateway.yaml'' else Some p
      | None \<Rightarrow> find_file (ce_is_file env) (ce_parents env) ''gateway.yaml'')"

definition load_policy ::
  "config_env \<Rightarrow> (string, string) dict \<Rightarrow> string option \<Rightarrow> (py_error, rule_table \<times> (string, string) dict) result" where
  "load_policy env env_upstreams path =
     (case path of
        None \<Rightarrow> Inr (builtin_table, env_upstreams)
      | Some p \<Rightarrow>
          (case (case read_document env p of Inl e \<Rightarrow> Inl e | Inr y \<Rightarrow> parse_document env env_upstreams y) of
             Inl e \<Rightarrow> Inl (if e = ValueError \<or> e = TypeError then ValueError else e)
           | Inr x \<Rightarrow> Inr x))"

definition load_route_rules ::
  "config_env \<Rightarrow> (string, string) dict \<Rightarrow> config_state \<Rightarrow> (py_error, string option) result \<times> config_state" where
  \<comment> \<open>the upstreams of the environment\<close>
  "load_route_rules env env_upstreams st =
     (let path = config_path env (cs_settings st)
      in case load_policy env env_upstreams path of
           Inl e \<Rightarrow> (Inl e, st)
         | Inr (rules, upstreams) \<Rightarrow>
             (Inr path, \<lparr>cs_rules = rules, cs_settings = (cs_settings st)\<lparr>upstream_services := upstreams\<rparr>,
                         cs_loaded_path = path\<rparr>))"

definition reload_route_rules ::
  "config_env \<Rightarrow> (string, string) dict \<Rightarrow> config_state \<Rightarrow> (py_error, string option \<times> rule_table) result \<times> config_state" where
  "reload_route_rules env env_upstreams st =
     (case load_route_rules env env_upstreams st of
        (Inl e, st') \<Rightarrow> (Inl e, st')
      | (Inr path, st') \<Rightarrow> (Inr (path, cs_rules st'), st'))"

definition get_loaded_yaml_path :: "config_state \<Rightarrow> string" where
  "get_loaded_yaml_path st =
     (case cs_loaded_path st of Some p \<Rightarrow> p | None \<Rightarrow> ''(built-in defaults)'')"

definition string_rules :: "rule_table \<Rightarrow> route_rules" where
  \<comment> \<open>the part of the table a service name can find\<close>
  "string_rules t = List.map_filter (\<lambda>(k, v). case k of YStr s \<Rightarrow> Some (s, v) | _ \<Rightarrow> None) t"

definition import_config ::
  "(string \<Rightarrow> bool) \<Rightarrow> config_env \<Rightarrow> settings \<Rightarrow> (py_error, config_state) result" where
  \<comment> \<open>importing the module: validated settings, then the first load\<close>
  "import_config network_ok env s =
     (case Settings network_ok (ce_bracket_ok env) s of
        Inl e \<Rightarrow> Inl e
      | Inr s' \<Rightarrow>
          (case load_route_rules env (upstream_services s')
                  \<lparr>cs_rules = builtin_table, cs_settings = s', cs_loaded_path = None\<rparr> of
             (Inl e, _) \<Rightarrow> Inl e
           | (Inr _, st) \<Rightarrow> Inr st))"

section \<open>The policy in force\<close>

definition rule_ok :: "route_rule \<Rightarrow> bool" where
  "rule_ok r = (0 < rr_cache_ttl r \<and> timeout_bound (rr_upstream_timeout r))"

definition policy_ok :: "(string \<Rightarrow> bool) \<Rightarrow> config_state \<Rightarrow> bool" where
  "policy_ok bracket_ok st =
     (dict_wf (cs_rules st) \<and> list_all (\<lambda>(k, r). rule_ok r) (cs_rules st) \<and>
      YStr ''_default'' \<in> fst ` set (cs_rules st) \<and>
      list_all (\<lambda>(n, base). is_ok (validate_upstream_url bracket_ok base)) (upstream_services (cs_settings st)))"

definition reload_all :: "config_env list \<Rightarrow> (string, string) dict \<Rightarrow> config_state \<Rightarrow> config_state" where
  \<comment> \<open>a history of reloads, each with the files of its moment\<close>
  "reload_all envs ups st = fold (\<lambda>env st. snd (reload_route_rules env ups st)) envs st"

lemma list_all_update: "list_all (\<lambda>(k, v). P v) d \<Longrightarrow> P v \<Longrightarrow> list_all (\<lambda>(k, v). P v) (AList.update k v d)"
  by (induction d) auto

lemma list_all_updates:
  "list_all (\<lambda>(k, v). P v) kvs \<Longrightarrow> list_all (\<lambda>(k, v). P v) d \<Longrightarrow>
   list_all (\<lambda>(k, v). P v) (fold (\<lambda>(k, v). AList.update k v) kvs d)"
  by (induction kvs arbitrary: d) (auto simp: list_all_update)

lemma dict_wf_updates: "dict_wf d \<Longrightarrow> dict_wf (fold (\<lambda>(k, v). AList.update k v) kvs d)"
  by (induction kvs arbitrary: d) auto

lemma keys_updates: "k \<in> fst ` set d \<Longrightarrow> k \<in> fst ` set (fold (\<lambda>(k, v). AList.update k v) kvs d)"
proof (induction kvs arbitrary: d)
  case (Cons kv kvs)
  have "k \<in> fst ` set (AList.update (fst kv) (snd kv) d)" using Cons.prems by (simp add: fst_set_update)
  with Cons.IH show ?case by (simp add: case_prod_beta)
qed simp

lemma validate_upstream_url_same: "validate_upstream_url b u = Inr v \<Longrightarrow> v = u"
  by (auto simp: validate_upstream_url_def split: sum.splits if_splits)

lemma field_bound: "field P conv d v = Some x \<Longrightarrow> P d \<Longrightarrow> P x"
  by (auto simp: field_def split: option.splits if_splits)

lemma model_validate_ok: "RouteRule_model_validate env y = Inr r \<Longrightarrow> rule_ok r"
  by (auto simp: RouteRule_model_validate_def rule_ok_def timeout_bound_def split: yaml.splits if_splits option.splits
      dest!: field_bound [of "\<lambda>n. 0 < n"] field_bound [of timeout_bound])

lemma validate_rules_ok: "validate_rules env d = Inr t \<Longrightarrow> list_all (\<lambda>(k, r). rule_ok r) t"
proof (induction d arbitrary: t)
  case (Cons nr d)
  then obtain r t' where "RouteRule_model_validate env (snd nr) = Inr r" "validate_rules env d = Inr t'" "t = (fst nr, r) # t'"
    by (cases nr) (auto split: sum.splits)
  with Cons.IH model_validate_ok show ?case by simp
qed simp

lemma add_upstreams_ok:
  assumes "add_upstreams env raw d = Inr d'"
    "list_all (\<lambda>(n, base). is_ok (validate_upstream_url (ce_bracket_ok env) base)) d"
  shows "list_all (\<lambda>(n, base). is_ok (validate_upstream_url (ce_bracket_ok env) base)) d'"
  using assms
proof (induction raw arbitrary: d)
  case (Cons nb rest)
  then obtain n b where nb: "nb = (YStr n, YStr b)" "validate_upstream_url (ce_bracket_ok env) b = Inr b"
    "add_upstreams env rest (AList.update n b d) = Inr d'"
    by (cases nb) (auto split: yaml.splits sum.splits dest: validate_upstream_url_same)
  from nb(2) Cons.prems(2) have
    "list_all (\<lambda>(n, base). is_ok (validate_upstream_url (ce_bracket_ok env) base)) (AList.update n b d)"
    by (intro list_all_update) auto
  with Cons.IH nb(3) show ?case by blast
qed simp

lemma builtin_table_ok:
  "dict_wf builtin_table" "list_all (\<lambda>(k, r). rule_ok r) builtin_table" "YStr ''_default'' \<in> fst ` set builtin_table"
  by (simp_all add: builtin_table_def BUILTIN_RULES_def rule_ok_def timeout_bound_def RouteRule_default_def)

lemma parse_document_ok:
  assumes "parse_document env ups y = Inr (rules, upstreams)"
    "list_all (\<lambda>(n, base). is_ok (validate_upstream_url (ce_bracket_ok env) base)) ups"
  shows "dict_wf rules" "list_all (\<lambda>(k, r). rule_ok r) rules" "YStr ''_default'' \<in> fst ` set rules"
    "list_all (\<lambda>(n, base). is_ok (validate_upstream_url (ce_bracket_ok env) base)) upstreams"
proof -
  from assms(1) obtain raw d parsed where p: "add_upstreams env raw ups = Inr upstreams"
    "validate_rules env d = Inr parsed" "rules = fold (\<lambda>(k, v). AList.update k v) parsed builtin_table"
    by (auto simp: parse_document_def parse_rules_def split: yaml.splits if_splits sum.splits option.splits)
  show "dict_wf rules" "list_all (\<lambda>(k, r). rule_ok r) rules" "YStr ''_default'' \<in> fst ` set rules"
    unfolding p(3) using builtin_table_ok validate_rules_ok [OF p(2)]
    by (simp_all add: dict_wf_updates list_all_updates keys_updates)
  show "list_all (\<lambda>(n, base). is_ok (validate_upstream_url (ce_bracket_ok env) base)) upstreams"
    by (rule add_upstreams_ok [OF p(1) assms(2)])
qed

lemma load_policy_ok:
  assumes "load_policy env ups path = Inr (rules, upstreams)"
    "list_all (\<lambda>(n, base). is_ok (validate_upstream_url (ce_bracket_ok env) base)) ups"
  shows "policy_ok (ce_bracket_ok env) \<lparr>cs_rules = rules, cs_settings = s\<lparr>upstream_services := upstreams\<rparr>, cs_loaded_path = p\<rparr>"
proof -
  consider (none) "path = None" | (named) p where "path = Some p" by (cases path) auto
  then consider (none) "rules = builtin_table" "upstreams = ups"
    | (doc) y where "parse_document env ups y = Inr (rules, upstreams)"
  proof cases
    case none
    with assms(1) have "rules = builtin_table" "upstreams = ups" by (simp_all add: load_policy_def)
    with that(1) show thesis .
  next
    case (named p)
    then obtain y where "read_document env p = Inr y" using assms(1) by (cases "read_document env p") (simp_all add: load_policy_def)
    with assms(1) named have "parse_document env ups y = Inr (rules, upstreams)"
      by (cases "parse_document env ups y") (simp_all add: load_policy_def)
    with that(2) show thesis .
  qed
  then show ?thesis
  proof cases
    case none
    then show ?thesis using builtin_table_ok assms(2) by (simp add: policy_ok_def)
  next
    case doc
    then show ?thesis using parse_document_ok [OF doc assms(2)] by (simp add: policy_ok_def)
  qed
qed

lemma reload_run:
  "reload_route_rules env ups st =
     (case load_policy env ups (config_path env (cs_settings st)) of
        Inl e \<Rightarrow> (Inl e, st)
      | Inr (rules, upstreams) \<Rightarrow>
          (Inr (config_path env (cs_settings st), rules),
           \<lparr>cs_rules = rules, cs_settings = (cs_settings st)\<lparr>upstream_services := upstreams\<rparr>,
            cs_loaded_path = config_path env (cs_settings st)\<rparr>))"
  by (simp add: reload_route_rules_def load_route_rules_def Let_def split: sum.split prod.split)

lemma config_path_upstreams [simp]: "config_path env (s\<lparr>upstream_services := u\<rparr>) = config_path env s"
  by (simp add: config_path_def)

lemma reload_settings:
  "\<exists>u. cs_settings (snd (reload_route_rules env ups st)) = (cs_settings st)\<lparr>upstream_services := u\<rparr>"
proof (cases "load_policy env ups (config_path env (cs_settings st))")
  case (Inl e)
  then have "snd (reload_route_rules env ups st) = st" by (simp add: reload_run)
  then show ?thesis by (intro exI [of _ "upstream_services (cs_settings st)"]) simp
next
  case (Inr x)
  then show ?thesis by (cases x) (auto simp: reload_run)
qed

lemma reload_all_settings:
  "\<exists>u. cs_settings (reload_all envs ups st) = (cs_settings st)\<lparr>upstream_services := u\<rparr>"
proof (induction envs arbitrary: st)
  case Nil
  show ?case by (intro exI [of _ "upstream_services (cs_settings st)"]) (simp add: reload_all_def)
next
  case (Cons env envs)
  let ?st = "snd (reload_route_rules env ups st)"
  obtain u where u: "cs_settings ?st = (cs_settings st)\<lparr>upstream_services := u\<rparr>" using reload_settings by blast
  obtain v where "cs_settings (reload_all envs ups ?st) = (cs_settings ?st)\<lparr>upstream_services := v\<rparr>"
    using Cons.IH by blast
  then show ?case unfolding u by (auto simp: reload_all_def)
qed

lemma Settings_same: "Settings network_ok bracket_ok s = Inr s' \<Longrightarrow> s' = s"
  by (simp add: Settings_def validate_boundaries_def split: if_splits)

lemma import_config_eq:
  "import_config network_ok env s =
     (case Settings network_ok (ce_bracket_ok env) s of
        Inl e \<Rightarrow> Inl e
      | Inr _ \<Rightarrow>
          (case load_policy env (upstream_services s) (config_path env s) of
             Inl e \<Rightarrow> Inl e
           | Inr (rules, upstreams) \<Rightarrow>
               Inr \<lparr>cs_rules = rules, cs_settings = s\<lparr>upstream_services := upstreams\<rparr>, cs_loaded_path = config_path env s\<rparr>))"
proof (cases "Settings network_ok (ce_bracket_ok env) s")
  case (Inr s')
  with Settings_same have "s' = s" by simp
  with Inr show ?thesis
    by (simp add: import_config_def load_route_rules_def Let_def split: sum.split prod.split)
qed (simp add: import_config_def)

lemma import_config_run:
  assumes "import_config network_ok env s = Inr st"
  shows "Settings network_ok (ce_bracket_ok env) s = Inr s"
    and "\<exists>u. cs_settings st = s\<lparr>upstream_services := u\<rparr>"
proof -
  from assms obtain s' where "Settings network_ok (ce_bracket_ok env) s = Inr s'"
    by (auto simp: import_config_eq split: sum.splits)
  then show "Settings network_ok (ce_bracket_ok env) s = Inr s" using Settings_same by blast
  show "\<exists>u. cs_settings st = s\<lparr>upstream_services := u\<rparr>"
    using assms by (auto simp: import_config_eq split: sum.splits prod.splits)
qed

lemma Settings_upstreams:
  assumes "Settings network_ok bracket_ok s = Inr s'"
  shows "list_all (\<lambda>(n, base). is_ok (validate_upstream_url bracket_ok base)) (upstream_services s)"
proof -
  have "list_all (\<lambda>base. is_ok (validate_upstream_url bracket_ok base)) (map snd (upstream_services s))"
    using assms by (simp add: Settings_def validate_boundaries_def split: if_splits)
  then show ?thesis by (simp add: list_all_iff case_prod_beta)
qed

lemma reload_policy_ok:
  assumes "policy_ok b st" "ce_bracket_ok env = b"
    "list_all (\<lambda>(n, base). is_ok (validate_upstream_url b base)) ups"
  shows "policy_ok b (snd (reload_route_rules env ups st))"
proof (cases "load_policy env ups (config_path env (cs_settings st))")
  case (Inl e)
  then show ?thesis using assms(1) by (simp add: reload_run)
next
  case (Inr x)
  then obtain rules upstreams where x: "load_policy env ups (config_path env (cs_settings st)) = Inr (rules, upstreams)"
    by (cases x) auto
  show ?thesis using load_policy_ok [OF x] assms(2,3) by (simp add: reload_run x)
qed

lemma reload_all_policy_ok:
  assumes "policy_ok b st" "list_all (\<lambda>env. ce_bracket_ok env = b) envs"
    "list_all (\<lambda>(n, base). is_ok (validate_upstream_url b base)) ups"
  shows "policy_ok b (reload_all envs ups st)"
  using assms by (induction envs arbitrary: st) (simp_all add: reload_all_def reload_policy_ok)

lemma map_of_string_rules: "map_of (string_rules t) name = map_of t (YStr name)"
  by (induction t) (auto simp: string_rules_def map_filter_simps split: yaml.splits)

lemma string_rules_found:
  assumes "policy_ok b st"
  shows "rule_ok (get_route_rule (string_rules (cs_rules st)) service)"
    and "map_of (string_rules (cs_rules st)) ''_default'' \<noteq> None"
proof -
  have ok: "rule_ok r" if "map_of (cs_rules st) k = Some r" for k r
    using assms map_of_SomeD [OF that] by (auto simp: policy_ok_def list_all_iff)
  show d: "map_of (string_rules (cs_rules st)) ''_default'' \<noteq> None"
    using assms unfolding map_of_string_rules policy_ok_def by (simp add: map_of_eq_None_iff)
  show "rule_ok (get_route_rule (string_rules (cs_rules st)) service)"
    using d ok by (auto simp: get_route_rule_def dict_get_def map_of_string_rules split: option.splits)
qed

section \<open>Properties\<close>

lemma import_policy_ok:
  assumes start: "import_config network_ok env s = Inr st0"
  shows "policy_ok (ce_bracket_ok env) st0"
proof -
  note valid = import_config_run(1) [OF start]
  obtain rules upstreams where l: "load_policy env (upstream_services s) (config_path env s) = Inr (rules, upstreams)"
    "st0 = \<lparr>cs_rules = rules, cs_settings = s\<lparr>upstream_services := upstreams\<rparr>, cs_loaded_path = config_path env s\<rparr>"
    using start valid by (auto simp: import_config_eq split: sum.splits prod.splits)
  show ?thesis unfolding l(2) by (rule load_policy_ok [OF l(1) Settings_upstreams [OF valid]])
qed

text \<open>
  The policy in force is always valid: from an import that succeeded, through any history of
  reloads with any files, every service name finds a rule (its own or the default), every rule has a
  positive time to live and no timeout that is not positive and finite, and every upstream is an
  accepted base URL.
\<close>

theorem policy_always_valid:
  assumes start: "import_config network_ok env s = Inr st0"
    and envs: "\<forall>e \<in> set envs. ce_bracket_ok e = ce_bracket_ok env"
  defines "st \<equiv> reload_all envs (upstream_services s) st0"
  shows "rule_ok (get_route_rule (string_rules (cs_rules st)) service) \<and>
    map_of (string_rules (cs_rules st)) ''_default'' \<noteq> None \<and>
    (\<forall>name base. map_of (upstream_services (cs_settings st)) name = Some base \<longrightarrow>
       validate_upstream_url (ce_bracket_ok env) base = Inr base)"
proof -
  note ups = Settings_upstreams [OF import_config_run(1) [OF start]]
  have ok: "policy_ok (ce_bracket_ok env) st"
    unfolding st_def using import_policy_ok [OF start] envs ups by (intro reload_all_policy_ok) (simp_all add: list_all_iff)
  have "validate_upstream_url (ce_bracket_ok env) base = Inr base"
    if "map_of (upstream_services (cs_settings st)) name = Some base" for name base
  proof -
    have "is_ok (validate_upstream_url (ce_bracket_ok env) base)"
      using ok map_of_SomeD [OF that] by (auto simp: policy_ok_def list_all_iff)
    then show ?thesis using validate_upstream_url_same by (auto simp: is_ok_iff)
  qed
  then show ?thesis using string_rules_found [OF ok] by blast
qed

text \<open>
  C12.  A reload is as good as a restart: whatever was loaded before, reloading either fails with the
  very error a fresh start with these files would have, and changes nothing, or gives the very
  state of that fresh start.  No rule or upstream of an earlier file survives a successful reload.
\<close>

theorem reload_equals_restart:
  assumes start: "import_config network_ok env0 s = Inr st0"
    and host: "ce_bracket_ok env = ce_bracket_ok env0"
  shows "reload_route_rules env (upstream_services s) (reload_all envs (upstream_services s) st0) =
    (case import_config network_ok env s of
       Inl e \<Rightarrow> (Inl e, reload_all envs (upstream_services s) st0)
     | Inr fresh \<Rightarrow> (Inr (cs_loaded_path fresh, cs_rules fresh), fresh))"
proof -
  let ?st = "reload_all envs (upstream_services s) st0"
  obtain u where "cs_settings st0 = s\<lparr>upstream_services := u\<rparr>" using import_config_run(2) [OF start] by blast
  moreover obtain v where "cs_settings ?st = (cs_settings st0)\<lparr>upstream_services := v\<rparr>"
    using reload_all_settings by blast
  ultimately have st: "cs_settings ?st = s\<lparr>upstream_services := v\<rparr>" by simp
  have "Settings network_ok (ce_bracket_ok env) s = Inr s" using import_config_run(1) [OF start] host by simp
  then show ?thesis
    unfolding reload_run st import_config_eq config_path_upstreams by (simp split: sum.split prod.split)
qed

section \<open>Witnesses\<close>

definition demo_document :: yaml where
  "demo_document = YMap [(YStr ''upstreams'', YMap [(YStr ''s'', YStr ''http://u'')]),
     (YStr ''rules'', YMap [(YStr ''s'', YMap [(YStr ''cache_ttl'', YInt 5)])])]"

definition demo_config_env :: "yaml option \<Rightarrow> config_env" where
  \<comment> \<open>one file \<^verbatim>\<open>./gateway.yaml\<close> with the given document\<close>
  "demo_config_env doc = \<lparr>ce_is_file = (\<lambda>p. p = ''./gateway.yaml''), ce_parents = [''.''],
     ce_read_text = (\<lambda>p. Inr ''text''), ce_safe_load = (\<lambda>_. doc),
     ce_to_bool = (\<lambda>y. case y of YBool b \<Rightarrow> Some b | _ \<Rightarrow> None), ce_to_int = (\<lambda>y. case y of YInt n \<Rightarrow> Some n | _ \<Rightarrow> None),
     ce_to_float = (\<lambda>y. case y of YFloat x \<Rightarrow> Some x | YInt n \<Rightarrow> Some (Fin (of_int n)) | _ \<Rightarrow> None),
     ce_to_strings = (\<lambda>_. None), ce_bracket_ok = (\<lambda>_. False)\<rparr>"

lemma demo_bracket: "ce_bracket_ok (demo_config_env d) = (\<lambda>_. False)"
  by (simp add: demo_config_env_def)

lemma demo_read:
  "ce_read_text (demo_config_env d) p = Inr ''text''" "ce_safe_load (demo_config_env d) x = d"
  by (simp_all add: demo_config_env_def)

lemma demo_url: "validate_upstream_url (\<lambda>_. False) ''http://u'' = Inr ''http://u''" by code_simp


lemma default_alpha: "f_isfinite (b64 (3 / 10))" "f_lt (Fin 0) (b64 (3 / 10))" "f_le (b64 (3 / 10)) (Fin 1)"
proof -
  have "ilog2 (3 / 10) \<ge> - 2"
  proof (rule ccontr)
    assume "\<not> ilog2 (3 / 10) \<ge> - 2"
    then have "2 powi (ilog2 (3 / 10) + 1) \<le> (2 powi (- 2) :: rat)" by (intro power_int_increasing) auto
    moreover have "3 / 10 < (2 powi (ilog2 (3 / 10) + 1) :: rat)" by (rule ilog2_bounds(2)) simp
    moreover have "(2 powi (- 2) :: rat) = 1 / 4" by (simp add: power_int_minus)
    ultimately show False by linarith
  qed
  then have "2 powi (b64_ulp_exp (3 / 10) + 52) \<le> b64_abs (3 / 10)" by (intro b64_abs_bounds(2)) auto
  then have pos: "0 < b64_abs (3 / 10)" by (rule less_le_trans [rotated]) simp
  have one: "f_le (b64 (3 / 10)) (Fin 1)" using b64_mono [of "3 / 10" 1] by simp
  then show "f_le (b64 (3 / 10)) (Fin 1)" .
  then have v: "b64 (3 / 10) = Fin (b64_abs (3 / 10))" by (auto simp: b64_def Let_def split: if_splits)
  show "f_isfinite (b64 (3 / 10))" "f_lt (Fin 0) (b64 (3 / 10))" using pos by (simp_all add: v)
qed

lemma default_floats: "f_valid (Fin 150)" "f_valid (Fin 500)" "f_valid (Fin 30)" "f_valid (Fin 10)" "f_valid (Fin 1)"
  using f_valid_of_int [of 150] f_valid_of_int [of 500] f_valid_of_int [of 30] f_valid_of_int [of 10] f_valid_of_int [of 1]
  by simp_all

lemma default_settings_valid: "Settings (\<lambda>_. True) (\<lambda>_. False) default_settings = Inr default_settings"
  by (simp add: Settings_def settings_fields_ok_def settings_floats_def validate_boundaries_def f_valid_b64 default_floats default_alpha
    positive_settings_def default_settings_def is_production_def py_lower_def)


lemma default_settings_files: "gateway_config_file default_settings = None" "upstream_services default_settings = []"
  by (simp_all add: default_settings_def)

lemma demo_policy:
  "load_policy (demo_config_env (Some demo_document)) [] (Some p) =
     Inr (builtin_table @ [(YStr ''s'', RouteRule_default\<lparr>rr_cache_ttl := 5\<rparr>)], [(''s'', ''http://u'')])"
  by (simp add: load_policy_def demo_config_env_def
   read_document_def parse_document_def parse_rules_def demo_document_def yaml_get_def
   demo_url RouteRule_model_validate_def rule_fields_def field_def builtin_table_def BUILTIN_RULES_def RouteRule_default_def)

lemma demo_import:
  "import_config (\<lambda>_. True) (demo_config_env (Some demo_document)) default_settings =
     Inr \<lparr>cs_rules = builtin_table @ [(YStr ''s'', RouteRule_default\<lparr>rr_cache_ttl := 5\<rparr>)],
          cs_settings = default_settings\<lparr>upstream_services := [(''s'', ''http://u'')]\<rparr>, cs_loaded_path = Some ''./gateway.yaml''\<rparr>"
proof -
  have "ce_bracket_ok (demo_config_env d) = (\<lambda>_. False)" 
    "config_path (demo_config_env d) default_settings = Some ''./gateway.yaml''" for d
    by (simp_all add: demo_config_env_def config_path_def default_settings_files find_file_def)
  then show ?thesis by (simp add: import_config_eq default_settings_valid default_settings_files demo_policy)
qed

theorem policy_always_valid_witness:
  "\<exists>st0. import_config (\<lambda>_. True) (demo_config_env (Some demo_document)) default_settings = Inr st0 \<and>
     rule_ok (get_route_rule (string_rules (cs_rules (reload_all [demo_config_env None, demo_config_env (Some (YMap []))] [] st0))) ''s'')"
proof -
  have "\<forall>e \<in> set [demo_config_env None, demo_config_env (Some (YMap []))].
      ce_bracket_ok e = ce_bracket_ok (demo_config_env (Some demo_document))"
    by (simp add: demo_config_env_def)
  from policy_always_valid [OF demo_import this, of "''s''"] demo_import show ?thesis
    by (simp add: default_settings_files)
qed

theorem reload_equals_restart_witness:
  "\<exists>st0. import_config (\<lambda>_. True) (demo_config_env (Some demo_document)) default_settings = Inr st0 \<and>
     reload_route_rules (demo_config_env None) [] st0 = (Inl ValueError, st0) \<and>
     fst (reload_route_rules (demo_config_env (Some (YMap []))) [] st0) = Inr (Some ''./gateway.yaml'', builtin_table)"
proof -
  have b: "ce_bracket_ok (demo_config_env d) = ce_bracket_ok (demo_config_env (Some demo_document))" for d
    by (simp add: demo_config_env_def)
  have p: "config_path (demo_config_env d) default_settings = Some ''./gateway.yaml''" for d
    by (simp add: demo_config_env_def config_path_def default_settings_files find_file_def)
  have bad: "import_config (\<lambda>_. True) (demo_config_env None) default_settings = Inl ValueError"
    by (simp add: import_config_eq p default_settings_valid [folded demo_bracket [of None]] load_policy_def read_document_def demo_read)
  have ok: "import_config (\<lambda>_. True) (demo_config_env (Some (YMap []))) default_settings =
      Inr \<lparr>cs_rules = builtin_table, cs_settings = default_settings\<lparr>upstream_services := []\<rparr>, cs_loaded_path = Some ''./gateway.yaml''\<rparr>"
    by (simp add: import_config_eq p default_settings_valid [folded demo_bracket [of "Some (YMap [])"]] load_policy_def read_document_def
        demo_read parse_document_def parse_rules_def yaml_get_def default_settings_files)
  from reload_equals_restart [OF demo_import b [of None], of "[]"]
    reload_equals_restart [OF demo_import b [of "Some (YMap [])"], of "[]"] demo_import
  show ?thesis by (simp add: bad ok default_settings_files reload_all_def)
qed

end
