(* ===== verification/Metrics.thy ===== *)
theory Metrics
  imports Http
begin

text \<open>
  \<^verbatim>\<open>gateway/utils/metrics.py\<close>: the collectors and the helpers that keep their labels.  A labelled
  counter is a dictionary from label values to counts, a histogram the list of what it observed.
  The lemma of this theory computes the hit-rate gauge from the history of cache events.
\<close>

record metrics =
  mt_requests :: "(string \<times> string \<times> string \<times> string, int) dict" \<comment> \<open>method, route, quality, cache hit\<close>
  mt_quality :: "(string, int) dict"
  mt_response_size :: "((string \<times> string) \<times> int) list" \<comment> \<open>quality and stage\<close>
  mt_upstream_latency :: "(string \<times> pyfloat) list"
  mt_queue_depth :: int
  mt_hit_rate :: pyfloat
  mt_cache_events :: "(string, int) dict"
  mt_log_dropped :: int
  mt_cache_hits :: int
  mt_cache_total :: int

definition metrics_init :: metrics where
  "metrics_init = \<lparr>mt_requests = [], mt_quality = [], mt_response_size = [], mt_upstream_latency = [], mt_queue_depth = 0,
     mt_hit_rate = Fin 0, mt_cache_events = [], mt_log_dropped = 0, mt_cache_hits = 0, mt_cache_total = 0\<rparr>"

definition counter_inc :: "'k \<Rightarrow> ('k, int) dict \<Rightarrow> ('k, int) dict" where
  "counter_inc labels d = AList.update labels (dict_get d labels 0 + 1) d"

definition record_cache_event :: "string \<Rightarrow> metrics \<Rightarrow> metrics" where
  "record_cache_event outcome m0 =
     (let m1 = m0\<lparr>mt_cache_events := counter_inc outcome (mt_cache_events m0), mt_cache_total := mt_cache_total m0 + 1\<rparr>;
          m2 = (if outcome \<in> {''hit'', ''stale''} then m1\<lparr>mt_cache_hits := mt_cache_hits m1 + 1\<rparr> else m1)
      in if mt_cache_total m2 \<noteq> 0
         then m2\<lparr>mt_hit_rate := b64 (of_int (mt_cache_hits m2) / of_int (mt_cache_total m2))\<rparr> else m2)"

definition record_response_size :: "string \<Rightarrow> string \<Rightarrow> int \<Rightarrow> metrics \<Rightarrow> metrics" where
  "record_response_size quality stage n m =
     m\<lparr>mt_response_size := mt_response_size m @ [((quality, stage), n)]\<rparr>"

definition record_request :: "string \<Rightarrow> string \<Rightarrow> string \<Rightarrow> bool \<Rightarrow> metrics \<Rightarrow> metrics" where
  "record_request verb route quality cache_hit m =
     m\<lparr>mt_requests := counter_inc (verb, route, quality, if cache_hit then ''true'' else ''false'') (mt_requests m)\<rparr>"

fun observe :: "effect \<Rightarrow> metrics \<Rightarrow> metrics" where
  \<comment> \<open>what the handlers report; rows for the log go to the writer\<close>
  "observe (CountQuality q) m = m\<lparr>mt_quality := counter_inc q (mt_quality m)\<rparr>"
| "observe (RecordRequest verb route q hit) m = record_request verb route q hit m"
| "observe (RecordSize q stage n) m = record_response_size q stage n m"
| "observe (CacheEvent outcome) m = record_cache_event outcome m"
| "observe (ObserveUpstream service t) m = m\<lparr>mt_upstream_latency := mt_upstream_latency m @ [(service, t)]\<rparr>"
| "observe (EnqueueLog _) m = m"

section \<open>The hit rate\<close>

definition served :: "string list \<Rightarrow> int" where
  "served outcomes = int (length (filter (\<lambda>x. x \<in> {''hit'', ''stale''}) outcomes))"

definition cache_outcomes :: "effect list \<Rightarrow> string list" where
  "cache_outcomes effs = List.map_filter (\<lambda>e. case e of CacheEvent x \<Rightarrow> Some x | _ \<Rightarrow> None) effs"

lemma counter_inc_get [simp]: "dict_get (counter_inc k d) j 0 = dict_get d j 0 + (if j = k then 1 else 0)"
  by (simp add: counter_inc_def dict_get_def)

lemma observe_tallies:
  "mt_cache_hits (observe e m) = mt_cache_hits m + served (cache_outcomes [e])"
  "mt_cache_total (observe e m) = mt_cache_total m + int (length (cache_outcomes [e]))"
  "dict_get (mt_cache_events (observe e m)) x 0 = dict_get (mt_cache_events m) x 0 + int (count_list (cache_outcomes [e]) x)"
  "cache_outcomes [e] = [] \<Longrightarrow> mt_hit_rate (observe e m) = mt_hit_rate m"
  by (cases e; simp add: cache_outcomes_def served_def map_filter_simps record_cache_event_def record_request_def
      record_response_size_def Let_def)+

lemma cache_outcomes_append: "cache_outcomes (xs @ ys) = cache_outcomes xs @ cache_outcomes ys"
  by (simp add: cache_outcomes_def map_filter_def)

lemma served_append: "served (xs @ ys) = served xs + served ys"
  by (simp add: served_def)

lemma served_bounds: "0 \<le> served xs" "served xs \<le> int (length xs)"
  by (simp_all add: served_def)

lemma hit_rate_step:
  assumes "0 \<le> mt_cache_total m" "cache_outcomes [e] \<noteq> []"
  shows "mt_hit_rate (observe e m) =
    b64 (of_int (mt_cache_hits (observe e m)) / of_int (mt_cache_total (observe e m)))"
proof -
  obtain x where "e = CacheEvent x" using assms(2) by (cases e) (auto simp: cache_outcomes_def map_filter_simps)
  then show ?thesis using assms(1) by (simp add: record_cache_event_def Let_def)
qed

lemma observed_history:
  assumes "m = fold observe effs metrics_init"
  shows "mt_cache_hits m = served (cache_outcomes effs) \<and> mt_cache_total m = int (length (cache_outcomes effs)) \<and>
    (\<forall>x. dict_get (mt_cache_events m) x 0 = int (count_list (cache_outcomes effs) x)) \<and>
    (cache_outcomes effs \<noteq> [] \<longrightarrow>
      mt_hit_rate m = b64 (of_int (served (cache_outcomes effs)) / of_int (int (length (cache_outcomes effs)))))"
  using assms
proof (induction effs arbitrary: m rule: rev_induct)
  case Nil
  then show ?case by (simp add: metrics_init_def cache_outcomes_def served_def map_filter_simps dict_get_def)
next
  case (snoc e effs)
  let ?m = "fold observe effs metrics_init"
  from snoc.prems have m: "m = observe e ?m" by simp
  note ih = snoc.IH [OF refl]
  show ?case
  proof (cases "cache_outcomes [e] = []")
    case True
    then show ?thesis using ih observe_tallies [of e ?m] unfolding m by (simp add: cache_outcomes_append served_def)
  next
    case False
    have "0 \<le> mt_cache_total ?m" using ih by simp
    from hit_rate_step [OF this False] show ?thesis
      using ih observe_tallies(1-3) [of e ?m] unfolding m by (simp add: cache_outcomes_append served_append)
  qed
qed

text \<open>
  The cache metrics tell the truth: after any history of reports the hit-rate gauge is the share
  of lookups that were served from the cache, fresh or stale, rounded once to a double, it lies
  between 0 and 1, and each counter has the number of its events.
\<close>

theorem hit_rate_exact:
  assumes m: "m = fold observe effs metrics_init" and events: "cache_outcomes effs \<noteq> []"
  shows "mt_hit_rate m = b64 (of_int (served (cache_outcomes effs)) / of_int (int (length (cache_outcomes effs)))) \<and>
    f_le (Fin 0) (mt_hit_rate m) \<and> f_le (mt_hit_rate m) (Fin 1) \<and>
    (\<forall>x. dict_get (mt_cache_events m) x 0 = int (count_list (cache_outcomes effs) x))"
proof -
  let ?q = "of_int (served (cache_outcomes effs)) / of_int (int (length (cache_outcomes effs))) :: rat"
  have rate: "mt_hit_rate m = b64 ?q" using observed_history [OF m] events by blast
  have "(of_int (served (cache_outcomes effs)) :: rat) \<le> of_int (int (length (cache_outcomes effs)))"
    using served_bounds(2) by (simp only: of_int_le_iff)
  then have "?q \<le> 1" "0 \<le> ?q" using served_bounds(1) events by (simp_all add: divide_le_eq)
  then have "f_le (Fin 0) (b64 ?q)" "f_le (b64 ?q) (b64 1)" by (simp_all only: b64_nonneg b64_mono)
  moreover have "b64 1 = Fin 1" using b64_of_int [of 1] by simp
  ultimately show ?thesis using rate observed_history [OF m] by simp
qed

theorem hit_rate_exact_witness:
  "f_le (mt_hit_rate (fold observe [CacheEvent ''miss'', CountQuality ''GOOD'', CacheEvent ''stale''] metrics_init)) (Fin 1) \<and>
   dict_get (mt_cache_events (fold observe [CacheEvent ''miss'', CountQuality ''GOOD'', CacheEvent ''stale''] metrics_init)) ''stale'' 0 = 1"
proof -
  have "cache_outcomes [CacheEvent ''miss'', CountQuality ''GOOD'', CacheEvent ''stale''] = [''miss'', ''stale'']"
    by (simp add: cache_outcomes_def map_filter_simps)
  note all = hit_rate_exact [OF refl, of "[CacheEvent ''miss'', CountQuality ''GOOD'', CacheEvent ''stale'']", unfolded this]
  then show ?thesis by (intro conjI) (blast, simp del: fold_simps fold.simps observe.simps)
qed

end
