(* ===== verification/Worker_Task.thy ===== *)
theory Worker_Task
  imports Sync_Worker Metrics
begin

text \<open>
  The rest of \<^verbatim>\<open>gateway/offline_queue/sync_worker.py\<close>: the consumer group, the queue figures and the
  task that polls for ever, and the shared client of \<^verbatim>\<open>gateway/cache/redis_client.py\<close>.  An iteration
  of the task swallows every exception, so its model is a total function of the world; the waits
  between iterations are the list of its inputs.  The lemmas show that replaying a write comes to an
  end, and that the task keeps the retry budget however its iterations fail.
\<close>

section \<open>Commands\<close>

record 'r redis_admin =
  ra_xgroup_create :: "string \<Rightarrow> string \<Rightarrow> ('r, unit) command" \<comment> \<open>stream and group, from the start, making the stream\<close>
  ra_xpending :: "string \<Rightarrow> string \<Rightarrow> ('r, int option) command"
    \<comment> \<open>the number of pending entries; \<^const>\<open>None\<close>: the reply is no dictionary or has no such key\<close>
  ra_ping :: "('r, bool) command"
  ra_scan :: "int \<Rightarrow> string \<Rightarrow> ('r, string list) command" \<comment> \<open>clock and pattern: all keys of a complete iteration\<close>

definition ensure_group :: "'r redis_admin \<Rightarrow> settings \<Rightarrow> ('r, unit) command" where
  "ensure_group adm cfg r =
     (case ra_xgroup_create adm (queue_stream_key cfg) (queue_consumer_group cfg) r of
        (Inl (ResponseError msg), r') \<Rightarrow>
          if \<not> py_contains ''BUSYGROUP'' msg then (Inl (ResponseError msg), r') else (Inr (), r')
      | (res, r') \<Rightarrow> (res, r'))"

definition queue_depth :: "'r redis_queue \<Rightarrow> settings \<Rightarrow> 'r \<Rightarrow> int option \<times> 'r" where
  "queue_depth q cfg r =
     (case rq_xlen q (queue_stream_key cfg) r of (Inl _, r') \<Rightarrow> (None, r') | (Inr n, r') \<Rightarrow> (Some n, r'))"

definition queue_pending :: "'r redis_admin \<Rightarrow> settings \<Rightarrow> ('r, int option) command" where
  "queue_pending adm cfg r =
     (case ra_xpending adm (queue_stream_key cfg) (queue_consumer_group cfg) r of
        (Inr info, r') \<Rightarrow> (Inr (Some (case info of Some n \<Rightarrow> n | None \<Rightarrow> 0)), r')
      | (Inl (ResponseError msg), r') \<Rightarrow>
          if py_contains ''NOGROUP'' msg then (Inr (Some 0), r') else (Inl (ResponseError msg), r')
      | (Inl _, r') \<Rightarrow> (Inr None, r'))"

definition ping :: "'r redis_admin \<Rightarrow> 'r \<Rightarrow> bool \<times> 'r" where
  "ping adm r = (case ra_ping adm r of (Inl _, r') \<Rightarrow> (False, r') | (Inr b, r') \<Rightarrow> (b, r'))"

text \<open>The shared client: made on first use, dropped when it is closed.\<close>

definition get_redis :: "'c \<Rightarrow> 'c option \<Rightarrow> 'c \<times> 'c option" where
  \<comment> \<open>what \<^verbatim>\<open>from_url\<close> would return\<close>
  "get_redis fresh shared = (case shared of None \<Rightarrow> (fresh, Some fresh) | Some c \<Rightarrow> (c, Some c))"

definition close_redis :: "'c option \<Rightarrow> 'c list \<times> 'c option" where
  \<comment> \<open>the clients that are closed\<close>
  "close_redis shared = (case shared of None \<Rightarrow> ([], None) | Some c \<Rightarrow> ([c], None))"

section \<open>The task\<close>

record 'r sync_task =
  tk_world :: "'r world"
  tk_last_sample :: pyfloat
  tk_metrics :: metrics

record round_input =
  ri_server :: int
  ri_new :: "nat \<Rightarrow> clock"
  ri_claimed :: "nat \<Rightarrow> clock"
  ri_monotonic :: pyfloat

definition sample_depth :: "'r worker_env \<Rightarrow> pyfloat \<Rightarrow> 'r sync_task \<Rightarrow> 'r sync_task" where
  "sample_depth env now tk =
     (if f_le (Fin (of_int (queue_sample_interval_seconds (we_cfg env)))) (f_sub now (tk_last_sample tk))
      then (case queue_depth (we_q env) (we_cfg env) (w_redis (tk_world tk)) of
              (depth, r') \<Rightarrow>
                tk\<lparr>tk_world := (tk_world tk)\<lparr>w_redis := r'\<rparr>,
                   tk_metrics := (case depth of None \<Rightarrow> tk_metrics tk | Some n \<Rightarrow> (tk_metrics tk)\<lparr>mt_queue_depth := n\<rparr>),
                   tk_last_sample := now\<rparr>)
      else tk)"

definition worker_round :: "'r worker_env \<Rightarrow> 'r redis_admin \<Rightarrow> string \<Rightarrow> round_input \<Rightarrow> ('r world, unit) io" where
  "worker_round env adm consumer inp =
     io_bind (redis_io (ensure_group adm (we_cfg env))) (\<lambda>_.
       tick env consumer (ri_server inp) (ri_new inp) (ri_claimed inp))"

definition worker_iteration ::
  "'r worker_env \<Rightarrow> 'r redis_admin \<Rightarrow> string \<Rightarrow> round_input \<Rightarrow> 'r sync_task \<Rightarrow> 'r sync_task" where
  \<comment> \<open>an exception of the round is logged and dropped\<close>
  "worker_iteration env adm consumer inp tk =
     sample_depth env (ri_monotonic inp)
       (tk\<lparr>tk_world := snd (worker_round env adm consumer inp (tk_world tk))\<rparr>)"

definition run :: "'r worker_env \<Rightarrow> 'r redis_admin \<Rightarrow> string \<Rightarrow> round_input list \<Rightarrow> 'r sync_task \<Rightarrow> 'r sync_task" where
  \<comment> \<open>the iterations before the stop event\<close>
  "run env adm consumer inputs tk = fold (worker_iteration env adm consumer) inputs tk"

section \<open>Replay ends\<close>

lemma io_bind_Inr: "io_bind m k w = (Inr x, w') \<longleftrightarrow> (\<exists>y w1. m w = (Inr y, w1) \<and> k y w1 = (Inr x, w'))"
  by (auto simp: io_bind_def split: prod.splits sum.splits)

text \<open>
  A history of one message: rounds in which a worker held the lease, the message was due and nothing
  failed, among steps of anybody that leave the message alone.
\<close>

inductive completed_rounds ::
  "'r worker_env \<Rightarrow> 'r hash_view \<Rightarrow> 'r stream_view \<Rightarrow> string \<Rightarrow> nat \<Rightarrow> 'r world \<Rightarrow> 'r world \<Rightarrow> bool"
  for env hv sv m where
  no_round: "completed_rounds env hv sv m 0 w w"
| round: "completed_rounds env hv sv m n w w1 \<Longrightarrow> m \<in> stream_ids env sv w1 \<Longrightarrow>
    not_due (ck_due ck) (hv (w_redis w1) DUE_HASH m) = Inr False \<Longrightarrow>
    deliver_or_bury env ck m flds w1 = (Inr (), w2) \<Longrightarrow> completed_rounds env hv sv m (Suc n) w w2"
| elsewhere: "completed_rounds env hv sv m n w w1 \<Longrightarrow> untouched env hv sv m w1 w2 \<Longrightarrow> completed_rounds env hv sv m n w w2"

context redis_queue_laws
begin

lemma bury_removes:
  assumes "we_q env = qops" "io_bind (dead_letter env flds n err) (\<lambda>_. ack env m) w = (Inr x, w')"
  shows "m \<notin> stream_ids env sv w'"
  using assms(2) ack_removed [OF assms(1)] by (auto simp: io_bind_Inr)

lemma tail_progress:
  assumes env: "we_q env = qops" and run: "sent_tail env ck m flds hs n w = (Inr x, w')"
  shows "m \<notin> stream_ids env sv w' \<or> n < max_attempts env"
proof -
  from run [unfolded sent_tail_def io_bind_Inr] obtain success retryable error w1 where
    "(if success then ack env m
       else if n \<ge> max_attempts env \<or> \<not> retryable
       then io_bind (dead_letter env flds n error) (\<lambda>_. ack env m) else io_return ()) w1 = (Inr x, w')"
    by auto
  then show ?thesis using ack_removed [OF env] bury_removes [OF env]
    by (auto split: if_splits)
qed

lemma deliver_progress:
  assumes env: "we_q env = qops" "max_attempts env < int py_int_limit"
    and due: "not_due (ck_due ck) (hv (w_redis w) DUE_HASH m) = Inr False"
    and k: "stored_attempts hv m w = Some k" "0 \<le> k"
    and run: "deliver env ck m flds w = (Inr x, w')"
  shows "m \<notin> stream_ids env sv w' \<or> stored_attempts hv m w' = Some (k + 1) \<and> k + 1 < max_attempts env"
  using env(1) run
proof (cases rule: deliver_cases)
  case quiet
  then show ?thesis using due by simp
next
  case (bury n w1)
  then show ?thesis using bury_removes [OF env(1)] by blast
next
  case (send n w1 hs service timestamp)
  have n: "n = k" using send(1,2) k(1) quiet_stored [of hv sv w w1 m env] by simp
  from send(7) obtain y w2 where a: "redis_io (rq_hset qops ATTEMPTS_HASH m (str_of_int (n + 1))) w1 = (Inr y, w2)"
    and t: "sent_tail env ck m flds hs (n + 1) w2 = (Inr x, w')"
    by (auto simp: try_send_def env(1) io_bind_Inr)
  have "nat (n + 1) < py_int_limit" using env(2) send(3) k(2) n by linarith
  then have "str_of_int (n + 1) \<noteq> []" "py_int_of_str (str_of_int (n + 1)) = Some (n + 1)"
    using py_int_of_str_nat [of "nat (n + 1)"] str_of_nat_digits k(2) n by (simp_all add: str_of_int_def)
  then have "stored_attempts hv m w2 = Some (n + 1)"
    using hset_run(4) [OF a] by (auto simp: stored_attempts_def)
  then show ?thesis using tail_run [OF env(1) t] tail_progress [OF env(1) t] n by (auto simp: count_stands_def)
qed

lemma round_progress:
  assumes env: "we_q env = qops" "max_attempts env < int py_int_limit"
    and due: "not_due (ck_due ck) (hv (w_redis w) DUE_HASH m) = Inr False"
    and k: "stored_attempts hv m w = Some k" "0 \<le> k"
    and run: "deliver_or_bury env ck m flds w = (Inr (), w')"
  shows "m \<notin> stream_ids env sv w' \<or> stored_attempts hv m w' = Some (k + 1) \<and> k + 1 < max_attempts env"
proof -
  obtain res w1 where d: "deliver env ck m flds w = (res, w1)" by fastforce
  show ?thesis
  proof (cases res)
    case (Inl e)
    then have "bury_malformed env m flds w1 = (Inr (), w')"
      using run d by (simp add: deliver_or_bury_def split: if_splits)
    then show ?thesis using bury_removes [OF env(1)] by (auto simp: bury_malformed_def io_bind_Inr [of "get_attempts env m"])
  next
    case (Inr x)
    then show ?thesis using deliver_progress [OF env due k] run d by (simp add: deliver_or_bury_def)
  qed
qed

lemma rounds_count:
  assumes env: "we_q env = qops" "max_attempts env < int py_int_limit"
    and run: "completed_rounds env hv sv m n w w'"
    and start: "stored_attempts hv m w = Some 0" "1 \<le> max_attempts env"
  shows "int n \<le> max_attempts env \<and>
    (m \<in> stream_ids env sv w' \<longrightarrow> stored_attempts hv m w' = Some (int n) \<and> (n = 0 \<or> int n < max_attempts env))"
  using run start
proof (induction rule: completed_rounds.induct)
  case (no_round w)
  then show ?case by simp
next
  case (round n w w1 ck flds w2)
  then have "stored_attempts hv m w1 = Some (int n)" "n = 0 \<or> int n < max_attempts env" by auto
  then show ?case using round_progress [OF env round.hyps(3) _ _ round.hyps(4), of "int n"] round.prems by auto
next
  case (elsewhere n w w1 w2)
  then show ?case by (auto simp: untouched_def stored_attempts_def)
qed

end

section \<open>Properties\<close>

text \<open>
  C17.  Replaying ends: of a queued write there are at most \<open>queue_max_retries + 1\<close> rounds in which a
  worker handled it when it was due and nothing failed, and after that many it has left the stream
  (answered by the upstream or in the dead-letter table), whatever the upstream answers and whatever
  the entry contains.
\<close>

theorem replay_ends:
  assumes "redis_queue_laws (we_kv env) view (we_q env) hv sv"
    and "queue_max_retries (we_cfg env) + 1 < int py_int_limit" "0 \<le> queue_max_retries (we_cfg env)"
    and "hv (w_redis w) ATTEMPTS_HASH m = None"
    and "completed_rounds env hv sv m n w w'"
  shows "int n \<le> queue_max_retries (we_cfg env) + 1 \<and>
    (int n = queue_max_retries (we_cfg env) + 1 \<longrightarrow> m \<notin> stream_ids env sv w')"
proof -
  have "stored_attempts hv m w = Some 0" using assms(4) by (simp add: stored_attempts_def)
  from redis_queue_laws.rounds_count [OF assms(1) refl assms(2,5) this] assms(3) show ?thesis by auto
qed

section \<open>Witnesses\<close>

lemma demo_round_one:
  "\<exists>w'. deliver_or_bury (demo_queue_env demo_down) demo_clock ''0'' demo_entry_fields demo_queue_world = (Inr (), w') \<and>
     m_stream (w_redis w') ''offline_queue'' = [(''0'', demo_entry_fields)] \<and> m_up (w_redis w') \<and>
     m_hash (w_redis w') ATTEMPTS_HASH ''0'' = Some ''1'' \<and> m_hash (w_redis w') DUE_HASH ''0'' = Some ''5''"
proof -
  have "str_of_int 1 = ''1''" by code_simp
  then show ?thesis using demo_eligible
    by (simp add: deliver_or_bury_def demo_deliver demo_queue_world_def mem_empty_def demo_down_def)
qed

lemma demo_round_two:
  assumes "m_up (w_redis w)" "m_hash (w_redis w) ATTEMPTS_HASH ''0'' = Some ''1''" "m_hash (w_redis w) DUE_HASH ''0'' = Some ''5''"
  shows "\<exists>w'. deliver_or_bury (demo_queue_env demo_down) (demo_clock\<lparr>ck_due := Fin 5\<rparr>) ''0'' demo_entry_fields w = (Inr (), w')"
proof -
  have "py_int_of_str ''1'' = Some 1" by code_simp
  moreover have "backoff_seconds demo_queue_settings 2 = 30"
    by (simp add: demo_queue_settings_def default_settings_def backoff_seconds_def Let_def)
  ultimately show ?thesis using assms demo_eligible
    by (simp add: deliver_or_bury_def demo_deliver demo_down_def dead_letter_def dead_letter_row_def)
qed

theorem replay_ends_witness:
  "\<exists>w'. completed_rounds (demo_queue_env demo_down) m_hash m_stream ''0'' 2 demo_queue_world w' \<and>
     ''0'' \<notin> stream_ids (demo_queue_env demo_down) m_stream w'"
proof -
  let ?env = "demo_queue_env demo_down" and ?rounds = "completed_rounds (demo_queue_env demo_down) m_hash m_stream ''0''"
  obtain w1 where w1: "deliver_or_bury ?env demo_clock ''0'' demo_entry_fields demo_queue_world = (Inr (), w1)"
    "m_stream (w_redis w1) ''offline_queue'' = [(''0'', demo_entry_fields)]" "m_up (w_redis w1)"
    "m_hash (w_redis w1) ATTEMPTS_HASH ''0'' = Some ''1''" "m_hash (w_redis w1) DUE_HASH ''0'' = Some ''5''"
    using demo_round_one by blast
  obtain w2 where w2: "deliver_or_bury ?env (demo_clock\<lparr>ck_due := Fin 5\<rparr>) ''0'' demo_entry_fields w1 = (Inr (), w2)"
    using demo_round_two [OF w1(3-5)] by blast
  have start: "m_hash (w_redis demo_queue_world) h ''0'' = None" for h by (simp add: demo_queue_world_def mem_empty_def)
  have "?rounds (Suc 0) demo_queue_world w1"
    by (rule completed_rounds.round [OF no_round _ _ w1(1)])
       (simp_all add: stream_ids_def demo_queue_world_def not_due_def mem_empty_def)
  then have "?rounds (Suc (Suc 0)) demo_queue_world w2"
    by (rule completed_rounds.round [OF _ _ _ w2]) (simp_all add: stream_ids_def w1 not_due_def demo_five demo_clock_def)
  then have two: "?rounds 2 demo_queue_world w2" by (simp add: numeral_2_eq_2)
  have "(10 :: nat) ^ 1 \<le> py_int_limit" unfolding py_int_limit_def by (rule power_increasing) simp_all
  then have lim: "queue_max_retries (we_cfg ?env) + 1 < int py_int_limit" by simp
  have laws: "redis_queue_laws (we_kv ?env) mem_view (we_q ?env) m_hash m_stream"
    by (simp add: memq.redis_queue_laws_axioms)
  show ?thesis using replay_ends [OF laws lim _ start two] two by auto
qed

end
