(* ===== verification/Request_Logger.thy ===== *)
theory Request_Logger
  imports Metrics
begin

text \<open>
  \<^verbatim>\<open>gateway/utils/request_logger.py\<close>: the bounded queue of request records and the task that writes
  them in batches.  The requests, the task and the shutdown interleave at the points where the code
  awaits, so the writer is a step relation; what a batch holds between the collection and the
  commit is part of its state.  The lemmas show that the queue is bounded, that every record is
  written, counted as dropped or still on its way, and that records are written in order.
\<close>

section \<open>The writer\<close>

definition MAX_QUEUE :: int where "MAX_QUEUE = 10000"
definition BATCH :: int where "BATCH = 100"

record log_writer =
  lw_queue :: "log_record list"
  lw_maxsize :: int
  lw_batch_size :: int
  lw_stop :: bool
  lw_task :: bool \<comment> \<open>the task runs\<close>
  lw_waiting :: bool \<comment> \<open>it waits for a record\<close>
  lw_batch :: "log_record list" \<comment> \<open>collected and not yet flushed\<close>
  lw_rows :: "log_record list" \<comment> \<open>the table\<close>
  lw_dropped :: int \<comment> \<open>\<^verbatim>\<open>gateway_request_log_dropped_total\<close>\<close>

definition RequestLogWriter :: "int \<Rightarrow> int \<Rightarrow> log_writer" where
  "RequestLogWriter maxsize batch_size =
     \<lparr>lw_queue = [], lw_maxsize = maxsize, lw_batch_size = batch_size, lw_stop = False, lw_task = False, lw_waiting = False,
      lw_batch = [], lw_rows = [], lw_dropped = 0\<rparr>"

definition start :: "log_writer \<Rightarrow> log_writer" where
  "start w = (if \<not> lw_task w then w\<lparr>lw_stop := False, lw_task := True\<rparr> else w)"

definition queue_full :: "log_writer \<Rightarrow> bool" where
  \<comment> \<open>\<^verbatim>\<open>asyncio.Queue.full\<close>: a size that is not positive is no bound\<close>
  "queue_full w = (0 < lw_maxsize w \<and> lw_maxsize w \<le> int (length (lw_queue w)))"

definition enqueue :: "log_record \<Rightarrow> log_writer \<Rightarrow> log_writer" where
  "enqueue rec w =
     (if queue_full w then w\<lparr>lw_dropped := lw_dropped w + 1\<rparr> else w\<lparr>lw_queue := lw_queue w @ [rec]\<rparr>)"

fun drain_batch :: "nat \<Rightarrow> log_record list \<Rightarrow> log_record list \<Rightarrow> log_record list \<times> log_record list" where
  \<comment> \<open>how many more may be taken; the batch so far and the queue\<close>
  "drain_batch 0 batch q = (batch, q)"
| "drain_batch (Suc n) batch [] = (batch, [])"
| "drain_batch (Suc n) batch (x # q) = drain_batch n (batch @ [x]) q"

definition collect_batch :: "log_writer \<Rightarrow> log_writer" where
  \<comment> \<open>with nothing queued the wait times out and the batch is empty\<close>
  "collect_batch w =
     (case lw_queue w of
        [] \<Rightarrow> w\<lparr>lw_batch := []\<rparr>
      | first # q \<Rightarrow>
          (case drain_batch (nat (lw_batch_size w - 1)) [first] q of
             (batch, q') \<Rightarrow> w\<lparr>lw_batch := batch, lw_queue := q'\<rparr>))"

datatype commit_outcome = Committed | RolledBack | CommittedButRaised

definition flush :: "commit_outcome \<Rightarrow> log_record list \<Rightarrow> log_writer \<Rightarrow> log_writer" where
  "flush outcome records w =
     (let w1 = (if outcome = RolledBack then w else w\<lparr>lw_rows := lw_rows w @ records\<rparr>)
      in if outcome = Committed then w1 else w1\<lparr>lw_dropped := lw_dropped w1 + int (length records)\<rparr>)"

fun drain_all :: "log_record list \<Rightarrow> log_record list \<Rightarrow> log_record list" where
  "drain_all rows [] = rows"
| "drain_all rows (x # q) = drain_all (rows @ [x]) q"

definition drain_remaining :: "log_writer \<Rightarrow> log_writer" where
  "drain_remaining w = w\<lparr>lw_batch := drain_all [] (lw_queue w), lw_queue := []\<rparr>"

section \<open>Interleavings\<close>

text \<open>
  \<open>Enqueued\<close> is a request; \<open>Waiting\<close>, \<open>Collected\<close> and \<open>Flushed\<close> are the parts of an iteration of the
  task, which looks at the stop flag only when an iteration begins.  \<open>StopAsked\<close>, \<open>TaskEnded\<close>, \<open>Drained\<close>
  and \<open>Closed\<close> are the steps of \<^verbatim>\<open>stop\<close>.
\<close>

datatype writer_event = Started | Enqueued log_record | Waiting | Collected | Flushed commit_outcome | StopAsked | TaskEnded
  | Drained | Closed commit_outcome

inductive writer_step :: "writer_event \<Rightarrow> log_writer \<Rightarrow> log_writer \<Rightarrow> bool" where
  started: "lw_batch w = [] \<Longrightarrow> writer_step Started w (start w)"
| enqueued: "writer_step (Enqueued rec) w (enqueue rec w)"
| waiting: "lw_task w \<Longrightarrow> \<not> lw_stop w \<Longrightarrow> lw_batch w = [] \<Longrightarrow> writer_step Waiting w (w\<lparr>lw_waiting := True\<rparr>)"
| collected: "lw_waiting w \<Longrightarrow> lw_batch w = [] \<Longrightarrow> writer_step Collected w ((collect_batch w)\<lparr>lw_waiting := False\<rparr>)"
| flushed: "lw_task w \<Longrightarrow> lw_batch w \<noteq> [] \<Longrightarrow> writer_step (Flushed outcome) w ((flush outcome (lw_batch w) w)\<lparr>lw_batch := []\<rparr>)"
| stop_asked: "writer_step StopAsked w (w\<lparr>lw_stop := True\<rparr>)"
| task_ended: "lw_stop w \<Longrightarrow> \<not> lw_waiting w \<Longrightarrow> lw_batch w = [] \<Longrightarrow> writer_step TaskEnded w (w\<lparr>lw_task := False\<rparr>)"
| drained: "lw_stop w \<Longrightarrow> \<not> lw_task w \<Longrightarrow> lw_batch w = [] \<Longrightarrow> writer_step Drained w (drain_remaining w)"
| closed: "\<not> lw_task w \<Longrightarrow> lw_batch w \<noteq> [] \<Longrightarrow> writer_step (Closed outcome) w ((flush outcome (lw_batch w) w)\<lparr>lw_batch := []\<rparr>)"

inductive writer_run :: "writer_event list \<Rightarrow> log_writer \<Rightarrow> log_writer \<Rightarrow> bool" where
  run_nil: "writer_run [] w w"
| run_snoc: "writer_run evs w w1 \<Longrightarrow> writer_step e w1 w2 \<Longrightarrow> writer_run (evs @ [e]) w w2"

inductive_cases writer_stepE: "writer_step e w w'"
inductive_simps writer_enqueued: "writer_step (Enqueued rec) w w'"

definition requested :: "writer_event list \<Rightarrow> log_record list" where
  "requested evs = List.map_filter (\<lambda>e. case e of Enqueued r \<Rightarrow> Some r | _ \<Rightarrow> None) evs"

section \<open>Lemmas\<close>

lemma drain_batch_eq: "drain_batch n batch q = (batch @ take n q, drop n q)"
  by (induction n batch q rule: drain_batch.induct) simp_all

lemma drain_all_eq: "drain_all rows q = rows @ q"
  by (induction rows q rule: drain_all.induct) simp_all

text \<open>What is on its way: written rows, then the batch in flight, then the queue.\<close>

definition pipeline :: "log_writer \<Rightarrow> log_record list" where
  "pipeline w = lw_rows w @ lw_batch w @ lw_queue w"

definition accounted :: "log_record list \<Rightarrow> log_writer \<Rightarrow> bool" where
  "accounted asked w =
     (subseq (pipeline w) asked \<and> int (length asked) \<le> int (length (pipeline w)) + lw_dropped w)"

definition counted :: "log_record list \<Rightarrow> log_writer \<Rightarrow> bool" where
  "counted asked w = (int (length asked) = int (length (pipeline w)) + lw_dropped w)"

definition queue_bounded :: "log_writer \<Rightarrow> bool" where
  "queue_bounded w = (0 < lw_maxsize w \<longrightarrow> int (length (lw_queue w)) \<le> lw_maxsize w)"

lemma pipeline_collect: "lw_batch w = [] \<Longrightarrow> pipeline (collect_batch w) = pipeline w"
  by (simp add: pipeline_def collect_batch_def drain_batch_eq split: list.splits)

lemma pipeline_drain: "lw_batch w = [] \<Longrightarrow> pipeline (drain_remaining w) = pipeline w"
  by (simp add: pipeline_def drain_remaining_def drain_all_eq)

lemma pipeline_flush:
  "pipeline ((flush outcome (lw_batch w) w)\<lparr>lw_batch := []\<rparr>) =
     (if outcome = RolledBack then lw_rows w @ lw_queue w else pipeline w)"
  "lw_dropped ((flush outcome (lw_batch w) w)\<lparr>lw_batch := []\<rparr>) =
     lw_dropped w + (if outcome = Committed then 0 else int (length (lw_batch w)))"
  by (cases outcome; simp add: pipeline_def flush_def Let_def)+

lemma pipeline_enqueue:
  "pipeline (enqueue rec w) = pipeline w @ (if queue_full w then [] else [rec])"
  "lw_dropped (enqueue rec w) = lw_dropped w + (if queue_full w then 1 else 0)"
  by (simp_all add: pipeline_def enqueue_def)

lemma pipeline_same [simp]:
  "pipeline (start w) = pipeline w" "pipeline (w\<lparr>lw_stop := b\<rparr>) = pipeline w" "pipeline (w\<lparr>lw_task := b\<rparr>) = pipeline w" "pipeline (w\<lparr>lw_waiting := b\<rparr>) = pipeline w"
  "lw_dropped (start w) = lw_dropped w" "lw_dropped (collect_batch w) = lw_dropped w" "lw_dropped (drain_remaining w) = lw_dropped w"
  by (simp_all add: pipeline_def start_def collect_batch_def drain_remaining_def split: list.split prod.split)

lemma requested_snoc:
  "requested (evs @ [e]) = requested evs @ (case e of Enqueued r \<Rightarrow> [r] | _ \<Rightarrow> [])"
  by (cases e) (simp_all add: requested_def map_filter_def)

lemma subseq_middle: "subseq (a @ b @ c) xs \<Longrightarrow> subseq (a @ c) xs"
proof -
  have "subseq c (b @ c)" by (rule subseq_drop_many) simp
  then have "subseq (a @ c) (a @ b @ c)" by (intro list_emb_append_mono) auto
  then show "subseq (a @ b @ c) xs \<Longrightarrow> subseq (a @ c) xs" by (rule subseq_order.order_trans)
qed

lemma flush_accounted:
  assumes "accounted asked w"
  shows "accounted asked ((flush outcome (lw_batch w) w)\<lparr>lw_batch := []\<rparr>)"
proof (cases outcome)
  case RolledBack
  then show ?thesis using assms subseq_middle [of "lw_rows w" "lw_batch w" "lw_queue w" asked]
    by (simp add: accounted_def pipeline_flush) (simp add: pipeline_def)
qed (use assms in \<open>simp_all add: accounted_def pipeline_flush\<close>)

lemma enqueue_accounted:
  assumes "accounted asked w"
  shows "accounted (asked @ [rec]) (enqueue rec w)"
proof -
  have "subseq (pipeline w @ (if queue_full w then [] else [rec])) (asked @ [rec])"
    using assms by (intro list_emb_append_mono) (auto simp: accounted_def)
  then show ?thesis using assms by (simp add: accounted_def pipeline_enqueue)
qed

lemma step_accounted:
  assumes "writer_step e w w'" "accounted (requested evs) w"
  shows "accounted (requested (evs @ [e])) w'"
  using assms
proof cases
  case (enqueued rec)
  then show ?thesis using enqueue_accounted [OF assms(2)] by (simp add: requested_snoc)
next
  case (flushed outcome)
  then show ?thesis using flush_accounted [OF assms(2)] by (simp add: requested_snoc)
next
  case (closed outcome)
  then show ?thesis using flush_accounted [OF assms(2)] by (simp add: requested_snoc)
qed (simp_all add: accounted_def requested_snoc pipeline_collect pipeline_drain)

definition clean_commit :: "writer_event \<Rightarrow> bool" where
  "clean_commit e = (e \<noteq> Flushed CommittedButRaised \<and> e \<noteq> Closed CommittedButRaised)"

lemma flush_counted:
  assumes "counted asked w" "outcome \<noteq> CommittedButRaised"
  shows "counted asked ((flush outcome (lw_batch w) w)\<lparr>lw_batch := []\<rparr>)"
  using assms by (cases outcome) (simp_all add: counted_def pipeline_flush, simp add: pipeline_def)

lemma step_counted:
  assumes "writer_step e w w'" "counted (requested evs) w" "clean_commit e"
  shows "counted (requested (evs @ [e])) w'"
  using assms
proof cases
  case (flushed outcome)
  then show ?thesis using flush_counted [OF assms(2)] assms(3) by (simp add: requested_snoc clean_commit_def)
next
  case (closed outcome)
  then show ?thesis using flush_counted [OF assms(2)] assms(3) by (simp add: requested_snoc clean_commit_def)
qed (simp_all add: counted_def requested_snoc pipeline_collect pipeline_drain pipeline_enqueue)

lemma step_bounded:
  assumes "writer_step e w w'" "queue_bounded w"
  shows "queue_bounded w' \<and> lw_maxsize w' = lw_maxsize w"
  using assms
  by cases (auto simp: queue_bounded_def start_def enqueue_def queue_full_def collect_batch_def drain_batch_eq flush_def
      drain_remaining_def Let_def split: list.splits)

lemma writer_run_inv:
  assumes "writer_run evs w0 w" "w0 = RequestLogWriter maxsize batch_size"
  shows "accounted (requested evs) w \<and> queue_bounded w \<and> lw_maxsize w = maxsize \<and>
    (list_all clean_commit evs \<longrightarrow> counted (requested evs) w)"
  using assms
proof (induction rule: writer_run.induct)
  case (run_nil w)
  then show ?case
    by (simp add: accounted_def counted_def queue_bounded_def pipeline_def requested_def RequestLogWriter_def map_filter_simps)
next
  case (run_snoc evs w w1 e w2)
  then have "accounted (requested evs) w1" "queue_bounded w1" "lw_maxsize w1 = maxsize"
    "list_all clean_commit evs \<longrightarrow> counted (requested evs) w1" by auto
  then show ?case using run_snoc.hyps(2) step_accounted step_bounded step_counted by simp
qed

section \<open>Properties\<close>

text \<open>
  No log record vanishes: whatever the requests, the task and the shutdown do, in whatever order,
  the queue keeps its bound; the rows of the table, the batch being written and the queue hold
  records of the requests in the order they came, none twice; and every record is among them or
  counted as dropped.  Unless a commit fails after it took effect the count is exact.
\<close>

theorem log_records_accounted:
  assumes "writer_run evs (RequestLogWriter maxsize batch_size) w" and "0 < maxsize"
  shows "int (length (lw_queue w)) \<le> maxsize \<and>
    subseq (lw_rows w @ lw_batch w @ lw_queue w) (requested evs) \<and>
    int (length (requested evs)) \<le> int (length (lw_rows w @ lw_batch w @ lw_queue w)) + lw_dropped w \<and>
    (list_all clean_commit evs \<longrightarrow>
       int (length (requested evs)) = int (length (lw_rows w @ lw_batch w @ lw_queue w)) + lw_dropped w)"
  using writer_run_inv [OF assms(1) refl] assms(2)
  by (auto simp: accounted_def counted_def queue_bounded_def pipeline_def)

section \<open>Witnesses\<close>

definition demo_log :: "string \<Rightarrow> log_record" where
  "demo_log p = \<lparr>lg_method = ''GET'', lg_path = p, lg_network_quality = ''GOOD'', lg_cache_status = ''MISS'', lg_status_code = 200,
     lg_rtt_ms = Fin 1, lg_upstream_latency_ms = None, lg_response_size_original = 1, lg_response_size_optimized = None,
     lg_client_id = ''c''\<rparr>"

definition demo_events :: "writer_event list" where
  "demo_events = [Started, Enqueued (demo_log ''/a''), Enqueued (demo_log ''/b''), Enqueued (demo_log ''/c''), Waiting, StopAsked,
     Collected, Flushed Committed, TaskEnded, Drained, Closed RolledBack]"

fun writer_exec :: "writer_event \<Rightarrow> log_writer \<Rightarrow> log_writer option" where
  "writer_exec Started w = (if lw_batch w = [] then Some (start w) else None)"
| "writer_exec (Enqueued rec) w = Some (enqueue rec w)"
| "writer_exec Waiting w = (if lw_task w \<and> \<not> lw_stop w \<and> lw_batch w = [] then Some (w\<lparr>lw_waiting := True\<rparr>) else None)"
| "writer_exec Collected w = (if lw_waiting w \<and> lw_batch w = [] then Some ((collect_batch w)\<lparr>lw_waiting := False\<rparr>) else None)"
| "writer_exec (Flushed c) w =
     (if lw_task w \<and> lw_batch w \<noteq> [] then Some ((flush c (lw_batch w) w)\<lparr>lw_batch := []\<rparr>) else None)"
| "writer_exec StopAsked w = Some (w\<lparr>lw_stop := True\<rparr>)"
| "writer_exec TaskEnded w = (if lw_stop w \<and> \<not> lw_waiting w \<and> lw_batch w = [] then Some (w\<lparr>lw_task := False\<rparr>) else None)"
| "writer_exec Drained w = (if lw_stop w \<and> \<not> lw_task w \<and> lw_batch w = [] then Some (drain_remaining w) else None)"
| "writer_exec (Closed c) w =
     (if \<not> lw_task w \<and> lw_batch w \<noteq> [] then Some ((flush c (lw_batch w) w)\<lparr>lw_batch := []\<rparr>) else None)"

fun writer_exec_all :: "writer_event list \<Rightarrow> log_writer \<Rightarrow> log_writer option" where
  "writer_exec_all [] w = Some w"
| "writer_exec_all (e # evs) w = (case writer_exec e w of None \<Rightarrow> None | Some w' \<Rightarrow> writer_exec_all evs w')"

lemma writer_exec_step: "writer_exec e w = Some w' \<longleftrightarrow> writer_step e w w'"
  by (cases e) (auto elim: writer_stepE intro: writer_step.intros split: if_splits)

lemma writer_exec_run: "writer_run evs0 w0 w \<Longrightarrow> writer_exec_all evs w = Some w' \<Longrightarrow> writer_run (evs0 @ evs) w0 w'"
proof (induction evs arbitrary: evs0 w)
  case (Cons e evs)
  then obtain w1 where "writer_exec e w = Some w1" "writer_exec_all evs w1 = Some w'" by (auto split: option.splits)
  then have "writer_run (evs0 @ [e]) w0 w1" using Cons.prems(1) run_snoc writer_exec_step by blast
  from Cons.IH [OF this \<open>writer_exec_all evs w1 = Some w'\<close>] show ?case by simp
qed simp

theorem log_records_accounted_witness:
  "\<exists>w. writer_run demo_events (RequestLogWriter 2 1) w \<and> lw_rows w = [demo_log ''/a''] \<and> lw_dropped w = 2 \<and>
     subseq (lw_rows w @ lw_batch w @ lw_queue w) (requested demo_events) \<and> int (length (requested demo_events)) = 1 + lw_dropped w"
proof -
  obtain w where w: "writer_exec_all demo_events (RequestLogWriter 2 1) = Some w" "lw_rows w = [demo_log ''/a'']"
    "lw_batch w = []" "lw_queue w = []" "lw_dropped w = 2"
    by (simp add: demo_events_def RequestLogWriter_def start_def enqueue_def queue_full_def collect_batch_def
        flush_def drain_remaining_def Let_def)
  have run: "writer_run demo_events (RequestLogWriter 2 1) w" using writer_exec_run [OF run_nil w(1)] by simp
  have "list_all clean_commit demo_events" by (simp add: demo_events_def clean_commit_def)
  then show ?thesis using log_records_accounted [OF run] run w by auto
qed

end
