(* ===== verification/Admin.thy ===== *)
theory Admin
  imports Accounts Config Worker_Task Request_Logger
begin

text \<open>
  \<^verbatim>\<open>gateway/routes/admin.py\<close>: the router that only administrators pass, the operational figures, the
  reload of the configuration and the flush of the cache (its account and key operations are in
  \<open>Accounts\<close>).  SCAN is a command of Redis; the locale \<open>redis_scan_laws\<close> says what a pattern finds.
  The lemmas show who reaches the handlers, that the figures add up, and that a flush deletes
  everything it names and nothing outside the cache.
\<close>

section \<open>The guard\<close>

definition exception_response :: "http_exception \<Rightarrow> response" where
  "exception_response e = (json_error (he_status e) (he_detail e))\<lparr>r_headers := raw_headers (he_headers e)\<rparr>"

definition admin_router :: "(string option \<Rightarrow> 'r app) \<Rightarrow> 'r app" where
  \<comment> \<open>the dependency of the router, then the handler with the principal\<close>
  "admin_router handler st r =
     (case require_admin st of
        Inl e \<Rightarrow> ((Inr (exception_response e), st, []), r)
      | Inr who \<Rightarrow> handler who st r)"

section \<open>Figures\<close>

record queue_status =
  qs_stream_key :: string
  qs_depth :: "int option"
  qs_pending :: "int option"

definition get_queue_status ::
  "'r redis_queue \<Rightarrow> 'r redis_admin \<Rightarrow> settings \<Rightarrow> ('r, queue_status) command" where
  "get_queue_status q adm cfg r =
     (case queue_depth q cfg r of
        (depth, r1) \<Rightarrow>
          (case queue_pending adm cfg r1 of
             (Inl e, r2) \<Rightarrow> (Inl e, r2)
           | (Inr pending, r2) \<Rightarrow>
               (Inr \<lparr>qs_stream_key = queue_stream_key cfg, qs_depth = depth, qs_pending = pending\<rparr>, r2)))"

definition group_count :: "('a \<Rightarrow> string) \<Rightarrow> 'a list \<Rightarrow> (string \<times> int) list" where
  \<comment> \<open>\<^verbatim>\<open>SELECT column, count(*) ... GROUP BY column\<close>\<close>
  "group_count column rows =
     map (\<lambda>v. (v, int (length (filter (\<lambda>row. column row = v) rows)))) (remdups (map column rows))"

record request_stats =
  rs_total_requests :: int
  rs_by_network_quality :: "(string, int) dict"
  rs_by_cache_status :: "(string, int) dict"

definition get_stats :: "log_record list \<Rightarrow> request_stats" where
  "get_stats rows =
     \<lparr>rs_total_requests = int (length rows),
      rs_by_network_quality = dict_of_items (group_count lg_network_quality rows),
      rs_by_cache_status = dict_of_items (group_count lg_cache_status rows)\<rparr>"

record config_view =
  cv_environment :: string
  cv_config_source :: string
  cv_rtt_thresholds_ms :: "(string, pyfloat) dict"
  cv_cache_ttls :: "(string, int) dict"
  cv_upstream_services :: "(string, string) dict"
  cv_route_rules :: rule_table

definition get_config :: "config_state \<Rightarrow> config_view" where
  "get_config cs =
     (let s = cs_settings cs
      in \<lparr>cv_environment = environment s, cv_config_source = get_loaded_yaml_path cs,
          cv_rtt_thresholds_ms = [(''good'', rtt_good_threshold_ms s), (''degraded'', rtt_degraded_threshold_ms s)],
          cv_cache_ttls = [(''static'', cache_ttl_static s), (''user'', cache_ttl_user s), (''realtime'', cache_ttl_realtime s)],
          cv_upstream_services = upstream_services s, cv_route_rules = cs_rules cs\<rparr>)"

definition reload_config ::
  "config_env \<Rightarrow> (string, string) dict \<Rightarrow> config_state \<Rightarrow> (route_error, string \<times> rule_table) result \<times> config_state" where
  \<comment> \<open>the source and the rules that are now in force\<close>
  "reload_config env ups cs =
     (case reload_route_rules env ups cs of
        (Inl e, cs') \<Rightarrow>
          (if e \<in> {ValueError, OSError}
           then Inl (HttpError (HTTPException 400 ''invalid configuration; active policy retained'' []))
           else Inl (PyFailure e), cs')
      | (Inr (path, rules), cs') \<Rightarrow>
          (Inr (case path of Some p \<Rightarrow> p | None \<Rightarrow> ''(built-in defaults)'', rules), cs'))"

record diagnosis =
  dg_redis :: bool
  dg_database :: bool
  dg_queue_depth :: "int option"

definition diagnostics :: "'r redis_queue \<Rightarrow> 'r redis_admin \<Rightarrow> settings \<Rightarrow> bool \<Rightarrow> 'r \<Rightarrow> diagnosis \<times> 'r" where
  \<comment> \<open>whether the database answers\<close>
  "diagnostics q adm cfg db_ok r =
     (case ping adm r of
        (alive, r1) \<Rightarrow>
          (case queue_depth q cfg r1 of
             (depth, r2) \<Rightarrow> (\<lparr>dg_redis = alive, dg_database = db_ok, dg_queue_depth = depth\<rparr>, r2)))"

definition list_api_keys :: "dbase \<Rightarrow> api_key_out list" where
  \<comment> \<open>newest first; what the response model keeps of a row\<close>
  "list_api_keys db = map APIKeyOut (sort_key (\<lambda>k. - k_created_at k) (db_keys db))"

section \<open>Flushing the cache\<close>

definition flush_prefix_ok :: "string \<Rightarrow> bool" where
  "flush_prefix_ok p = (p \<noteq> [] \<and> py_startswith p ''cache:'' \<and> \<not> list_ex (\<lambda>c. c \<in> set p) ''*?[]'')"

fun delete_keys :: "'r redis_kv \<Rightarrow> int \<Rightarrow> string list \<Rightarrow> int \<Rightarrow> ('r, int) command" where
  \<comment> \<open>the number deleted so far\<close>
  "delete_keys ops t [] n r = (Inr n, r)"
| "delete_keys ops t (k # ks) n r =
     (case rk_del ops t k r of
        (Inl e, r') \<Rightarrow> (Inl e, r')
      | (Inr _, r') \<Rightarrow> delete_keys ops t ks (n + 1) r')"

datatype flush_error = FlushRefused http_exception | FlushRedis redis_error

definition flush_cache ::
  "'r redis_kv \<Rightarrow> 'r redis_admin \<Rightarrow> int \<Rightarrow> string option \<Rightarrow> 'r \<Rightarrow> (flush_error, int \<times> string) result \<times> 'r" where
  \<comment> \<open>the query parameter\<close>
  "flush_cache ops adm t query r =
     (let p = (case query of None \<Rightarrow> ''cache:'' | Some q \<Rightarrow> q); pattern = p @ ''*''
      in if \<not> flush_prefix_ok p
         then (Inl (FlushRefused (HTTPException 400 ''prefix must name the cache namespace without globs'' [])), r)
         else (case ra_scan adm t pattern r of
                 (Inl e, r1) \<Rightarrow> (Inl (FlushRedis e), r1)
               | (Inr ks, r1) \<Rightarrow>
                   (case delete_keys ops t ks 0 r1 of
                      (Inl e, r2) \<Rightarrow> (Inl (FlushRedis e), r2)
                    | (Inr n, r2) \<Rightarrow> (Inr (n, pattern), r2))))"

section \<open>What a pattern finds\<close>

definition glob_plain :: "string \<Rightarrow> bool" where
  "glob_plain s = (\<forall>c \<in> set s. c \<notin> {CHR ''*'', CHR ''?'', CHR ''['', CHR '']'', CHR 0x5C})"

locale redis_scan_laws = redis_kv_laws ops view
  for ops :: "'r redis_kv" and view :: "'r kv_view" +
  fixes adm :: "'r redis_admin"
  assumes scan_same: "ra_scan adm t pat r = (sr, r') \<Longrightarrow> same_from view t r r'"
    and scan_found: "ra_scan adm t (lit @ rest) r = (Inr ks, r') \<Longrightarrow> glob_plain lit \<Longrightarrow> k \<in> set ks \<Longrightarrow> prefix lit k"
    and scan_all: "ra_scan adm t (lit @ ''*'') r = (Inr ks, r') \<Longrightarrow> glob_plain lit \<Longrightarrow>
      finite {k. view t r k \<noteq> None} \<Longrightarrow> prefix lit k \<Longrightarrow> view t r k \<noteq> None \<Longrightarrow> k \<in> set ks"

context redis_scan_laws
begin

lemma delete_keys_kept:
  "delete_keys ops t ks n r = (res, r') \<Longrightarrow> k \<notin> set ks \<Longrightarrow> t \<le> t' \<Longrightarrow> view t' r' k = view t' r k"
proof (induction ks arbitrary: n r)
  case (Cons a ks)
  obtain d r1 where d: "rk_del ops t a r = (d, r1)" by fastforce
  have "view t' r1 k = view t' r k"
    using del_effect [OF d] Cons.prems(2,3) by (auto simp: effected_def kv_effects split: sum.splits)
  then show ?case using Cons.prems d Cons.IH [of _ r1] by (auto split: sum.splits)
qed simp

lemma delete_keys_gone:
  "delete_keys ops t ks n r = (Inr d, r') \<Longrightarrow> k \<in> set ks \<Longrightarrow> view t r' k = None"
proof (induction ks arbitrary: n r)
  case (Cons a ks)
  from Cons.prems(1) obtain x r1 where d: "rk_del ops t a r = (Inr x, r1)" "delete_keys ops t ks (n + 1) r1 = (Inr d, r')"
    by (auto split: sum.splits prod.splits)
  show ?case
  proof (cases "k \<in> set ks")
    case True
    then show ?thesis using Cons.IH d(2) by blast
  next
    case False
    then have "k = a" using Cons.prems(2) by simp
    moreover have "view t r1 a = None" using del_effect [OF d(1)] by (simp add: effected_def kv_effects)
    ultimately show ?thesis using delete_keys_kept [OF d(2) False, of t] by simp
  qed
qed simp

lemma flush_confined:
  assumes run: "flush_cache ops adm t query r = (res, r')"
  shows "\<not> prefix ''cache:'' k \<Longrightarrow> t \<le> t' \<Longrightarrow> view t' r' k = view t' r k"
    and "res = Inr (n, pat) \<Longrightarrow> pat = p @ ''*'' \<Longrightarrow> CHR 0x5C \<notin> set p \<Longrightarrow> finite {k. view t r k \<noteq> None} \<Longrightarrow>
      prefix p k \<Longrightarrow> view t r' k = None"
proof -
  let ?p = "case query of None \<Rightarrow> ''cache:'' | Some q \<Rightarrow> q"
  have "view t' r' k = view t' r k" if out: "\<not> prefix ''cache:'' k" "t \<le> t'"
  proof (cases "flush_prefix_ok ?p")
    case True
    obtain s r1 where s: "ra_scan adm t (?p @ ''*'') r = (s, r1)" by fastforce
    have same: "view t' r1 k = view t' r k" using scan_same [OF s] out(2) by (simp add: same_from_def)
    show ?thesis
    proof (cases s)
      case (Inl e)
      then show ?thesis using run True s same by (simp add: flush_cache_def Let_def)
    next
      case (Inr ks)
      have lit: "\<exists>rest. ?p @ ''*'' = ''cache:'' @ rest" using True by (auto simp: flush_prefix_ok_def prefix_def)
      have "k \<notin> set ks" using scan_found [of t "''cache:''" _ r ks r1 k] lit s Inr out(1) by (auto simp: glob_plain_def)
      moreover obtain d r2 where "delete_keys ops t ks 0 r1 = (d, r2)" by fastforce
      ultimately show ?thesis using delete_keys_kept [of t ks 0 r1 d r2 k t'] run True s Inr same out(2)
        by (auto simp: flush_cache_def Let_def split: sum.splits)
    qed
  qed (use run in \<open>simp add: flush_cache_def Let_def\<close>)
  then show "\<not> prefix ''cache:'' k \<Longrightarrow> t \<le> t' \<Longrightarrow> view t' r' k = view t' r k" .
  assume res: "res = Inr (n, pat)" "pat = p @ ''*''" and p: "CHR 0x5C \<notin> set p" and fin: "finite {k. view t r k \<noteq> None}"
    and k: "prefix p k"
  from run res obtain ks r1 where s: "ra_scan adm t (p @ ''*'') r = (Inr ks, r1)" "flush_prefix_ok p"
    "delete_keys ops t ks 0 r1 = (Inr n, r')"
    by (auto simp: flush_cache_def Let_def split: if_splits prod.splits sum.splits)
  have plain: "glob_plain p" using s(2) p by (auto simp: flush_prefix_ok_def glob_plain_def)
  show "view t r' k = None"
  proof (cases "k \<in> set ks")
    case True
    then show ?thesis using delete_keys_gone [OF s(3)] by blast
  next
    case False
    then have "view t r k = None" using scan_all [OF s(1) plain fin k] by blast
    then show ?thesis using delete_keys_kept [OF s(3) False, of t] scan_same [OF s(1)] by (simp add: same_from_def)
  qed
qed

end

section \<open>The in-memory server\<close>

fun glob_match :: "string \<Rightarrow> string \<Rightarrow> bool" where
  \<comment> \<open>without character classes\<close>
  "glob_match [] s = (s = [])"
| "glob_match (c # p) [] = (c = CHR ''*'' \<and> glob_match p [])"
| "glob_match (c # p) (x # s) =
     (if c = CHR ''*'' then glob_match p (x # s) \<or> glob_match (c # p) s
      else if c = CHR ''?'' then glob_match p s
      else if c = CHR ''['' then False
      else if c = CHR 0x5C
      then (case p of [] \<Rightarrow> x = c \<and> s = [] | d # p' \<Rightarrow> d = x \<and> glob_match p' s)
      else c = x \<and> glob_match p s)"

lemma glob_match_literal: "glob_plain lit \<Longrightarrow> glob_match (lit @ rest) s \<Longrightarrow> prefix lit s"
proof (induction lit arbitrary: s)
  case (Cons c lit)
  then show ?case by (cases s) (auto simp: glob_plain_def)
qed simp

lemma glob_match_star: "glob_match ''*'' s"
  by (induction s) simp_all

lemma glob_match_prefix: "glob_plain lit \<Longrightarrow> prefix lit s \<Longrightarrow> glob_match (lit @ ''*'') s"
proof (induction lit arbitrary: s)
  case (Cons c lit)
  then show ?case by (cases s) (auto simp: glob_plain_def)
qed (simp add: glob_match_star)

text \<open>A backslash passes the check of the route and then quotes the star of the pattern.\<close>

lemma backslash_prefix_flushes_nothing:
  "flush_prefix_ok (''cache:'' @ [CHR 0x5C])"
  "\<not> glob_match (''cache:'' @ [CHR 0x5C] @ ''*'') (''cache:'' @ [CHR 0x5C] @ ''x'')"
  by (simp_all add: flush_prefix_ok_def)

definition mem_admin :: "mem_redis redis_admin" where
  "mem_admin = \<lparr>
     ra_xgroup_create = (\<lambda>s g r. if m_up r then (Inr (), r) else (Inl RedisError, r)),
     ra_xpending = (\<lambda>s g r. if m_up r then (Inr (Some 0), r) else (Inl RedisError, r)),
     ra_ping = (\<lambda>r. if m_up r then (Inr True, r) else (Inl RedisError, r)),
     ra_scan = (\<lambda>t pat r. if m_up r
       then (Inr (filter (glob_match pat) (sorted_list_of_set {k. mem_view t r k \<noteq> None})), r) else (Inl RedisError, r))\<rparr>"

interpretation memscan: redis_scan_laws mem_kv mem_view mem_admin
  by unfold_locales
     (auto simp: mem_admin_def same_from_def glob_match_prefix dest: glob_match_literal split: if_splits)

section \<open>Figures add up\<close>

lemma sum_group_count: "(\<Sum>(v, n) \<leftarrow> group_count column rows. n) = int (length rows)"
proof -
  have "(\<Sum>v \<leftarrow> remdups (map column rows). int (length (filter (\<lambda>row. column row = v) rows))) =
      (\<Sum>v \<in> set (map column rows). int (length (filter (\<lambda>row. column row = v) rows)))"
    by (subst sum_list_distinct_conv_sum_set) simp_all
  also have "\<dots> = int (\<Sum>v \<in> set (map column rows). length (filter (\<lambda>row. column row = v) rows))" by simp
  also have "(\<Sum>v \<in> set (map column rows). length (filter (\<lambda>row. column row = v) rows)) = length rows"
  proof -
    have "length (filter (\<lambda>row. column row = v) rows) = count_list (map column rows) v" for v
      by (induction rows) auto
    then show ?thesis using sum_count_set [of "map column rows" "set (map column rows)"] by simp
  qed
  finally show ?thesis by (simp add: group_count_def comp_def case_prod_beta)
qed

lemma group_count_wf: "dict_wf (group_count column rows)"
  by (simp add: group_count_def dict_wf_def comp_def)

section \<open>Properties\<close>

text \<open>
  Only administrators administer: a handler of the admin router runs (and the gateway's state can
  change) only for a request whose bearer token is valid and names an active account that is an
  administrator at that moment; API keys, other accounts and anonymous requests are answered with
  401, 403 or 503 (or an exception of the middleware) and change nothing.
\<close>

theorem admin_only_for_admins:
  assumes run: "auth_dispatch lib cfg dbo now rq (admin_router handler) st r = ((res, st', eff), r')"
  shows "(r' = r \<and> eff = [] \<and> (refusal res \<or> (\<exists>resp. res = Inr resp \<and> r_status resp \<in> {401, 403}))) \<or>
    (\<exists>db payload subject user st1.
       dbo = Some db \<and> user \<in> set (db_users db) \<and> u_is_active user \<and> u_is_admin user \<and>
       decode_access_token lib cfg now (py_strip (drop 7 (header_or (req_headers rq) ''authorization'' []))) = Some payload \<and>
       map_of payload ''sub'' = Some (JStr subject) \<and> uuid_of_str subject = Inr (u_id user) \<and>
       handler (Some (uuid_str (u_id user))) st1 r = ((res, st', eff), r'))"
  using run
proof (cases rule: auth_dispatch_cases)
  case refused
  then show ?thesis by auto
next
  case (called st1)
  show ?thesis
  proof (cases "require_admin st1")
    case (Inl e)
    then have "he_status e \<in> {401, 403}"
      by (auto simp: require_admin_def require_principal_def split: if_splits sum.splits)
    then show ?thesis using called(1) Inl by (auto simp: admin_router_def exception_response_def json_error_def)
  next
    case (Inr who)
    then have admin: "st_authenticated st1 = Some True" "st_is_admin st1 = Some True" "who = st_user_id st1"
      by (auto simp: require_admin_def require_principal_def split: if_splits sum.splits)
    then obtain db where db: "dbo = Some db" "token_identity lib cfg db now rq st1"
      using called(2) by (auto simp: anonymous_def key_identity_def)
    then obtain payload subject user where user: "user \<in> set (db_users db)" "u_is_active user" "u_is_admin user"
      "decode_access_token lib cfg now (py_strip (drop 7 (header_or (req_headers rq) ''authorization'' []))) = Some payload"
      "map_of payload ''sub'' = Some (JStr subject)" "uuid_of_str subject = Inr (u_id user)" "who = Some (uuid_str (u_id user))"
      using admin by (auto simp: token_identity_def)
    have "handler who st1 r = ((res, st', eff), r')" using called(1) Inr by (simp add: admin_router_def)
    with db(1) user show ?thesis by blast
  qed
qed

text \<open>
  C38.  Flushing is confined and complete: whatever prefix is asked for, no value outside the cache
  namespace (locks, rate windows, connection states) changes, and when the flush is answered with
  success no value with the prefix is left, as long as the prefix has no backslash and nobody writes
  meanwhile.
\<close>

theorem flush_cache_confined:
  assumes laws: "redis_scan_laws ops view adm"
    and run: "flush_cache ops adm t query r = (res, r')"
  shows "(\<forall>k t'. \<not> prefix ''cache:'' k \<and> t \<le> t' \<longrightarrow> view t' r' k = view t' r k) \<and>
    (\<forall>n p k. res = Inr (n, p @ ''*'') \<and> CHR 0x5C \<notin> set p \<and> finite {k. view t r k \<noteq> None} \<and> prefix p k \<longrightarrow>
       view t r' k = None)"
  using redis_scan_laws.flush_confined [OF laws run] by blast

text \<open>
  The gauge of the statistics: every grouping partitions the logged requests.
\<close>

lemma stats_add_up:
  "(\<Sum>(q, n) \<leftarrow> rs_by_network_quality (get_stats rows). n) = rs_total_requests (get_stats rows) \<and>
   (\<Sum>(c, n) \<leftarrow> rs_by_cache_status (get_stats rows). n) = rs_total_requests (get_stats rows)"
  by (simp add: get_stats_def dict_of_items_wf group_count_wf sum_group_count)

section \<open>Witnesses\<close>

definition demo_admin_handler :: "string option \<Rightarrow> int app" where
  "demo_admin_handler who st r = ((Inr (json_error 200 ''done''), st, []), r + 1)"

lemma demo_admin_run:
  "\<exists>resp st1. auth_dispatch demo_auth_lib default_settings (Some demo_db) 0 demo_admin_request (admin_router demo_admin_handler) fresh_state 5 =
     ((Inr resp, st1, []), 6)"
proof -
  have s: "py_strip ''token'' = ''token''" by (simp add: py_eval)
  have "demo_user \<in> set (db_users demo_db)" "distinct (map u_id (db_users demo_db))" by (simp_all add: demo_db_def)
  from bearer_of_issued [OF demo_admin_simps(3) this(1) refl this(2)]
  have bearer: "bearer_user demo_auth_lib default_settings (Some demo_db) 0 ''token'' = Inr (Inr demo_user)"
    by (simp add: demo_user_def)
  have "header_or (req_headers demo_admin_request) ''authorization'' [] = ''Bearer token''"
    "header_or (req_headers demo_admin_request) ''x-api-key'' [] = []"
    by (simp_all add: demo_admin_request_def header_or_def)
  moreover have "prefix ''bearer '' (py_lower ''Bearer token'')" by code_simp
  ultimately show ?thesis
    by (simp add: auth_dispatch_def authenticate_def Let_def s bearer admin_router_def require_admin_def
        require_principal_def demo_admin_handler_def) (simp add: demo_user_def)
qed

theorem admin_only_for_admins_witness:
  "\<exists>resp st1 user. auth_dispatch demo_auth_lib default_settings (Some demo_db) 0 demo_admin_request
       (admin_router demo_admin_handler) fresh_state 5 = ((Inr resp, st1, []), 6) \<and>
     user \<in> set (db_users demo_db) \<and> u_is_admin user"
proof -
  obtain resp st1 where run: "auth_dispatch demo_auth_lib default_settings (Some demo_db) 0 demo_admin_request
       (admin_router demo_admin_handler) fresh_state 5 = ((Inr resp, st1, []), 6)" using demo_admin_run by blast
  from admin_only_for_admins [OF run] run show ?thesis by auto
qed

definition demo_flush_redis :: mem_redis where
  "demo_flush_redis = mem_empty\<lparr>m_kv := [''cache:a'' \<mapsto> (''x'', None), ''lock:b'' \<mapsto> (''y'', None)]\<rparr>"

lemma demo_flush_keys: "{k. mem_view t demo_flush_redis k \<noteq> None} = {''cache:a'', ''lock:b''}"
  by (auto simp: mem_view_def demo_flush_redis_def split: if_splits)

theorem flush_cache_confined_witness:
  "\<exists>n r'. flush_cache mem_kv mem_admin 0 None demo_flush_redis = (Inr (n, ''cache:*''), r') \<and>
     mem_view 0 r' ''cache:a'' = None \<and> mem_view 0 r' ''lock:b'' = Some ''y''"
proof -
  have "sorted_list_of_set {''cache:a'', ''lock:b''} = [''cache:a'', ''lock:b'']"
    by (simp add: sorted_list_of_set_insert_remove)
  moreover have up: "m_up demo_flush_redis" by (simp add: demo_flush_redis_def mem_empty_def)
  ultimately have scan: "ra_scan mem_admin 0 ''cache:*'' demo_flush_redis = (Inr [''cache:a''], demo_flush_redis)"
    by (simp add: mem_admin_def demo_flush_keys [simplified])
  obtain n r' where run: "flush_cache mem_kv mem_admin 0 None demo_flush_redis = (Inr (n, ''cache:*''), r')"
    using up by (simp add: flush_cache_def flush_prefix_ok_def scan Let_def) (simp add: mem_kv_def)
  have v: "mem_view 0 demo_flush_redis ''lock:b'' = Some ''y''" by (simp add: mem_view_def demo_flush_redis_def)
  from flush_cache_confined [OF memscan.redis_scan_laws_axioms run] run v show ?thesis
    by (intro exI [of _ n] exI [of _ r']) (auto simp: demo_flush_keys [simplified])
qed

end
