(* ===== verification/Gateway.thy ===== *)
theory Gateway
  imports Proxy Body_Limit Response_Optimizer Admin
begin

text \<open>
  \<^verbatim>\<open>gateway/main.py\<close>: the middleware in the order it is stacked, the routers, the health check and the
  order in which the background parts start and stop.  A request passes the body limit, then the
  other middleware, each with the next as the application it calls, then the router; an exception
  skips what the layers outside would still have done.  The CORS middleware of the framework is
  outside the model.  The lemmas follow a request through the whole stack.
\<close>

section \<open>Middleware\<close>

datatype middleware = Cors | BodyLimit | RateLimit | NetworkDetector | AuthPopulate | ResponseOptimizer

definition added_middleware :: "settings \<Rightarrow> middleware list" where
  \<comment> \<open>in the order of the calls\<close>
  "added_middleware cfg =
     [ResponseOptimizer, AuthPopulate, NetworkDetector] @ (if rate_limit_enabled cfg then [RateLimit] else []) @ [BodyLimit, Cors]"

definition middleware_stack :: "settings \<Rightarrow> middleware list" where
  \<comment> \<open>outermost first: each call wraps what was added before\<close>
  "middleware_stack cfg = rev (added_middleware cfg)"

text \<open>The options of the CORS middleware; its own behaviour is the framework's.\<close>

record cors_options =
  co_allow_origins :: "string list"
  co_allow_credentials :: bool
  co_allow_methods :: "string list"
  co_allow_headers :: "string list"
  co_expose_headers :: "string list"

definition cors_config :: "settings \<Rightarrow> cors_options" where
  "cors_config cfg =
     \<lparr>co_allow_origins = allowed_origins cfg, co_allow_credentials = True, co_allow_methods = [''*''], co_allow_headers = [''*''],
      co_expose_headers = [''X-Network-Quality'', ''X-Adaptive-Mode'', ''X-Response-Mode'', ''X-Response-Completeness'',
        ''X-Cache-Status'', ''X-Cache-Age'', ''X-Queue-Id'', ''X-RTT-Ms'', ''X-RTT-Source'', ''Retry-After'']\<rparr>"

section \<open>Routes\<close>

text \<open>
  The same path stands for \<^verbatim>\<open>request.url.path\<close>, which the middleware reads, and for the decoded path of
  the scope, which the routers match; the two differ only behind an encoded question mark or number
  sign, and no prefix below has one.
\<close>

datatype router = AuthRoutes | ProxyRoutes | AdminRoutes | HealthRoute | MetricsRoute | NoRoute

definition below :: "string \<Rightarrow> string \<Rightarrow> bool" where
  "below pfx path = py_startswith path (pfx @ ''/'')"

definition route :: "string \<Rightarrow> router" where
  "route path =
     (if below ''/auth'' path then AuthRoutes
      else if below ''/proxy'' path then ProxyRoutes
      else if below ''/admin'' path then AdminRoutes
      else if path = ''/health'' then HealthRoute
      else if path = ''/metrics'' then MetricsRoute
      else NoRoute)"

text \<open>
  The paths and methods inside a router.  The framework matches them with regular expressions; how it
  answers a path that matches none, or matches with another method, is its own affair, and so is a
  path with a line break.
\<close>

datatype auth_endpoint = RegisterRoute | LoginRoute | RefreshRoute | LogoutRoute

definition auth_route :: "string \<Rightarrow> string \<Rightarrow> auth_endpoint option" where
  "auth_route verb path =
     (if verb = ''POST''
      then map_of [(''/auth/register'', RegisterRoute), (''/auth/login'', LoginRoute), (''/auth/refresh'', RefreshRoute),
             (''/auth/logout'', LogoutRoute)] path
      else None)"

datatype admin_endpoint = QueueRoute | StatsRoute | ConfigRoute | ReloadRoute | DiagnosticsRoute | CreateKeyRoute | ListKeysRoute
  | RevokeKeyRoute string | FlushRoute | CreateUserRoute

definition admin_route :: "string \<Rightarrow> string \<Rightarrow> admin_endpoint option" where
  "admin_route verb path =
     (case map_of [((''GET'', ''/admin/queue''), QueueRoute), ((''GET'', ''/admin/stats''), StatsRoute),
             ((''GET'', ''/admin/config''), ConfigRoute), ((''POST'', ''/admin/reload-config''), ReloadRoute),
             ((''GET'', ''/admin/diagnostics''), DiagnosticsRoute), ((''POST'', ''/admin/api-keys''), CreateKeyRoute),
             ((''GET'', ''/admin/api-keys''), ListKeysRoute), ((''DELETE'', ''/admin/cache''), FlushRoute),
             ((''POST'', ''/admin/users''), CreateUserRoute)] (verb, path) of
        Some e \<Rightarrow> Some e
      | None \<Rightarrow>
          (let key_id = drop (length ''/admin/api-keys/'') path
           in if verb = ''DELETE'' \<and> py_startswith path ''/admin/api-keys/'' \<and> key_id \<noteq> [] \<and> set key_id \<inter> {CHR ''/'', CHR 0x0A} = {}
              then Some (RevokeKeyRoute key_id) else None))"

fun takes_body :: "admin_endpoint \<Rightarrow> bool" where
  "takes_body CreateKeyRoute = True"
| "takes_body CreateUserRoute = True"
| "takes_body _ = False"

definition proxy_methods :: "string list" where
  "proxy_methods = [''GET'', ''POST'', ''PUT'', ''DELETE'', ''PATCH'', ''HEAD'']"

definition proxy_route :: "string \<Rightarrow> string \<Rightarrow> (string \<times> string) option" where
  \<comment> \<open>the service and the rest of the path, which may be empty\<close>
  "proxy_route verb path =
     (case py_partition (CHR ''/'') (drop (length ''/proxy/'') path) of
        (service, found, rest) \<Rightarrow>
          if verb \<in> set proxy_methods \<and> py_startswith path ''/proxy/'' \<and> service \<noteq> [] \<and> found \<and> CHR 0x0A \<notin> set path
          then Some (service, rest) else None)"

record health =
  hl_status :: string
  hl_version :: string
  hl_response_mode :: string
  hl_adaptation_enabled :: bool

definition health_check :: "settings \<Rightarrow> health" where
  "health_check cfg =
     \<lparr>hl_status = ''ok'', hl_version = version cfg,
      hl_response_mode = (if adaptation_enabled cfg then mode_name (response_mode cfg) else ''full''),
      hl_adaptation_enabled = adaptation_enabled cfg\<rparr>"

definition health_response :: "settings \<Rightarrow> response" where
  "health_response cfg =
     (let h = health_check cfg
      in \<lparr>r_status = 200, r_headers = [],
          r_content = JsonDoc (JObj [(''status'', JStr (hl_status h)), (''version'', JStr (hl_version h)),
            (''response_mode'', JStr (hl_response_mode h)), (''adaptation_enabled'', JBool (hl_adaptation_enabled h))]),
          r_media = None\<rparr>)"

text \<open>What the routers call: the handlers behind a prefix, the exposition of the metrics, and whatever
  the framework answers to other paths.\<close>

record 'r handlers =
  h_auth :: "auth_endpoint \<Rightarrow> 'r app"
  h_proxy :: "string \<Rightarrow> string \<Rightarrow> 'r app"
  h_admin :: "admin_endpoint \<Rightarrow> string option \<Rightarrow> 'r app"
  h_unreadable :: "response option" \<comment> \<open>the refusal of a body that should be JSON and is not, before any dependency runs\<close>
  h_generate_latest :: bytes
  h_content_type_latest :: string
  h_other :: "'r app"

definition metrics_response :: "'r handlers \<Rightarrow> response" where
  "metrics_response hs =
     \<lparr>r_status = 200, r_headers = [], r_content = Bytes (h_generate_latest hs), r_media = Some (h_content_type_latest hs)\<rparr>"

definition router_app :: "settings \<Rightarrow> 'r handlers \<Rightarrow> request \<Rightarrow> 'r app" where
  "router_app cfg hs rq =
     (case route (req_path rq) of
        AuthRoutes \<Rightarrow> (case auth_route (req_method rq) (req_path rq) of None \<Rightarrow> h_other hs | Some e \<Rightarrow> h_auth hs e)
      | ProxyRoutes \<Rightarrow>
          (case proxy_route (req_method rq) (req_path rq) of None \<Rightarrow> h_other hs | Some (service, path) \<Rightarrow> h_proxy hs service path)
      | AdminRoutes \<Rightarrow>
          (case admin_route (req_method rq) (req_path rq) of
             None \<Rightarrow> h_other hs
           | Some e \<Rightarrow>
               (case (if takes_body e then h_unreadable hs else None) of
                  Some resp \<Rightarrow> (\<lambda>st r. ((Inr resp, st, []), r))
                | None \<Rightarrow> admin_router (h_admin hs e)))
      | HealthRoute \<Rightarrow>
          (\<lambda>st r. ((Inr (if req_method rq \<in> {''GET'', ''HEAD''} then health_response cfg else json_error 405 ''Method Not Allowed''), st, []), r))
      | MetricsRoute \<Rightarrow>
          (\<lambda>st r. ((Inr (if req_method rq = ''GET'' then metrics_response hs else json_error 405 ''Method Not Allowed''), st, []), r))
      | NoRoute \<Rightarrow> h_other hs)"

section \<open>A request through the stack\<close>

record ('r, 'ip) stack_env =
  se_cfg :: settings
  se_kv :: "'r redis_kv"
  se_loads :: json_loads
  se_dumps :: json_dumps
  se_ip :: "'ip ip_lib"
  se_auth :: auth_lib
  se_db :: "dbase option"
  se_opt :: optimizer_env
  se_bracket_ok :: "string \<Rightarrow> bool"

text \<open>The clock readings of one request, the label of its route and the interleaving of the state update.\<close>

record 'r stack_clock =
  sk_rate :: int
  sk_start :: pyfloat
  sk_load :: int
  sk_finish :: pyfloat
  sk_schedule :: "'r attempt list"
  sk_auth :: int
  sk_label :: string

fun wrap :: "('r, 'ip) stack_env \<Rightarrow> 'r stack_clock \<Rightarrow> request \<Rightarrow> middleware \<Rightarrow> 'r app \<Rightarrow> 'r app" where
  "wrap env ck rq RateLimit app = rate_limit_dispatch (se_kv env) (se_ip env) (se_cfg env) (sk_rate ck) rq app"
| "wrap env ck rq NetworkDetector app =
     detector_dispatch (se_kv env) (se_loads env) (se_dumps env) (se_ip env) (se_cfg env) rq (sk_label ck) app
       (sk_start ck) (sk_load ck) (sk_finish ck) (sk_schedule ck)"
| "wrap env ck rq AuthPopulate app = auth_dispatch (se_auth env) (se_cfg env) (se_db env) (sk_auth ck) rq app"
| "wrap env ck rq ResponseOptimizer app = optimizer_dispatch (se_opt env) (se_cfg env) rq app"
| "wrap env ck rq BodyLimit app = app" \<comment> \<open>it works on messages, see \<open>serve\<close>\<close>
| "wrap env ck rq Cors app = app" \<comment> \<open>outside the model\<close>

definition stack_app :: "('r, 'ip) stack_env \<Rightarrow> 'r stack_clock \<Rightarrow> request \<Rightarrow> 'r app \<Rightarrow> 'r app" where
  "stack_app env ck rq app = foldr (wrap env ck rq) (middleware_stack (se_cfg env)) app"

fun raised :: "worker_exn \<Rightarrow> py_error" where
  "raised (PyExn e) = e"
| "raised (RedisExn e) = LibraryError"
| "raised DbExn = LibraryError"
| "raised ClientExn = LibraryError"

definition proxy_app ::
  "('r, 'ip) proxy_env \<Rightarrow> proxy_clock \<Rightarrow> bytes list \<Rightarrow> string \<Rightarrow> string \<Rightarrow> request \<Rightarrow> 'r app" where
  \<comment> \<open>the proxy route as the application of a request; its calls and background tasks are not shown\<close>
  "proxy_app penv pck chunks service path rq st r =
     (case proxy penv pck chunks service path rq
             \<lparr>ps_redis = r, ps_calls = [], ps_tasks = [], ps_request = st, ps_effects = []\<rparr> of
        (res, s) \<Rightarrow> ((map_sum raised id res, ps_request s, ps_effects s), ps_redis s))"

datatype served =
    Gone \<comment> \<open>the client left before its body was complete\<close>
  | Passed_On \<comment> \<open>not an HTTP request\<close>
  | Answered "(py_error, response) result" request_state "effect list"

definition serve ::
  "('r, 'ip) stack_env \<Rightarrow> 'r stack_clock \<Rightarrow> asgi_scope \<Rightarrow> asgi_message list \<Rightarrow> request \<Rightarrow> (asgi_message list \<Rightarrow> 'r handlers) \<Rightarrow>
     'r \<Rightarrow> served \<times> 'r" where
  \<comment> \<open>the handlers read the messages that are passed on\<close>
  "serve env ck scope messages rq handlers_on r =
     (case body_limit (se_bracket_ok env) (se_cfg env) scope messages of
        Untouched ms \<Rightarrow> (Passed_On, r)
      | Refused resp \<Rightarrow> (Answered (Inr resp) fresh_state [], r)
      | Disconnected \<Rightarrow> (Gone, r)
      | Forward ms \<Rightarrow>
          (case stack_app env ck rq (router_app (se_cfg env) (handlers_on ms) rq) fresh_state r of
             ((res, st, eff), r') \<Rightarrow> (Answered res st eff, r')))"

section \<open>Life span\<close>

datatype life_action = OpenHttp | InitModels | StartWorker | StartLogWriter | StopWorker | StopLogWriter
  | StopBackgroundTasks | CloseHttp | CloseRedis | DisposeEngine

definition startup :: "settings \<Rightarrow> life_action list" where
  \<comment> \<open>a failure of creating the tables is logged and dropped\<close>
  "startup cfg = [OpenHttp] @ (if \<not> is_production cfg then [InitModels] else []) @ [StartWorker, StartLogWriter]"

definition shutdown :: "life_action list" where
  "shutdown = [StopWorker, StopLogWriter, StopBackgroundTasks, CloseHttp, CloseRedis, DisposeEngine]"

definition stop_background_tasks :: "'r proxy_state \<Rightarrow> refresh_task list \<times> 'r proxy_state" where
  \<comment> \<open>the tasks that are cancelled; each leaves the set when it is done\<close>
  "stop_background_tasks s = (ps_tasks s, s\<lparr>ps_tasks := []\<rparr>)"

section \<open>Lemmas\<close>

lemma health_tells_mode: "hl_response_mode (health_check cfg) = mode_name (effective_mode cfg)"
  by (simp add: health_check_def effective_mode_def)

lemma admin_paths_identified: "route path = AdminRoutes \<Longrightarrow> \<not> is_public path"
proof -
  assume "route path = AdminRoutes"
  then obtain rest where "path = ''/admin/'' @ rest" by (auto simp: route_def below_def prefix_def split: if_splits)
  then show ?thesis by (simp add: is_public_def PUBLIC_PREFIXES_def)
qed

lemma proxy_route_router: "proxy_route verb path = Some x \<Longrightarrow> route path = ProxyRoutes"
  by (auto simp: proxy_route_def route_def below_def prefix_def split: prod.splits if_splits)

lemma proxy_paths_identified: "route path = ProxyRoutes \<Longrightarrow> \<not> is_public path"
proof -
  assume "route path = ProxyRoutes"
  then obtain rest where "path = ''/proxy/'' @ rest" by (auto simp: route_def below_def prefix_def split: if_splits)
  then show ?thesis by (simp add: is_public_def PUBLIC_PREFIXES_def)
qed

text \<open>
  What a browser sees of an adapted answer: the detector's headers and those of the optimizer are
  exposed to scripts of the allowed origins, the two of the rate limiter are not.
\<close>

lemma exposed_headers:
  "set [''X-Network-Quality'', ''X-RTT-Ms'', ''X-RTT-Source''] \<subseteq> set (co_expose_headers (cors_config cfg))"
  "set [''X-Response-Mode'', ''X-Adaptive-Mode'', ''X-Response-Completeness''] \<subseteq> set (co_expose_headers (cors_config cfg))"
  "set [''X-RateLimit-Limit'', ''X-RateLimit-Remaining''] \<inter> set (co_expose_headers (cors_config cfg)) = {}"
  by (simp_all add: cors_config_def)

lemma stack_order:
  "middleware_stack cfg = [Cors, BodyLimit] @ (if rate_limit_enabled cfg then [RateLimit] else []) @
     [NetworkDetector, AuthPopulate, ResponseOptimizer]"
  by (simp add: middleware_stack_def added_middleware_def)

lemma stack_app_nest:
  "stack_app env ck rq app =
     (if rate_limit_enabled (se_cfg env) then wrap env ck rq RateLimit else id)
       (wrap env ck rq NetworkDetector (wrap env ck rq AuthPopulate (wrap env ck rq ResponseOptimizer app)))"
  by (simp add: stack_app_def stack_order)

end
