(* ===== verification/Frame.thy ===== *)
theory Frame
  imports Gateway
begin

text \<open>
  What a request leaves alone.  A relation between the states before and after that the commands of
  Redis on the gateway's own keys keep is kept by everything composed of commands: by the middleware,
  the whole stack and the proxy route.  The locales \<open>kv_frame\<close> and \<open>queue_frame\<close> state the former and prove the latter once;
  they are interpreted for the state of the whole process in \<open>System\<close> and for the queue in
  \<open>Queue_System\<close>, \<open>worker_frame\<close> with them.
\<close>

section \<open>Keeping a relation\<close>

definition command_keeps :: "('r \<Rightarrow> 'r \<Rightarrow> bool) \<Rightarrow> ('r \<Rightarrow> 'x \<times> 'r) \<Rightarrow> bool" where
  "command_keeps R c = (\<forall>r x r'. c r = (x, r') \<longrightarrow> R r r')"

definition app_keeps :: "('r \<Rightarrow> 'r \<Rightarrow> bool) \<Rightarrow> 'r app \<Rightarrow> bool" where
  "app_keeps R app = (\<forall>st. command_keeps R (app st))"

lemma command_keepsI: "(\<And>r x r'. c r = (x, r') \<Longrightarrow> R r r') \<Longrightarrow> command_keeps R c"
  by (simp add: command_keeps_def)

lemma command_keepsD: "command_keeps R c \<Longrightarrow> c r = (x, r') \<Longrightarrow> R r r'"
  unfolding command_keeps_def by blast

lemma app_keepsI: "(\<And>st r x r'. app st r = (x, r') \<Longrightarrow> R r r') \<Longrightarrow> app_keeps R app"
  by (simp add: app_keeps_def command_keeps_def)

lemma app_keepsD: "app_keeps R app \<Longrightarrow> app st r = (x, r') \<Longrightarrow> R r r'"
  unfolding app_keeps_def command_keeps_def by blast

text \<open>The names below which the gateway keeps its values: answers, leases, tiers and rate windows.\<close>

definition own_key :: "string \<Rightarrow> bool" where
  "own_key k = list_ex (\<lambda>p. prefix p k) [''cache:'', ''lock:'', ''netq:'', ''ratelimit:'']"

lemma own_keys [simp]:
  "own_key (lock_key name)" "own_key (state_key client)" "own_key (build_cache_key sha verb path query variant)"
  "prefix ''cache:'' k \<Longrightarrow> own_key k"
  by (auto simp: own_key_def lock_key_def state_key_def build_cache_key_def)

definition own_tasks :: "refresh_task list \<Rightarrow> bool" where
  \<comment> \<open>the background tasks refresh the gateway's own keys\<close>
  "own_tasks = list_all (\<lambda>task. own_key (rt_key task))"

locale kv_frame =
  fixes R :: "'r \<Rightarrow> 'r \<Rightarrow> bool" and ops :: "'r redis_kv"
  assumes keeps_refl: "R r r" and keeps_trans: "R r r1 \<Longrightarrow> R r1 r2 \<Longrightarrow> R r r2"
    and get_keeps: "own_key k \<Longrightarrow> command_keeps R (rk_get ops t k)"
    and set_keeps: "own_key k \<Longrightarrow> command_keeps R (rk_set ops t k v ex)"
    and setnx_keeps: "own_key k \<Longrightarrow> command_keeps R (rk_setnx ops t k v ex)"
    and del_keeps: "own_key k \<Longrightarrow> command_keeps R (rk_del ops t k)"
    and incr_keeps: "own_key k \<Longrightarrow> command_keeps R (rk_incr ops t k)"
    and expire_keeps: "own_key k \<Longrightarrow> command_keeps R (rk_expire ops t k ex)"
    and exec_keeps: "own_key k \<Longrightarrow> command_keeps R (rk_exec_set ops r0 t k v ex)"
begin

section \<open>Rate limits, cache and locks\<close>

lemma incr_script_keeps: "own_key key \<Longrightarrow> command_keeps R (incr_script ops t key window)"
proof (rule command_keepsI)
  fix r x r' assume own: "own_key key" and run: "incr_script ops t key window r = (x, r')"
  obtain c r1 where c: "rk_incr ops t key r = (c, r1)" by fastforce
  obtain y r2 where y: "rk_expire ops t key window r1 = (y, r2)" by fastforce
  have "r' = r1 \<or> r' = r2" using run c y by (auto simp: incr_script_def split: sum.splits if_splits)
  then show "R r r'" using command_keepsD [OF incr_keeps [OF own] c] command_keepsD [OF expire_keeps [OF own] y] keeps_trans by blast
qed

lemma check_keeps: "own_key key \<Longrightarrow> command_keeps R (check_rate_limit ops cfg t key limit window)"
  by (rule command_keepsI)
     (auto simp: check_rate_limit_def dest!: command_keepsD [OF incr_script_keeps] split: prod.splits sum.splits)

lemma window_keeps: "command_keeps R (check_rate_limit ops cfg t (''ratelimit:'' @ name) limit window)"
  by (rule check_keeps) (simp add: own_key_def)

lemma enforce_keeps: "command_keeps R (enforce_rate_limit ops ipl cfg t rq scope limit window)"
proof (rule command_keepsI)
  fix r x r' assume run: "enforce_rate_limit ops ipl cfg t rq scope limit window r = (x, r')"
  obtain c r1 where c: "check_rate_limit ops cfg t (''ratelimit:'' @ (scope @ '':'' @ request_client_ip ipl cfg rq)) limit window r = (c, r1)"
    by fastforce
  then have "r' = r1" using run by (auto simp: enforce_rate_limit_def Let_def split: sum.splits)
  then show "R r r'" using command_keepsD [OF window_keeps c] by simp
qed

lemma cache_get_keeps: "own_key key \<Longrightarrow> command_keeps R (cache_get ops codec t now key)"
  by (rule command_keepsI)
     (auto simp: cache_get_def dest!: command_keepsD [OF get_keeps] split: prod.splits sum.splits option.splits)

lemma cache_set_keeps: "own_key key \<Longrightarrow> R r (cache_set ops codec t key entry r)"
proof -
  assume own: "own_key key"
  obtain x r' where "rk_set ops t key (model_dump_json codec entry) (max (cr_fresh_for entry + STALE_GRACE_SECONDS) 1) r = (x, r')"
    by fastforce
  then show ?thesis using command_keepsD [OF set_keeps [OF own]] by (simp add: cache_set_def Let_def)
qed

lemma acquire_keeps: "command_keeps R (acquire_lock ops t token name ttl)"
  by (rule command_keepsI)
     (auto simp: acquire_lock_def dest!: command_keepsD [OF setnx_keeps [OF own_keys(1)]] split: prod.splits sum.splits)

lemma release_keeps: "R r (release_lock ops t name token r)"
proof -
  obtain v r1 where v: "rk_get ops t (lock_key name) r = (v, r1)" by fastforce
  obtain x r2 where x: "rk_del ops t (lock_key name) r1 = (x, r2)" by fastforce
  have "release_lock ops t name token r \<in> {r1, r2}" using v x by (auto simp: release_lock_def split: sum.splits)
  then show ?thesis
    using command_keepsD [OF get_keeps [OF own_keys(1)] v] command_keepsD [OF del_keeps [OF own_keys(1)] x] keeps_trans by blast
qed

lemma delete_keys_keeps: "list_all own_key ks \<Longrightarrow> command_keeps R (delete_keys ops t ks n)"
proof (induction ks arbitrary: n)
  case Nil
  show ?case by (rule command_keepsI) (auto simp: keeps_refl)
next
  case (Cons k ks)
  then have own: "own_key k" "list_all own_key ks" by simp_all
  show ?case
    by (rule command_keepsI)
       (auto dest!: command_keepsD [OF del_keeps [OF own(1)]] command_keepsD [OF Cons.IH [OF own(2)]] intro: keeps_trans
         split: prod.splits sum.splits)
qed

section \<open>The stored tier\<close>

lemma load_state_keeps: "command_keeps R (load_state ops loads t client)"
  by (rule command_keepsI)
     (auto simp: load_state_def dest!: command_keepsD [OF get_keeps [OF own_keys(2)]] split: prod.splits sum.splits)

lemma update_attempt_keeps:
  assumes "\<And>r. R r (at_env a r)" and own: "own_key key"
  shows "command_keeps R (update_attempt ops loads dumps cfg key x a)"
proof (rule command_keepsI)
  fix r oc r' assume run: "update_attempt ops loads dumps cfg key x a r = (oc, r')"
  obtain raw r1 where g: "rk_get ops (at_watch a) key r = (raw, r1)" by fastforce
  have 1: "R r r1" by (rule command_keepsD [OF get_keeps [OF own] g])
  then have 2: "R r (at_env a r1)" using assms(1) keeps_trans by blast
  have "r' = r1 \<or> (\<exists>v er. rk_exec_set ops r1 (at_exec a) key v (rtt_state_ttl_seconds cfg) (at_env a r1) = (er, r'))"
    using run g by (auto simp: update_attempt_def Let_def split: sum.splits redis_error.splits prod.splits)
  then show "R r r'" using 1 keeps_trans [OF 2] command_keepsD [OF exec_keeps [OF own]] by blast
qed

lemma update_loop_keeps:
  assumes "\<And>a r. a \<in> set as \<Longrightarrow> R r (at_env a r)" and own: "own_key key"
  shows "command_keeps R (update_loop ops loads dumps cfg key x as)"
  using assms(1)
proof (induction as)
  case Nil
  show ?case by (rule command_keepsI) (auto simp: keeps_refl)
next
  case (Cons a as)
  have 1: "command_keeps R (update_attempt ops loads dumps cfg key x a)" using Cons.prems by (intro update_attempt_keeps own) simp
  have 2: "command_keeps R (update_loop ops loads dumps cfg key x as)" using Cons by simp
  show ?case
    by (rule command_keepsI)
       (auto dest!: command_keepsD [OF 1] command_keepsD [OF 2] intro: keeps_trans split: prod.splits outcome.splits)
qed

lemma update_state_keeps:
  assumes "\<And>a r. a \<in> set schedule \<Longrightarrow> R r (at_env a r)"
  shows "command_keeps R (update_state ops loads dumps cfg client x schedule)"
proof -
  have "command_keeps R (update_loop ops loads dumps cfg (state_key client) x (take 4 schedule))"
    by (intro update_loop_keeps assms own_keys(2)) (rule in_set_takeD)
  then show ?thesis unfolding update_state_def command_keeps_def .
qed

section \<open>Middleware\<close>

lemma rate_limit_keeps: "app_keeps R app \<Longrightarrow> app_keeps R (rate_limit_dispatch ops ipl cfg t rq app)"
proof (rule app_keepsI)
  fix st r x r' assume app: "app_keeps R app" and run: "rate_limit_dispatch ops ipl cfg t rq app st r = (x, r')"
  obtain c r1 where c: "check_rate_limit ops cfg t (''ratelimit:'' @ (''global:'' @ request_client_ip ipl cfg rq)) (global_rate_limit cfg)
      (global_rate_window_seconds cfg) r = (c, r1)" by fastforce
  have 1: "R r r1" by (rule command_keepsD [OF window_keeps c])
  have "r' = r1 \<or> (\<exists>y. app st r1 = (y, r')) \<or> (\<exists>y. app st r = (y, r'))"
    using run c by (cases x) (auto simp: rate_limit_dispatch_def Let_def split: if_splits prod.splits sum.splits)
  then show "R r r'" using 1 app_keepsD [OF app] keeps_trans by blast
qed

lemma auth_keeps: "app_keeps R app \<Longrightarrow> app_keeps R (auth_dispatch lib cfg dbo now rq app)"
  by (rule app_keepsI)
     (auto simp: auth_dispatch_def Let_def keeps_refl dest: app_keepsD split: sum.splits)

lemma optimizer_keeps: "app_keeps R app \<Longrightarrow> app_keeps R (optimizer_dispatch oenv cfg rq app)"
  by (rule app_keepsI)
     (auto simp: optimizer_dispatch_def dest: app_keepsD split: prod.splits sum.splits if_splits)

lemma detector_keeps:
  assumes app: "app_keeps R app" and env: "\<And>a r. a \<in> set schedule \<Longrightarrow> R r (at_env a r)"
  shows "app_keeps R (detector_dispatch ops loads dumps ipl cfg rq label app begun t_load fin schedule)"
proof (rule app_keepsI)
  fix st r out r' assume run: "detector_dispatch ops loads dumps ipl cfg rq label app begun t_load fin schedule st r = (out, r')"
  let ?client = "client_ip ipl cfg (req_client rq) (header_get (req_headers rq) ''x-forwarded-for'')"
  have upd: "R r2 r3" if "update_state ops loads dumps cfg ?client x schedule r2 = (y, r3)" for x y r2 r3
    using command_keepsD [OF update_state_keeps [OF env] that] .
  show "R r r'"
  proof (cases "req_path rq \<in> set detector_skip_paths \<or> (\<exists>e. explicit_signal cfg (req_headers rq) = Inl e)")
    case True
    then show ?thesis using run app_keepsD [OF app] keeps_refl by (auto simp: detector_dispatch_def Let_def split: if_splits)
  next
    case False
    then obtain explicit where e: "explicit_signal cfg (req_headers rq) = Inr explicit" by (cases "explicit_signal cfg (req_headers rq)") auto
    obtain loaded r1 where l: "(case explicit of
        Some (q, x) \<Rightarrow> (Inr (q, x, False), r)
      | None \<Rightarrow> (case load_state ops loads t_load ?client r of
           (Inl e, r1) \<Rightarrow> (Inl e, r1)
         | (Inr s, r1) \<Rightarrow> (Inr (quality_of_tier (cur_tier s), None, True), r1))) = (loaded, r1)" by fastforce
    have 1: "R r r1"
      using l keeps_refl by (auto dest!: command_keepsD [OF load_state_keeps] split: option.splits prod.splits sum.splits)
    note run = run [unfolded detector_dispatch_def Let_def l e sum.case split_conv]
    show ?thesis
    proof (cases loaded)
      case (Inl e)
      then show ?thesis using run False 1 by simp
    next
      case ready: (Inr found)
      obtain q x learns where known: "found = (q, x, learns)" by (metis prod_cases3)
      obtain res2 st2 eff2 r2 where a: "app (st\<lparr>st_network_quality := Some q, st_request_start := Some begun,
          st_upstream_latency_ms := None\<rparr>) r1 = ((res2, st2, eff2), r2)" by (metis prod_cases4 prod.exhaust)
      have 2: "R r r2" using keeps_trans [OF 1] app_keepsD [OF app a] by blast
      let ?x = "case x of Some x \<Rightarrow> x | None \<Rightarrow> f_max (f_sub (server_elapsed_ms begun fin)
             (case st_upstream_latency_ms st2 of Some u \<Rightarrow> u | None \<Rightarrow> Fin 0)) (Fin 0)"
      obtain upd r3 where u: "(if learns then update_state ops loads dumps cfg ?client ?x schedule r2 else (Inr (), r2)) = (upd, r3)"
        by fastforce
      then have "R r r3" using 2 upd keeps_trans by (auto split: if_splits)
      then show ?thesis
        using run False 2 by (cases res2; cases upd) (auto simp: ready known a u split: prod.splits)
    qed
  qed
qed

lemma stack_keeps:
  assumes env: "se_kv env = ops" "\<And>a r. a \<in> set (sk_schedule ck) \<Longrightarrow> R r (at_env a r)" and app: "app_keeps R app"
  shows "app_keeps R (stack_app env ck rq app)"
proof -
  have "app_keeps R (wrap env ck rq NetworkDetector (wrap env ck rq AuthPopulate (wrap env ck rq ResponseOptimizer app)))"
    using env(1) by (simp add: detector_keeps [OF _ env(2)] auth_keeps optimizer_keeps app)
  then show ?thesis using env(1) by (simp add: stack_app_nest rate_limit_keeps)
qed

lemma serve_keeps:
  assumes env: "se_kv env = ops" "\<And>a r. a \<in> set (sk_schedule ck) \<Longrightarrow> R r (at_env a r)"
    and app: "\<And>ms. app_keeps R (router_app (se_cfg env) (hs ms) rq)"
  shows "command_keeps R (serve env ck scope messages rq hs)"
proof (rule command_keepsI)
  fix r x r' assume "serve env ck scope messages rq hs r = (x, r')"
  then show "R r r'"
    using keeps_refl app_keepsD [OF stack_keeps [OF env app]]
    by (auto simp: serve_def split: body_outcome.splits prod.splits)
qed

lemma router_keeps:
  assumes "\<And>e. app_keeps R (h_auth hs e)" "\<And>service path. app_keeps R (h_proxy hs service path)"
    and "\<And>e who. app_keeps R (h_admin hs e who)" "app_keeps R (h_other hs)"
  shows "app_keeps R (router_app cfg hs rq)"
proof -
  have "app_keeps R (\<lambda>st r. ((y, st, []), r))" for y by (rule app_keepsI) (auto simp: keeps_refl)
  moreover have "app_keeps R (admin_router (h_admin hs e))" for e
    by (rule app_keepsI) (auto simp: admin_router_def keeps_refl dest: app_keepsD [OF assms(3)] split: sum.splits)
  ultimately show ?thesis using assms(1,2,4)
    by (cases "route (req_path rq)"; cases "auth_route (req_method rq) (req_path rq)"; cases "proxy_route (req_method rq) (req_path rq)";
        cases "admin_route (req_method rq) (req_path rq)"; cases "h_unreadable hs") (simp_all add: router_app_def split: prod.split)
qed

end

section \<open>The proxy route\<close>

locale queue_frame = kv_frame R ops
  for R :: "'r \<Rightarrow> 'r \<Rightarrow> bool" and ops :: "'r redis_kv" +
  fixes qops :: "'r redis_queue"
  assumes xlen_keeps: "command_keeps R (rq_xlen qops st)"
    and xadd_keeps: "command_keeps R (rq_xadd qops st flds)"
begin

abbreviation served_keeps :: "'r proxy_state \<Rightarrow> 'r proxy_state \<Rightarrow> bool" where
  "served_keeps s s' \<equiv> R (ps_redis s) (ps_redis s') \<and> (own_tasks (ps_tasks s) \<longrightarrow> own_tasks (ps_tasks s'))"

lemma served_rel: "reflp served_keeps" "transp served_keeps"
  using keeps_refl keeps_trans by (auto simp: reflp_def transp_def)

abbreviation world_keeps :: "'r world \<Rightarrow> 'r world \<Rightarrow> bool" where
  "world_keeps w w' \<equiv> R (w_redis w) (w_redis w')"

lemma world_rel: "reflp world_keeps" "transp world_keeps"
  using keeps_refl keeps_trans by (auto simp: reflp_def transp_def)

lemma redis_io_keeps: "command_keeps R c \<Longrightarrow> io_keeps world_keeps (redis_io c)"
  by (rule io_keepsI) (auto elim!: redis_ioE dest: command_keepsD)

lemma enqueue_write_keeps:
  assumes "we_q env = qops"
  shows "io_keeps world_keeps (enqueue_write env now verb url path hs body client)"
proof -
  note tr = io_keeps_bind [OF world_rel(2)] and re = io_keeps_pure [OF world_rel(1)]
  have "io_keeps world_keeps (enqueue_script env entry)" for entry
    unfolding enqueue_script_def assms by (intro tr redis_io_keeps xlen_keeps) (auto intro!: tr redis_io_keeps xadd_keeps re)
  then show ?thesis unfolding enqueue_write_def by (intro tr re) (auto intro!: tr re split: option.split)
qed

lemma call_upstream_same: "call_upstream env ck verb url hs body service b s = (res, s') \<Longrightarrow> ps_redis s' = ps_redis s \<and> ps_tasks s' = ps_tasks s"
  by (auto simp: call_upstream_def Let_def)

lemma store_keeps: "pe_kv env = ops \<Longrightarrow> own_key key \<Longrightarrow> R r (store_response env ck key resp fresh r)"
  by (simp add: store_response_def cache_set_keeps)

lemma queue_write_keeps:
  assumes "we_q (pe_worker env) = qops" "queue_write env ck rq target fwd body s = (res, s')"
  shows "served_keeps s s'"
proof -
  let ?m = "enqueue_write (pe_worker env) (pc_enqueued ck) (req_method rq) target (req_path rq) fwd body
    (Some (request_identity (pe_ip env) (pe_cfg env) rq (ps_request s)))"
  obtain x w where m: "?m \<lparr>w_redis = ps_redis s, w_failed = [], w_sent = [], w_cursor = []\<rparr> = (x, w)" by fastforce
  have "ps_redis s' = w_redis w \<and> ps_tasks s' = ps_tasks s" using assms(2) m by (auto simp: queue_write_def queue_io_def split: sum.splits if_splits)
  then show ?thesis using io_keepsD [OF enqueue_write_keeps [OF assms(1)] m] by simp
qed

lemma handle_write_keeps:
  assumes "we_q (pe_worker env) = qops"
  shows "io_keeps served_keeps (handle_write env ck rq service target fwd body qw)"
proof (rule io_keepsI)
  fix s res s' assume run: "handle_write env ck rq service target fwd body qw s = (res, s')"
  obtain up s1 where c: "call_upstream env ck (req_method rq) target fwd body service True
      (s\<lparr>ps_request := (ps_request s)\<lparr>st_optimizable := Some False\<rparr>\<rparr>) = (up, s1)" by fastforce
  have same: "ps_redis s1 = ps_redis s" "ps_tasks s1 = ps_tasks s" using call_upstream_same [OF c] by simp_all
  have "ps_redis s' = ps_redis s1 \<and> ps_tasks s' = ps_tasks s1 \<or> queue_write env ck rq target fwd body s1 = (res, s')"
    using run c by (auto simp: handle_write_def Let_def split: sum.splits if_splits)
  then show "served_keeps s s'" using queue_write_keeps [OF assms] same keeps_refl by metis
qed

lemma get_miss_keeps:
  assumes "pe_kv env = ops" "own_key key"
  shows "io_keeps served_keeps (get_miss env ck rq service target rule fwd key cacheable)"
proof (rule io_keepsI)
  fix s res s' assume run: "get_miss env ck rq service target rule fwd key cacheable s = (res, s')"
  obtain up s1 where c: "call_upstream env ck ''GET'' target fwd [] service True s = (up, s1)" by fastforce
  then show "served_keeps s s'"
    using run call_upstream_same [OF c] keeps_refl store_keeps [OF assms]
    by (auto simp: get_miss_def Let_def split: sum.splits upstream_error.splits if_splits)
qed

lemma lookup_keeps: "pe_kv env = ops \<Longrightarrow> own_key key \<Longrightarrow> io_keeps served_keeps (lookup_io env ck key)"
  using command_keepsD [OF cache_get_keeps] by (intro io_keepsI) (auto simp: lookup_io_def split: prod.splits)

lemma start_refresh_keeps:
  assumes "pe_kv env = ops" "own_key key"
  shows "io_keeps served_keeps (start_refresh env ck key target fwd service rule)"
  unfolding start_refresh_def Let_def
proof (intro io_keeps_bind [OF served_rel(2)] io_keeps_pure [OF served_rel(1)], rule io_keepsI)
  fix seconds res and s s' :: "'r proxy_state"
  assume "(case acquire_lock (pe_kv env) (pc_lock ck) (pc_token ck) (revalidate_lock key)
      (max (revalidate_lock_ttl_seconds (pe_cfg env)) (seconds + 5)) (ps_redis s) of
      (None, r1) \<Rightarrow> (Inr (), s\<lparr>ps_redis := r1\<rparr>)
    | (Some token, r1) \<Rightarrow> (Inr (), s\<lparr>ps_redis := r1, ps_tasks := ps_tasks s @ (if token = [] then [] else
        [\<lparr>rt_key = key, rt_url = target, rt_headers = fwd, rt_service = service, rt_fresh_for = rr_cache_ttl rule,
          rt_token = token, rt_timeout = effective_timeout (pe_cfg env) rule\<rparr>])\<rparr>)) = (res, s')"
  then show "served_keeps s s'"
    using assms command_keepsD [OF acquire_keeps] by (auto simp: own_tasks_def split: prod.splits option.splits)
qed

lemma handle_get_keeps:
  assumes "pe_kv env = ops"
  shows "io_keeps served_keeps (handle_get env ck rq service target rule fwd)"
proof -
  note tr = io_keeps_bind [OF served_rel(2)] and re = io_keeps_pure [OF served_rel(1)]
  have em: "io_keeps served_keeps (emit e)" "io_keeps served_keeps (on_request f)" for e f
    by (auto simp: io_keeps_def emit_def on_request_def keeps_refl)
  have entry: "io_keeps served_keeps (serve_entry env ck rq entry status)" for entry status
    unfolding serve_entry_def by (auto intro!: tr re em split: option.split)
  have own: "own_key (cache_key env target fwd)" by (simp add: cache_key_def)
  show ?thesis
    unfolding handle_get_def Let_def
    by (intro tr) (auto intro!: tr re em entry lookup_keeps start_refresh_keeps get_miss_keeps own assms
      split: prod.splits cache_status.splits option.splits)
qed

lemma proxy_keeps:
  assumes "pe_kv env = ops" "we_q (pe_worker env) = qops"
  shows "io_keeps served_keeps (proxy env ck chunks service path rq)"
proof -
  have "io_keeps served_keeps (proxy_to env ck chunks service path base host rq)" for base host
  proof (rule io_keepsI)
    fix s res s' assume "proxy_to env ck chunks service path base host rq s = (res, s')"
    then show "served_keeps s s'"
      by (auto simp: proxy_to_def Let_def keeps_refl dest!: io_keepsD [OF handle_get_keeps [OF assms(1)]]
          io_keepsD [OF handle_write_keeps [OF assms(2)]] split: sum.splits if_splits)
  qed
  then show ?thesis
    unfolding proxy_def by (auto simp: io_keeps_pure [OF served_rel(1)] split: option.splits sum.splits)
qed

lemma refresh_cache_keeps:
  assumes "pe_kv env = ops" "own_key (rt_key task)"
  shows "io_keeps (\<lambda>s s'. R (ps_redis s) (ps_redis s')) (refresh_cache env ck task)"
proof (rule io_keepsI)
  fix s res s' assume run: "refresh_cache env ck task s = (res, s')"
  obtain up s1 where c: "call_upstream env ck ''GET'' (rt_url task) (rt_headers task) [] (rt_service task) False s = (up, s1)" by fastforce
  define r2 where "r2 = (case up of
      Inr resp \<Rightarrow> if response_cacheable resp then store_response env ck (rt_key task) resp (rt_fresh_for task) (ps_redis s1) else ps_redis s1
    | Inl _ \<Rightarrow> ps_redis s1)"
  have "R (ps_redis s) r2" using call_upstream_same [OF c] store_keeps [OF assms] keeps_refl by (simp add: r2_def split: sum.split)
  moreover have "ps_redis s' = release_lock ops (pc_release ck) (revalidate_lock (rt_key task)) (rt_token task) r2"
    using run c assms(1) by (auto simp: refresh_cache_def r2_def Let_def split: sum.splits if_splits)
  ultimately show "R (ps_redis s) (ps_redis s')" using release_keeps keeps_trans by metis
qed

end

section \<open>The worker\<close>

locale worker_frame = queue_frame R ops qops
  for R :: "'r \<Rightarrow> 'r \<Rightarrow> bool" and ops :: "'r redis_kv" and qops :: "'r redis_queue" +
  fixes adm :: "'r redis_admin"
  assumes hget_keeps: "command_keeps R (rq_hget qops h f)"
    and hset_keeps: "command_keeps R (rq_hset qops h f v)"
    and hdel_keeps: "command_keeps R (rq_hdel qops h f)"
    and xack_keeps: "command_keeps R (rq_xack qops st g i)"
    and xdel_keeps: "command_keeps R (rq_xdel qops st i)"
    and xread_keeps: "command_keeps R (rq_xreadgroup qops st g c n)"
    and xclaim_keeps: "command_keeps R (rq_xautoclaim qops t st g c idle cur n)"
    and group_keeps: "command_keeps R (ra_xgroup_create adm st g)"
begin

lemmas world_steps = io_keeps_bind [OF world_rel(2)] io_keeps_pure [OF world_rel(1)] redis_io_keeps

lemma ack_keeps:
  assumes "we_q env = qops"
  shows "io_keeps world_keeps (ack env m)"
  unfolding ack_def Let_def assms by (intro world_steps xack_keeps xdel_keeps hdel_keeps)

lemma get_attempts_keeps:
  assumes "we_q env = qops"
  shows "io_keeps world_keeps (get_attempts env m)"
  unfolding get_attempts_def assms by (intro world_steps hget_keeps) (auto intro!: world_steps split: option.split)

lemma dead_letter_keeps: "io_keeps world_keeps (dead_letter env flds n err)"
  by (rule io_keepsI) (simp add: dead_letter_effect(1) keeps_refl)

lemma replay_keeps: "io_keeps world_keeps (replay_request env m flds hs)"
  by (rule io_keepsI)
     (auto simp: replay_request_def Let_def keeps_refl split: option.splits sum.splits upstream_error.splits)

lemma deliver_keeps:
  assumes "we_q env = qops"
  shows "io_keeps world_keeps (deliver env ck m flds)"
proof -
  note ack = ack_keeps [OF assms]
  have "io_keeps world_keeps (try_send env ck m flds hs n)" for hs n
    unfolding try_send_def sent_tail_def assms
    by (intro world_steps hset_keeps replay_keeps) (auto intro!: world_steps dead_letter_keeps ack split: prod.splits)
  then show ?thesis
    unfolding deliver_def assms
    by (intro world_steps hget_keeps) (auto intro!: world_steps get_attempts_keeps [OF assms] dead_letter_keeps ack split: json.splits)
qed

lemma handle_keeps:
  assumes env: "we_kv env = ops" "we_q env = qops"
  shows "io_keeps world_keeps (handle env ck m flds)"
proof (rule io_keepsI)
  fix w res w' assume run: "handle env ck m flds w = (res, w')"
  have bury: "io_keeps world_keeps (bury_malformed env m flds)"
    unfolding bury_malformed_def by (intro world_steps get_attempts_keeps dead_letter_keeps ack_keeps env(2))
  have both: "R (w_redis w1) (w_redis w2)" if "deliver_or_bury env ck m flds w1 = (d, w2)" for w1 d w2
  proof -
    obtain x w3 where x: "deliver env ck m flds w1 = (x, w3)" by fastforce
    have 1: "R (w_redis w1) (w_redis w3)" by (rule io_keepsD [OF deliver_keeps [OF env(2)] x])
    have "w2 = w3 \<or> bury_malformed env m flds w3 = (d, w2)"
      using that x by (auto simp: deliver_or_bury_def split: sum.splits if_splits)
    then show ?thesis using 1 keeps_trans [OF 1 io_keepsD [OF bury]] by blast
  qed
  obtain lease r1 where a: "acquire_lock ops (ck_lock ck) (ck_token ck) (''replay:'' @ m) (queue_claim_idle_seconds (we_cfg env)) (w_redis w) = (lease, r1)"
    by fastforce
  have 1: "R (w_redis w) r1" by (rule command_keepsD [OF acquire_keeps a])
  show "world_keeps w w'"
  proof (cases lease)
    case None
    then show ?thesis using run a 1 env(1) by (auto simp: handle_def)
  next
    case (Some token)
    obtain d w2 where d: "deliver_or_bury env ck m flds (w\<lparr>w_redis := r1\<rparr>) = (d, w2)" by fastforce
    have "R r1 (w_redis w2)" using both [OF d] by simp
    with 1 have "R (w_redis w) (w_redis w2)" by (rule keeps_trans)
    moreover have "w_redis w' = release_lock ops (ck_release ck) (''replay:'' @ m) token (w_redis w2)"
      using run a Some d env(1) by (auto simp: handle_def)
    ultimately show ?thesis using keeps_trans release_keeps by simp
  qed
qed

lemma handle_all_keeps: "we_kv env = ops \<Longrightarrow> we_q env = qops \<Longrightarrow> io_keeps world_keeps (handle_all env cks)"
  by (induction env cks rule: handle_all.induct) (auto intro!: world_steps handle_keeps)

lemma tick_keeps:
  assumes env: "we_kv env = ops" "we_q env = qops"
  shows "io_keeps world_keeps (tick env consumer t clocks clocks')"
  unfolding tick_def Let_def env(2)
proof (intro world_steps xread_keeps handle_all_keeps env, rule io_keepsI)
  fix w res w'
  assume "io_bind (redis_io (rq_xautoclaim qops t (queue_stream_key (we_cfg env)) (queue_consumer_group (we_cfg env)) consumer
      (queue_claim_idle_seconds (we_cfg env) * 1000) (w_cursor w) 64)) (\<lambda>(cursor, claimed) w'.
        handle_all env (zip (map clocks' [0..<length claimed]) (filter (\<lambda>e. snd e \<noteq> []) claimed)) (w'\<lparr>w_cursor := cursor\<rparr>)) w = (res, w')"
  then show "world_keeps w w'"
  proof (rule io_bindE)
    fix x w1
    assume c: "redis_io (rq_xautoclaim qops t (queue_stream_key (we_cfg env)) (queue_consumer_group (we_cfg env)) consumer
        (queue_claim_idle_seconds (we_cfg env) * 1000) (w_cursor w) 64) w = (Inr x, w1)"
      and h: "(\<lambda>(cursor, claimed) w'. handle_all env (zip (map clocks' [0..<length claimed]) (filter (\<lambda>e. snd e \<noteq> []) claimed))
        (w'\<lparr>w_cursor := cursor\<rparr>)) x w1 = (res, w')"
    have "R (w_redis w) (w_redis w1)" by (rule io_keepsD [OF redis_io_keeps [OF xclaim_keeps] c])
    moreover have "R (w_redis w1) (w_redis w')"
      using h by (cases x) (auto dest!: io_keepsD [OF handle_all_keeps [OF env]])
    ultimately show ?thesis by (rule keeps_trans)
  qed (blast intro: io_keepsD [OF redis_io_keeps [OF xclaim_keeps]])
qed

lemma ensure_group_keeps: "command_keeps R (ensure_group adm cfg)"
  by (rule command_keepsI)
     (auto simp: ensure_group_def dest!: command_keepsD [OF group_keeps] split: prod.splits sum.splits redis_error.splits if_splits)

lemma iteration_keeps:
  assumes env: "we_kv env = ops" "we_q env = qops"
  shows "R (w_redis (tk_world tk)) (w_redis (tk_world (worker_iteration env adm consumer inp tk)))"
proof -
  obtain res w1 where r: "worker_round env adm consumer inp (tk_world tk) = (res, w1)" by fastforce
  have "io_keeps world_keeps (worker_round env adm consumer inp)"
    unfolding worker_round_def by (intro world_steps ensure_group_keeps tick_keeps env)
  then have 1: "R (w_redis (tk_world tk)) (w_redis w1)" using io_keepsD r by fastforce
  obtain x r2 where x: "rq_xlen qops (queue_stream_key (we_cfg env)) (w_redis w1) = (x, r2)" by fastforce
  have "R (w_redis w1) (w_redis (tk_world (worker_iteration env adm consumer inp tk)))"
    using command_keepsD [OF xlen_keeps x] keeps_refl r x env(2)
    by (cases x) (simp_all add: worker_iteration_def sample_depth_def queue_depth_def)
  then show ?thesis by (rule keeps_trans [OF 1])
qed

end

end
