(* ===== verification/Site.thy ===== *)
theory Site
  imports Frame
begin

text \<open>
  The gateway as one system: the state of the process and its stores, the handlers of every route on
  that state, a request served by the whole application, and the steps the system takes.  It joins
  the components the way \<^verbatim>\<open>gateway/main.py\<close> does.  The framework (FastAPI, Starlette, pydantic) is the
  parameter \<open>framework\<close>: how it reads a body, what it answers to a request it refuses, how it renders
  times and keys.  Upstreams and the database may behave differently at every step.  Requests are
  served one after the other; the queue workers may interleave, because the copies of entries they
  have read and not handled yet are part of the state.
\<close>

section \<open>State\<close>

record 'r site =
  si_task :: "'r sync_task" \<comment> \<open>Redis, the dead-letter table, the requests sent, and the metrics of the process\<close>
  si_db :: dbase
  si_config :: config_state
  si_writer :: log_writer
  si_refreshes :: "refresh_task list" \<comment> \<open>\<^verbatim>\<open>_background_tasks\<close>\<close>
  si_held :: "stream_entry list" \<comment> \<open>entries some worker has read and not handled yet\<close>

definition site_redis :: "'r site \<Rightarrow> 'r" where
  "site_redis s = w_redis (tk_world (si_task s))"

definition set_redis :: "'r \<Rightarrow> 'r site \<Rightarrow> 'r site" where
  "set_redis r s = s\<lparr>si_task := (si_task s)\<lparr>tk_world := (tk_world (si_task s))\<lparr>w_redis := r\<rparr>\<rparr>\<rparr>"

lemma set_redis_simps [simp]:
  "site_redis (set_redis r s) = r" "set_redis (site_redis s) s = s" "set_redis r (set_redis r' s) = set_redis r s"
  "si_db (set_redis r s) = si_db s" "si_config (set_redis r s) = si_config s" "si_writer (set_redis r s) = si_writer s"
  "si_refreshes (set_redis r s) = si_refreshes s" "si_held (set_redis r s) = si_held s" "tk_metrics (si_task (set_redis r s)) = tk_metrics (si_task s)"
  by (simp_all add: site_redis_def set_redis_def)

text \<open>The commands of Redis on the whole state, and an attempt to update a stored tier.\<close>

definition on_redis :: "('r \<Rightarrow> 'x \<times> 'r) \<Rightarrow> 'r site \<Rightarrow> 'x \<times> 'r site" where
  "on_redis c s = (case c (site_redis s) of (x, r) \<Rightarrow> (x, set_redis r s))"

definition lift_kv :: "'r redis_kv \<Rightarrow> 'r site redis_kv" where
  "lift_kv ops =
     \<lparr>rk_get = (\<lambda>t k. on_redis (rk_get ops t k)), rk_set = (\<lambda>t k v ex. on_redis (rk_set ops t k v ex)),
      rk_setnx = (\<lambda>t k v ex. on_redis (rk_setnx ops t k v ex)), rk_del = (\<lambda>t k. on_redis (rk_del ops t k)),
      rk_incr = (\<lambda>t k. on_redis (rk_incr ops t k)), rk_expire = (\<lambda>t k ex. on_redis (rk_expire ops t k ex)),
      rk_exec_set = (\<lambda>s0 t k v ex. on_redis (rk_exec_set ops (site_redis s0) t k v ex))\<rparr>"

definition lift_attempt :: "'r attempt \<Rightarrow> 'r site attempt" where
  \<comment> \<open>requests are served one after the other, so nobody acts between the read and the write\<close>
  "lift_attempt a = \<lparr>at_watch = at_watch a, at_env = (\<lambda>s. s), at_exec = at_exec a\<rparr>"

section \<open>Parameters\<close>

datatype body_read = Unreadable \<comment> \<open>announced as JSON and not JSON\<close> | Opaque \<comment> \<open>empty or of another type\<close> | Document json

record framework =
  fw_body :: "request \<Rightarrow> bytes \<Rightarrow> body_read"
  fw_unprocessable :: response \<comment> \<open>the answer to a request that fails validation\<close>
  fw_unmatched :: "request \<Rightarrow> response" \<comment> \<open>the answer when no route matches\<close>
  fw_query :: "string \<Rightarrow> string \<Rightarrow> string option" \<comment> \<open>the value of a query parameter\<close>
  fw_uuid :: "string \<Rightarrow> uuid option" \<comment> \<open>pydantic's conversion of a path parameter\<close>
  fw_valid_email :: "string \<Rightarrow> string option"
  fw_datetime :: "int \<Rightarrow> json"
  fw_key :: "yaml \<Rightarrow> string" \<comment> \<open>the rendering of a dictionary key\<close>
  fw_exposition :: "metrics \<Rightarrow> bytes"
  fw_exposition_type :: string

record ('r, 'ip) site_env =
  sx_worker :: "'r worker_env" \<comment> \<open>Redis, codecs, HTTP client; its settings and rules are replaced by those in force\<close>
  sx_admin :: "'r redis_admin"
  sx_codec :: envelope_codec
  sx_sha256 :: "string \<Rightarrow> string"
  sx_ip :: "'ip ip_lib"
  sx_getaddrinfo :: "string \<Rightarrow> (py_error, string list) result"
  sx_auth :: auth_lib
  sx_opt :: optimizer_env
  sx_upstreams :: "(string, string) dict" \<comment> \<open>\<^verbatim>\<open>_ENV_UPSTREAMS\<close>\<close>
  sx_framework :: framework

text \<open>Clocks, random texts and the behaviour of the database and the file system during one request.\<close>

record 'r moment =
  mo_stack :: "'r stack_clock"
  mo_proxy :: proxy_clock
  mo_limit :: int
  mo_server :: int
  mo_reached :: bool \<comment> \<open>the database can be reached\<close>
  mo_commit :: bool \<comment> \<open>and accepts a commit\<close>
  mo_now :: int
  mo_id :: uuid
  mo_salt :: string
  mo_random :: string
  mo_prefix :: string
  mo_secret :: string
  mo_files :: config_env

definition in_force :: "('r, 'ip) site_env \<Rightarrow> 'r site \<Rightarrow> 'r worker_env" where
  \<comment> \<open>\<^verbatim>\<open>settings\<close> and \<^verbatim>\<open>ROUTE_RULES\<close> are module variables that every part reads\<close>
  "in_force env s = (sx_worker env)\<lparr>we_cfg := cs_settings (si_config s), we_rules := string_rules (cs_rules (si_config s))\<rparr>"

definition meanwhile :: "http_client \<Rightarrow> (failed_request \<Rightarrow> db_commit) \<Rightarrow> ('r, 'ip) site_env \<Rightarrow> ('r, 'ip) site_env" where
  \<comment> \<open>the outside world as it is at some time: what the upstreams answer and what becomes of a dead letter\<close>
  "meanwhile http db env = env\<lparr>sx_worker := outside http db (sx_worker env)\<rparr>"

section \<open>Answers\<close>

definition json_reply :: "int \<Rightarrow> json \<Rightarrow> response" where
  "json_reply status j = \<lparr>r_status = status, r_headers = [], r_content = JsonDoc j, r_media = None\<rparr>"

definition route_answer :: "('a \<Rightarrow> response) \<Rightarrow> (route_error, 'a) result \<Rightarrow> (py_error, response) result" where
  "route_answer respond res =
     (case res of
        Inr x \<Rightarrow> Inr (respond x)
      | Inl (HttpError e) \<Rightarrow> Inr (exception_response e)
      | Inl (DbFailure _) \<Rightarrow> Inl LibraryError
      | Inl (PyFailure e) \<Rightarrow> Inl e)"

definition user_json :: "framework \<Rightarrow> user_out \<Rightarrow> json" where
  "user_json fw u = JObj [(''id'', JStr (uuid_str (uo_id u))), (''email'', JStr (uo_email u)), (''is_active'', JBool (uo_is_active u)),
     (''is_admin'', JBool (uo_is_admin u)), (''created_at'', fw_datetime fw (uo_created_at u))]"

definition token_json :: "token_response \<Rightarrow> json" where
  "token_json t = JObj [(''access_token'', JStr (tr_access_token t)), (''refresh_token'', JStr (tr_refresh_token t)),
     (''token_type'', JStr (tr_token_type t)), (''expires_in'', JInt (tr_expires_in t))]"

definition key_fields :: "framework \<Rightarrow> 'k api_key_out_scheme \<Rightarrow> (string \<times> json) list" where
  "key_fields fw k = [(''id'', JStr (uuid_str (ko_id k))), (''name'', JStr (ko_name k)), (''prefix'', JStr (ko_prefix k)),
     (''is_active'', JBool (ko_is_active k)), (''created_at'', fw_datetime fw (ko_created_at k))]"

definition key_created_json :: "framework \<Rightarrow> api_key_created \<Rightarrow> json" where
  "key_created_json fw k = JObj (key_fields fw k @ [(''api_key'', JStr (kc_api_key k))])"

definition count_json :: "int option \<Rightarrow> json" where
  "count_json n = (case n of None \<Rightarrow> JNull | Some i \<Rightarrow> JInt i)"

definition queue_json :: "queue_status \<Rightarrow> json" where
  "queue_json q = JObj [(''stream_key'', JStr (qs_stream_key q)), (''depth'', count_json (qs_depth q)), (''pending'', count_json (qs_pending q))]"

definition stats_json :: "request_stats \<Rightarrow> json" where
  "stats_json st =
     (let counts = (\<lambda>d. JObj (map (\<lambda>(k, n). (k, JInt n)) d))
      in JObj [(''total_requests'', JInt (rs_total_requests st)), (''by_network_quality'', counts (rs_by_network_quality st)),
           (''by_cache_status'', counts (rs_by_cache_status st))])"

definition rules_json :: "framework \<Rightarrow> rule_table \<Rightarrow> json" where
  \<comment> \<open>\<^verbatim>\<open>model_dump\<close> of every rule\<close>
  "rules_json fw rules = JObj (map (\<lambda>(k, r). (fw_key fw k,
     JObj [(''cacheable'', JBool (rr_cacheable r)), (''cache_ttl'', JInt (rr_cache_ttl r)),
       (''optional_fields'', JArr (map JStr (rr_optional_fields r))),
       (''upstream_timeout'', case rr_upstream_timeout r of None \<Rightarrow> JNull | Some t \<Rightarrow> JFloat t),
       (''queue_writes'', JBool (rr_queue_writes r))])) rules)"

definition config_json :: "framework \<Rightarrow> config_view \<Rightarrow> json" where
  "config_json fw v = JObj [(''environment'', JStr (cv_environment v)), (''config_source'', JStr (cv_config_source v)),
     (''rtt_thresholds_ms'', JObj (map (\<lambda>(k, x). (k, JFloat x)) (cv_rtt_thresholds_ms v))),
     (''cache_ttls'', JObj (map (\<lambda>(k, n). (k, JInt n)) (cv_cache_ttls v))),
     (''upstream_services'', JObj (map (\<lambda>(k, u). (k, JStr u)) (cv_upstream_services v))),
     (''route_rules'', rules_json fw (cv_route_rules v))]"

definition reload_json :: "framework \<Rightarrow> string \<times> rule_table \<Rightarrow> json" where
  "reload_json fw x = JObj [(''reloaded'', JBool True), (''config_source'', JStr (fst x)), (''route_rules'', rules_json fw (snd x))]"

definition diagnosis_json :: "diagnosis \<Rightarrow> json" where
  "diagnosis_json d = JObj [(''redis'', JBool (dg_redis d)), (''database'', JBool (dg_database d)), (''queue_depth'', count_json (dg_queue_depth d))]"

definition flush_json :: "int \<times> string \<Rightarrow> json" where
  "flush_json x = JObj [(''deleted'', JInt (fst x)), (''pattern'', JStr (snd x))]"

section \<open>Bodies\<close>

definition str_field :: "json \<Rightarrow> string \<Rightarrow> string option" where
  \<comment> \<open>a required field of type \<^verbatim>\<open>str\<close>\<close>
  "str_field j name =
     (case j of JObj d \<Rightarrow> (case map_of d name of Some (JStr x) \<Rightarrow> Some x | _ \<Rightarrow> None) | _ \<Rightarrow> None)"

definition credentials_body :: "(string \<Rightarrow> string \<Rightarrow> (py_error, 'a) result) \<Rightarrow> json \<Rightarrow> (py_error, 'a) result" where
  "credentials_body model j =
     (case (str_field j ''email'', str_field j ''password'') of
        (Some email, Some password) \<Rightarrow> model email password
      | _ \<Rightarrow> Inl ValueError)"

definition text_body :: "string \<Rightarrow> (string \<Rightarrow> (py_error, 'a) result) \<Rightarrow> json \<Rightarrow> (py_error, 'a) result" where
  "text_body name model j = (case str_field j name of Some x \<Rightarrow> model x | None \<Rightarrow> Inl ValueError)"

definition reply_app :: "response \<Rightarrow> 'r app" where
  "reply_app resp st r = ((Inr resp, st, []), r)"

definition with_payload ::
  "framework \<Rightarrow> (json \<Rightarrow> (py_error, 'a) result) \<Rightarrow> body_read \<Rightarrow> ('a \<Rightarrow> 'r app) \<Rightarrow> 'r app" where
  \<comment> \<open>a body the model refuses is answered by the framework\<close>
  "with_payload fw model body k =
     (case body of
        Document j \<Rightarrow> (case model j of Inr x \<Rightarrow> k x | Inl _ \<Rightarrow> reply_app (fw_unprocessable fw))
      | _ \<Rightarrow> reply_app (fw_unprocessable fw))"

section \<open>Handlers\<close>

definition with_db :: "bool \<Rightarrow> ('a \<Rightarrow> response) \<Rightarrow> 'a transaction \<Rightarrow> 'r site app" where
  "with_db reached respond tx st s =
     (case session reached tx (si_db s) of (res, db) \<Rightarrow> ((route_answer respond res, st, []), s\<lparr>si_db := db\<rparr>))"

definition with_limit ::
  "('a \<Rightarrow> response) \<Rightarrow> (dbase \<Rightarrow> 'r \<Rightarrow> ((route_error, 'a) result \<times> dbase) \<times> 'r) \<Rightarrow> 'r site app" where
  \<comment> \<open>a route that consults the limiter before the database\<close>
  "with_limit respond op st s =
     (case op (si_db s) (site_redis s) of
        ((res, db), r) \<Rightarrow> ((route_answer respond res, st, []), set_redis r (s\<lparr>si_db := db\<rparr>)))"

definition with_redis :: "('a \<Rightarrow> response) \<Rightarrow> ('e \<Rightarrow> (py_error, response) result) \<Rightarrow> ('r \<Rightarrow> ('e, 'a) result \<times> 'r) \<Rightarrow> 'r site app" where
  "with_redis respond refuse c st s =
     (case c (site_redis s) of
        (res, r) \<Rightarrow> ((case res of Inr x \<Rightarrow> Inr (respond x) | Inl e \<Rightarrow> refuse e, st, []), set_redis r s))"

fun auth_handler ::
  "('r, 'ip) site_env \<Rightarrow> 'r moment \<Rightarrow> settings \<Rightarrow> request \<Rightarrow> body_read \<Rightarrow> auth_endpoint \<Rightarrow> 'r site app" where
  "auth_handler env mo cfg rq body RegisterRoute =
     with_payload (sx_framework env) (credentials_body (RegisterRequest (fw_valid_email (sx_framework env)))) body (\<lambda>payload.
       with_limit (\<lambda>u. json_reply 201 (user_json (sx_framework env) u))
         (register (we_kv (sx_worker env)) (sx_ip env) cfg (sx_auth env) (mo_limit mo) (mo_reached mo) (mo_commit mo) (mo_now mo)
            (mo_id mo) (mo_salt mo) payload rq))"
| "auth_handler env mo cfg rq body LoginRoute =
     with_payload (sx_framework env) (credentials_body (LoginRequest (fw_valid_email (sx_framework env)))) body (\<lambda>payload.
       with_limit (\<lambda>t. json_reply 200 (token_json t))
         (login (we_kv (sx_worker env)) (sx_ip env) cfg (sx_auth env) (mo_limit mo) (mo_reached mo) (mo_commit mo) (mo_now mo)
            (mo_random mo) (rg_email payload) (rg_password payload) rq))"
| "auth_handler env mo cfg rq body RefreshRoute =
     with_payload (sx_framework env) (text_body ''refresh_token'' RefreshRequest) body (\<lambda>presented.
       with_db (mo_reached mo) (\<lambda>t. json_reply 200 (token_json t))
         (refresh (sx_auth env) cfg (mo_commit mo) (mo_now mo) (mo_random mo) presented))"
| "auth_handler env mo cfg rq body LogoutRoute =
     with_payload (sx_framework env) (text_body ''refresh_token'' LogoutRequest) body (\<lambda>presented.
       with_db (mo_reached mo) (\<lambda>m. json_reply 200 (JObj [(''message'', JStr (mr_message m))]))
         (logout (sx_auth env) (mo_commit mo) presented))"

definition reload_app :: "('r, 'ip) site_env \<Rightarrow> 'r moment \<Rightarrow> 'r site app" where
  "reload_app env mo st s =
     (case reload_config ((mo_files mo)\<lparr>ce_bracket_ok := we_bracket_ok (sx_worker env)\<rparr>) (sx_upstreams env) (si_config s) of
        (res, cs) \<Rightarrow>
          ((route_answer (\<lambda>x. json_reply 200 (reload_json (sx_framework env) x)) res, st, []), s\<lparr>si_config := cs\<rparr>))"

fun flush_refusal :: "flush_error \<Rightarrow> (py_error, response) result" where
  "flush_refusal (FlushRefused e) = Inr (exception_response e)"
| "flush_refusal (FlushRedis e) = Inl LibraryError"

fun admin_handler ::
  "('r, 'ip) site_env \<Rightarrow> 'r moment \<Rightarrow> settings \<Rightarrow> request \<Rightarrow> body_read \<Rightarrow> admin_endpoint \<Rightarrow> string option \<Rightarrow> 'r site app" where
  "admin_handler env mo cfg rq body QueueRoute who =
     with_redis (\<lambda>q. json_reply 200 (queue_json q)) (\<lambda>_. Inl LibraryError)
       (get_queue_status (we_q (sx_worker env)) (sx_admin env) cfg)"
| "admin_handler env mo cfg rq body StatsRoute who =
     (\<lambda>st s. with_db (mo_reached mo) (\<lambda>x. json_reply 200 (stats_json x)) (\<lambda>db. (Inr (get_stats (lw_rows (si_writer s))), db)) st s)"
| "admin_handler env mo cfg rq body ConfigRoute who =
     (\<lambda>st s. reply_app (json_reply 200 (config_json (sx_framework env) (get_config (si_config s)))) st s)"
| "admin_handler env mo cfg rq body ReloadRoute who = reload_app env mo"
| "admin_handler env mo cfg rq body DiagnosticsRoute who =
     with_redis (\<lambda>d. json_reply 200 (diagnosis_json d)) (\<lambda>_ :: unit. Inl LibraryError)
       (\<lambda>r. apfst Inr (diagnostics (we_q (sx_worker env)) (sx_admin env) cfg (mo_reached mo) r))"
| "admin_handler env mo cfg rq body CreateKeyRoute who =
     with_payload (sx_framework env) (text_body ''name'' APIKeyCreate) body (\<lambda>name.
       with_db (mo_reached mo) (\<lambda>k. json_reply 201 (key_created_json (sx_framework env) k))
         (create_api_key (sx_auth env) (mo_commit mo) (mo_now mo) (mo_id mo) (mo_prefix mo) (mo_secret mo)
            (case who of Some w \<Rightarrow> w | None \<Rightarrow> []) name))"
| "admin_handler env mo cfg rq body ListKeysRoute who =
     with_db (mo_reached mo) (\<lambda>ks. json_reply 200 (JArr (map (\<lambda>k. JObj (key_fields (sx_framework env) k)) ks)))
       (\<lambda>db. (Inr (list_api_keys db), db))"
| "admin_handler env mo cfg rq body (RevokeKeyRoute key_id) who =
     (case fw_uuid (sx_framework env) key_id of
        None \<Rightarrow> reply_app (fw_unprocessable (sx_framework env))
      | Some i \<Rightarrow>
          with_db (mo_reached mo) (\<lambda>_. \<lparr>r_status = 204, r_headers = [], r_content = NoContent, r_media = None\<rparr>)
            (revoke_api_key (mo_commit mo) i))"
| "admin_handler env mo cfg rq body FlushRoute who =
     with_redis (\<lambda>x. json_reply 200 (flush_json x)) flush_refusal
       (flush_cache (we_kv (sx_worker env)) (sx_admin env) (mo_server mo) (fw_query (sx_framework env) (req_query rq) ''prefix''))"
| "admin_handler env mo cfg rq body CreateUserRoute who =
     with_payload (sx_framework env) (credentials_body (RegisterRequest (fw_valid_email (sx_framework env)))) body (\<lambda>payload.
       with_db (mo_reached mo) (\<lambda>u. json_reply 201 (user_json (sx_framework env) u))
         (create_admin_user (sx_auth env) (mo_commit mo) (mo_now mo) (mo_id mo) (mo_salt mo) payload))"

definition site_proxy_env :: "('r, 'ip) site_env \<Rightarrow> 'r site \<Rightarrow> ('r, 'ip) proxy_env" where
  "site_proxy_env env s =
     \<lparr>pe_worker = in_force env s, pe_codec = sx_codec env, pe_sha256 = sx_sha256 env, pe_ip = sx_ip env, pe_getaddrinfo = sx_getaddrinfo env\<rparr>"

definition proxy_handler ::
  "('r, 'ip) site_env \<Rightarrow> 'r moment \<Rightarrow> request \<Rightarrow> bytes list \<Rightarrow> string \<Rightarrow> string \<Rightarrow> 'r site app" where
  "proxy_handler env mo rq chunks service path st s =
     (case proxy (site_proxy_env env s) (mo_proxy mo) chunks service path rq
             \<lparr>ps_redis = site_redis s, ps_calls = [], ps_tasks = si_refreshes s, ps_request = st, ps_effects = []\<rparr> of
        (res, p) \<Rightarrow> ((map_sum raised id res, ps_request p, ps_effects p), set_redis (ps_redis p) (s\<lparr>si_refreshes := ps_tasks p\<rparr>)))"

section \<open>A request\<close>

fun message_body :: "asgi_message \<Rightarrow> bytes" where
  "message_body (HttpRequest body _) = body"
| "message_body HttpDisconnect = []"

definition site_stack :: "('r, 'ip) site_env \<Rightarrow> 'r moment \<Rightarrow> 'r site \<Rightarrow> ('r site, 'ip) stack_env" where
  "site_stack env mo s =
     \<lparr>se_cfg = cs_settings (si_config s), se_kv = lift_kv (we_kv (sx_worker env)), se_loads = we_loads (sx_worker env),
      se_dumps = we_dumps (sx_worker env), se_ip = sx_ip env, se_auth = sx_auth env,
      se_db = (if mo_reached mo then Some (si_db s) else None), se_opt = sx_opt env, se_bracket_ok = we_bracket_ok (sx_worker env)\<rparr>"

definition site_clock :: "'r stack_clock \<Rightarrow> 'r site stack_clock" where
  "site_clock ck =
     \<lparr>sk_rate = sk_rate ck, sk_start = sk_start ck, sk_load = sk_load ck, sk_finish = sk_finish ck,
      sk_schedule = map lift_attempt (sk_schedule ck), sk_auth = sk_auth ck, sk_label = sk_label ck\<rparr>"

definition site_handlers ::
  "('r, 'ip) site_env \<Rightarrow> 'r moment \<Rightarrow> request \<Rightarrow> 'r site \<Rightarrow> asgi_message list \<Rightarrow> 'r site handlers" where
  "site_handlers env mo rq s ms =
     (let cfg = cs_settings (si_config s); fw = sx_framework env;
          body = fw_body fw rq (concat (map message_body ms))
      in \<lparr>h_auth = auth_handler env mo cfg rq body, h_proxy = proxy_handler env mo rq (map message_body ms),
          h_admin = admin_handler env mo cfg rq body,
          h_unreadable = (if body = Unreadable then Some (fw_unprocessable fw) else None),
          h_generate_latest = fw_exposition fw (tk_metrics (si_task s)), h_content_type_latest = fw_exposition_type fw,
          h_other = reply_app (fw_unmatched fw rq)\<rparr>)"

definition enqueue_log :: "log_record \<Rightarrow> 'r site \<Rightarrow> 'r site" where
  "enqueue_log rec s = s\<lparr>si_writer := enqueue rec (si_writer s)\<rparr>"

fun absorb :: "effect \<Rightarrow> 'r site \<Rightarrow> 'r site" where
  \<comment> \<open>rows for the log go to the writer, everything else to the collectors\<close>
  "absorb (EnqueueLog rec) s = enqueue_log rec s"
| "absorb e s = s\<lparr>si_task := (si_task s)\<lparr>tk_metrics := observe e (tk_metrics (si_task s))\<rparr>\<rparr>"

fun reports :: "served \<Rightarrow> effect list" where
  "reports (Answered res st eff) = eff"
| "reports _ = []"

definition site_serve ::
  "('r, 'ip) site_env \<Rightarrow> 'r moment \<Rightarrow> asgi_scope \<Rightarrow> asgi_message list \<Rightarrow> request \<Rightarrow> 'r site \<Rightarrow> served \<times> 'r site" where
  "site_serve env mo scope messages rq s =
     (case serve (site_stack env mo s) (site_clock (mo_stack mo)) scope messages rq (site_handlers env mo rq s) s of
        (out, s1) \<Rightarrow> (out, fold absorb (reports out) s1))"

section \<open>Steps\<close>

definition run_refresh :: "('r, 'ip) site_env \<Rightarrow> proxy_clock \<Rightarrow> nat \<Rightarrow> 'r site \<Rightarrow> 'r site" where
  \<comment> \<open>a background task runs to its end, whatever comes of it, and leaves the set\<close>
  "run_refresh env ck i s =
     (case refresh_cache (site_proxy_env env s) ck (si_refreshes s ! i)
             \<lparr>ps_redis = site_redis s, ps_calls = [], ps_tasks = [], ps_request = fresh_state, ps_effects = []\<rparr> of
        (_, p) \<Rightarrow> fold absorb (ps_effects p)
          (set_redis (ps_redis p) (s\<lparr>si_refreshes := take i (si_refreshes s) @ drop (Suc i) (si_refreshes s)\<rparr>)))"

text \<open>
  A worker between two of its commands.  The commands are those of \<open>tick\<close>: new entries are read for the
  consumer, or idle ones claimed; every entry read becomes a copy that is handled later, by then
  perhaps acknowledged by another worker, or lost with its process.
\<close>

definition read_copies :: "'r worker_env \<Rightarrow> 'r redis_admin \<Rightarrow> string \<Rightarrow> ('r world, stream_entry list) io" where
  "read_copies env adm consumer =
     io_bind (redis_io (ensure_group adm (we_cfg env))) (\<lambda>_.
       redis_io (rq_xreadgroup (we_q env) (queue_stream_key (we_cfg env)) (queue_consumer_group (we_cfg env)) consumer 16))"

definition claim_copies :: "'r worker_env \<Rightarrow> string \<Rightarrow> int \<Rightarrow> ('r world, stream_entry list) io" where
  "claim_copies env consumer t w =
     io_bind (redis_io (rq_xautoclaim (we_q env) t (queue_stream_key (we_cfg env)) (queue_consumer_group (we_cfg env)) consumer
         (queue_claim_idle_seconds (we_cfg env) * 1000) (w_cursor w) 64))
       (\<lambda>(cursor, claimed) w'. (Inr (filter (\<lambda>e. snd e \<noteq> []) claimed), w'\<lparr>w_cursor := cursor\<rparr>)) w"

definition hold_copies :: "('r world, stream_entry list) io \<Rightarrow> 'r site \<Rightarrow> 'r site" where
  "hold_copies fetch s =
     (case fetch (tk_world (si_task s)) of
        (res, w) \<Rightarrow> s\<lparr>si_task := (si_task s)\<lparr>tk_world := w\<rparr>,
                       si_held := si_held s @ (case res of Inr es \<Rightarrow> es | Inl _ \<Rightarrow> [])\<rparr>)"

definition drop_copy :: "nat \<Rightarrow> 'r site \<Rightarrow> 'r site" where
  "drop_copy i s = s\<lparr>si_held := take i (si_held s) @ drop (Suc i) (si_held s)\<rparr>"

definition handle_copy :: "('r, 'ip) site_env \<Rightarrow> clock \<Rightarrow> nat \<Rightarrow> 'r site \<Rightarrow> 'r site" where
  "handle_copy env ck i s =
     drop_copy i (s\<lparr>si_task := (si_task s)\<lparr>tk_world :=
       snd (handle (in_force env s) ck (fst (si_held s ! i)) (snd (si_held s ! i)) (tk_world (si_task s)))\<rparr>\<rparr>)"

datatype 'r site_event =
    Served "'r moment" asgi_scope "asgi_message list" request
  | Polled string round_input \<comment> \<open>a whole round of the queue worker of this name\<close>
  | Reading string \<comment> \<open>a worker reads new entries\<close>
  | Claiming string int \<comment> \<open>or claims idle ones\<close>
  | Handling clock nat \<comment> \<open>a worker handles a copy\<close>
  | Losing nat \<comment> \<open>a worker dies with a copy\<close>
  | Logging writer_event
  | Refreshing nat proxy_clock
  | Cancelled
  | Operator bool int uuid string string string string \<comment> \<open>\<^verbatim>\<open>manage.py\<close>: commit, clock, identifier, salt, address, passwords\<close>

inductive site_step :: "('r, 'ip) site_env \<Rightarrow> 'r site_event \<Rightarrow> 'r site \<Rightarrow> 'r site \<Rightarrow> bool" for env where
  served: "site_step env (Served mo scope messages rq) s (snd (site_serve env mo scope messages rq s))"
| polled: "site_step env (Polled consumer inp) s
    (s\<lparr>si_task := worker_iteration (in_force env s) (sx_admin env) consumer inp (si_task s)\<rparr>)"
| reading: "site_step env (Reading consumer) s (hold_copies (read_copies (in_force env s) (sx_admin env) consumer) s)"
| claiming: "site_step env (Claiming consumer t) s (hold_copies (claim_copies (in_force env s) consumer t) s)"
| handling: "i < length (si_held s) \<Longrightarrow> site_step env (Handling ck i) s (handle_copy env ck i s)"
| losing: "site_step env (Losing i) s (drop_copy i s)"
| logging: "writer_step e (si_writer s) w \<Longrightarrow> \<forall>rec. e \<noteq> Enqueued rec \<Longrightarrow> site_step env (Logging e) s (s\<lparr>si_writer := w\<rparr>)"
| refreshing: "i < length (si_refreshes s) \<Longrightarrow> site_step env (Refreshing i ck) s (run_refresh env ck i s)"
| cancelled: "site_step env Cancelled s (s\<lparr>si_refreshes := []\<rparr>)"
| operator: "site_step env (Operator up now i salt email password again) s
    (s\<lparr>si_db := snd (manage_main (sx_auth env) (fw_valid_email (sx_framework env)) up now i salt email password again (si_db s))\<rparr>)"

inductive_cases site_stepE: "site_step env e s s'"

lemma meanwhile_simps [simp]:
  "sx_admin (meanwhile http db env) = sx_admin env" "sx_auth (meanwhile http db env) = sx_auth env"
  "sx_framework (meanwhile http db env) = sx_framework env" "sx_upstreams (meanwhile http db env) = sx_upstreams env"
  "sx_worker (meanwhile http db env) = outside http db (sx_worker env)"
  "in_force (meanwhile http db env) s = outside http db (in_force env s)"
  by (simp_all add: meanwhile_def in_force_def)

lemma worker_steps_same [simp]:
  "si_db (hold_copies fetch s) = si_db s" "si_config (hold_copies fetch s) = si_config s" "si_writer (hold_copies fetch s) = si_writer s"
  "si_refreshes (hold_copies fetch s) = si_refreshes s"
  "si_db (drop_copy i s) = si_db s" "si_config (drop_copy i s) = si_config s" "si_writer (drop_copy i s) = si_writer s"
  "si_refreshes (drop_copy i s) = si_refreshes s" "si_task (drop_copy i s) = si_task s"
  "si_db (handle_copy env ck i s) = si_db s" "si_config (handle_copy env ck i s) = si_config s"
  "si_writer (handle_copy env ck i s) = si_writer s" "si_refreshes (handle_copy env ck i s) = si_refreshes s"
  by (simp_all add: hold_copies_def drop_copy_def handle_copy_def split: prod.split)

end
