(* ===== verification/Pipeline.thy ===== *)
theory Pipeline
  imports Gateway
begin

text \<open>
  A request through the whole gateway: what the layers of \<open>Gateway\<close> guarantee together.  The lemmas
  show that the administration handlers have no influence on a request without an administrator's
  token, and that an answered request is reported exactly once, under the tier it was served for.
\<close>

section \<open>Administration through the stack\<close>

definition admin_credential :: "auth_lib \<Rightarrow> settings \<Rightarrow> dbase option \<Rightarrow> int \<Rightarrow> request \<Rightarrow> bool" where
  \<comment> \<open>a valid bearer token of an active account that is an administrator\<close>
  "admin_credential lib cfg dbo now rq =
     (\<exists>db payload subject user.
        dbo = Some db \<and> user \<in> set (db_users db) \<and> u_is_active user \<and> u_is_admin user \<and>
        decode_access_token lib cfg now (py_strip (drop 7 (header_or (req_headers rq) ''authorization'' []))) = Some payload \<and>
        map_of payload ''sub'' = Some (JStr subject) \<and> uuid_of_str subject = Inr (u_id user))"

lemma token_admin_credential:
  "token_identity lib cfg db now rq st \<Longrightarrow> st_is_admin st = Some True \<Longrightarrow> admin_credential lib cfg (Some db) now rq"
  by (auto simp: token_identity_def admin_credential_def)

lemma require_admin_ok:
  "require_admin st = Inr who \<Longrightarrow> st_authenticated st = Some True \<and> st_is_admin st = Some True"
  by (auto simp: require_admin_def require_principal_def split: if_splits sum.splits)

lemma guarded_handler_unreached:
  assumes "\<not> admin_credential lib cfg dbo now rq" "route (req_path rq) = AdminRoutes"
  shows "auth_dispatch lib cfg dbo now rq (optimizer_dispatch oenv cfg rq (router_app cfg hs rq)) =
    auth_dispatch lib cfg dbo now rq (optimizer_dispatch oenv cfg rq (router_app cfg (hs\<lparr>h_admin := h\<rparr>) rq))"
proof (intro ext)
  fix st :: request_state and r
  define st0 where "st0 = st\<lparr>st_authenticated := Some False, st_user_id := None, st_is_admin := Some False, st_auth_type := None\<rparr>"
  have "router_app cfg hs rq st1 r = router_app cfg (hs\<lparr>h_admin := h\<rparr>) rq st1 r"
    if "authenticate lib cfg dbo now rq st0 = Inr (Inr st1)" for st1
  proof -
    from that have "anonymous rq st1 \<or> (\<exists>db. dbo = Some db \<and> (token_identity lib cfg db now rq st1 \<or> key_identity lib db rq st1))"
      by (rule authenticate_identity) (simp_all add: st0_def)
    then have "\<exists>e. require_admin st1 = Inl e"
      using assms(1) require_admin_ok [of st1]
      by (cases "require_admin st1") (auto simp: anonymous_def key_identity_def dest: token_admin_credential)
    then show ?thesis using assms(2) by (auto simp: router_app_def admin_router_def split: option.split)
  qed
  then show "auth_dispatch lib cfg dbo now rq (optimizer_dispatch oenv cfg rq (router_app cfg hs rq)) st r =
    auth_dispatch lib cfg dbo now rq (optimizer_dispatch oenv cfg rq (router_app cfg (hs\<lparr>h_admin := h\<rparr>) rq)) st r"
    by (auto simp: auth_dispatch_def st0_def [symmetric] Let_def optimizer_dispatch_def split: sum.splits)
qed

lemma serve_unreached:
  assumes "\<not> admin_credential (se_auth env) (se_cfg env) (se_db env) (sk_auth ck) rq" "route (req_path rq) = AdminRoutes"
  shows "serve env ck scope messages rq hs r = serve env ck scope messages rq (\<lambda>ms. (hs ms)\<lparr>h_admin := h ms\<rparr>) r"
proof -
  have "stack_app env ck rq (router_app (se_cfg env) (hs ms) rq) =
      stack_app env ck rq (router_app (se_cfg env) ((hs ms)\<lparr>h_admin := h ms\<rparr>) rq)" for ms
    unfolding stack_app_nest wrap.simps
    using guarded_handler_unreached [OF assms, of "se_opt env" "hs ms" "h ms"] by simp
  then show ?thesis
    by (cases "body_limit (se_bracket_ok env) (se_cfg env) scope messages") (simp_all add: serve_def)
qed

section \<open>Reports through the stack\<close>

text \<open>What the detector reports of a request: the row for the log and the two counters.\<close>

fun reported :: "effect \<Rightarrow> bool" where
  "reported (EnqueueLog rec) = True"
| "reported (CountQuality q) = True"
| "reported (RecordRequest m l q c) = True"
| "reported e = False"

definition quiet_app :: "'r app \<Rightarrow> bool" where
  \<comment> \<open>an application that makes no such report itself and leaves the tier of the request alone\<close>
  "quiet_app app = (\<forall>st r res st' eff r'. app st r = ((res, st', eff), r') \<longrightarrow>
     filter reported eff = [] \<and> st_network_quality st' = st_network_quality st)"

lemma quiet_appD:
  "quiet_app app \<Longrightarrow> app st r = ((res, st', eff), r') \<Longrightarrow> filter reported eff = [] \<and> st_network_quality st' = st_network_quality st"
  unfolding quiet_app_def by blast

lemma optimize_quiet:
  "optimize env cfg rq resp st = Inr (resp', st', eff) \<Longrightarrow>
     filter reported eff = [] \<and> st_network_quality st' = st_network_quality st"
  by (auto simp: optimize_def Let_def split: sum.splits if_splits)

lemma quiet_optimizer:
  assumes "quiet_app app"
  shows "quiet_app (optimizer_dispatch oenv cfg rq app)"
  unfolding quiet_app_def
proof (intro allI impI)
  fix st r res st' eff r'
  assume run: "optimizer_dispatch oenv cfg rq app st r = ((res, st', eff), r')"
  obtain res1 st1 eff1 r1 where a: "app st r = ((res1, st1, eff1), r1)" by (metis prod_cases4 prod.exhaust)
  note q = quiet_appD [OF assms a]
  show "filter reported eff = [] \<and> st_network_quality st' = st_network_quality st"
  proof (cases res1)
    case (Inl e)
    then show ?thesis using run a q by (simp add: optimizer_dispatch_def)
  next
    case (Inr resp)
    then show ?thesis using run a q optimize_quiet [of oenv cfg rq resp st1]
      by (auto simp: optimizer_dispatch_def original_size_def split: if_splits sum.splits)
  qed
qed

lemma authenticate_quality:
  "authenticate lib cfg dbo now rq st0 = Inr (Inr st1) \<Longrightarrow> st_network_quality st1 = st_network_quality st0"
  by (auto simp: authenticate_def Let_def split: if_splits sum.splits option.splits)

lemma quiet_auth:
  assumes "quiet_app app"
  shows "quiet_app (auth_dispatch lib cfg dbo now rq app)"
  unfolding quiet_app_def
proof (intro allI impI)
  fix st :: request_state and r res st' eff r'
  assume run: "auth_dispatch lib cfg dbo now rq app st r = ((res, st', eff), r')"
  define st0 where "st0 = st\<lparr>st_authenticated := Some False, st_user_id := None, st_is_admin := Some False, st_auth_type := None\<rparr>"
  have q0: "st_network_quality st0 = st_network_quality st" by (simp add: st0_def)
  show "filter reported eff = [] \<and> st_network_quality st' = st_network_quality st"
  proof (cases "\<exists>st1. authenticate lib cfg dbo now rq st0 = Inr (Inr st1)")
    case True
    then obtain st1 where st1: "authenticate lib cfg dbo now rq st0 = Inr (Inr st1)" by blast
    then have "app st1 r = ((res, st', eff), r')" using run by (simp add: auth_dispatch_def st0_def [symmetric] Let_def)
    then show ?thesis using quiet_appD [OF assms] authenticate_quality [OF st1] q0 by simp
  next
    case False
    then show ?thesis using run q0 by (auto simp: auth_dispatch_def st0_def [symmetric] Let_def split: sum.splits)
  qed
qed

definition report :: "request \<Rightarrow> string \<Rightarrow> network_quality \<Rightarrow> request_state \<Rightarrow> effect list \<Rightarrow> bool" where
  \<comment> \<open>the log row of the request, if it has one, as the handler left it (its tier included), and one count of each kind under the tier\<close>
  "report rq label q st eff =
     (\<exists>rows. map (\<lambda>rec. (lg_method rec, lg_path rec, lg_network_quality rec, lg_cache_status rec, lg_status_code rec)) rows =
        (case st_request_log_record st of None \<Rightarrow> []
         | Some rec \<Rightarrow> [(lg_method rec, lg_path rec, lg_network_quality rec, lg_cache_status rec, lg_status_code rec)]) \<and>
        filter reported eff = map EnqueueLog rows @
          [CountQuality (quality_value q), RecordRequest (req_method rq) label (quality_value q) (st_served_from_cache st = Some True)])"

lemma finish_report:
  assumes "finish_request rq label q x elapsed upstream resp st rtt = (resp', st', own)" "filter reported eff = []"
  shows "report rq label q st' (eff @ own)" "st_network_quality st' = st_network_quality st"
    "header_get (r_headers resp') ''x-network-quality'' = Some (quality_value q)"
proof -
  show "report rq label q st' (eff @ own)"
  proof (cases "st_request_log_record st")
    case None
    then show ?thesis using assms by (auto simp: finish_request_def report_def Let_def)
  next
    case (Some rec)
    then show ?thesis using assms
      by (auto simp: finish_request_def report_def Let_def
          intro!: exI [of _ "[rec\<lparr>lg_rtt_ms := elapsed, lg_upstream_latency_ms := Some upstream,
            lg_response_size_optimized := Some (case st_response_size_optimized st of
              Some n \<Rightarrow> n | None \<Rightarrow> lg_response_size_original rec)\<rparr>]"])
  qed
  show "st_network_quality st' = st_network_quality st" using assms(1) by (auto simp: finish_request_def Let_def)
  show "header_get (r_headers resp') ''x-network-quality'' = Some (quality_value q)"
    by (rule finish_request_quality [OF assms(1)])
qed

lemma detector_report:
  assumes quiet: "quiet_app app" and path: "req_path rq \<notin> set detector_skip_paths"
    and run: "detector_dispatch ops loads dumps ipl cfg rq label app begun t_load fin schedule st r = ((res, st', eff), r')"
  shows "case res of Inl e \<Rightarrow> filter reported eff = []
    | Inr resp \<Rightarrow> \<exists>q. report rq label q st' eff \<and> st_network_quality st' = Some q \<and>
        header_get (r_headers resp) ''x-network-quality'' = Some (quality_value q)"
proof (cases "explicit_signal cfg (req_headers rq)")
  case (Inl e)
  then show ?thesis using run path by (auto simp: detector_dispatch_def Let_def)
next
  case (Inr explicit)
  let ?client = "client_ip ipl cfg (req_client rq) (header_get (req_headers rq) ''x-forwarded-for'')"
  obtain loaded r1 where l: "(case explicit of
      Some (q, x) \<Rightarrow> (Inr (q, x, False), r)
    | None \<Rightarrow> (case load_state ops loads t_load ?client r of
         (Inl e, r1) \<Rightarrow> (Inl e, r1)
       | (Inr s, r1) \<Rightarrow> (Inr (quality_of_tier (cur_tier s), None, True), r1))) = (loaded, r1)" by fastforce
  note run = run [unfolded detector_dispatch_def Let_def l Inr sum.case split_conv, simplified path if_False]
  show ?thesis
  proof (cases loaded)
    case (Inl e)
    then show ?thesis using run by auto
  next
    case ready: (Inr found)
    obtain q x learns where known: "found = (q, x, learns)" by (metis prod_cases3)
    obtain res2 st2 eff2 r2 where a: "app (st\<lparr>st_network_quality := Some q, st_request_start := Some begun,
        st_upstream_latency_ms := None\<rparr>) r1 = ((res2, st2, eff2), r2)" by (metis prod_cases4 prod.exhaust)
    have inner: "filter reported eff2 = []" "st_network_quality st2 = Some q" using quiet_appD [OF quiet a] by auto
    show ?thesis
    proof (cases res2)
      case (Inl e)
      then show ?thesis using run ready known a inner by auto
    next
      case resp: (Inr resp)
      obtain upd r3 where u: "(if learns then update_state ops loads dumps cfg ?client
          (case x of Some x \<Rightarrow> x | None \<Rightarrow> f_max (f_sub (server_elapsed_ms begun fin)
             (case st_upstream_latency_ms st2 of Some u \<Rightarrow> u | None \<Rightarrow> Fin 0)) (Fin 0)) schedule r2
        else (Inr (), r2)) = (upd, r3)" by fastforce
      obtain resp3 st3 own where f: "finish_request rq label q x (server_elapsed_ms begun fin)
          (case st_upstream_latency_ms st2 of Some u \<Rightarrow> u | None \<Rightarrow> Fin 0) resp st2
          (case x of Some x \<Rightarrow> x | None \<Rightarrow> f_max (f_sub (server_elapsed_ms begun fin)
             (case st_upstream_latency_ms st2 of Some u \<Rightarrow> u | None \<Rightarrow> Fin 0)) (Fin 0)) = (resp3, st3, own)"
        by (metis prod_cases3)
      note rep = finish_report [OF f inner(1)]
      show ?thesis using run inner rep by (cases upd) (auto simp: ready known a resp u f)
    qed
  qed
qed

lemma rate_limit_cases [consumes 1, case_names refused passed decorated]:
  assumes "rate_limit_dispatch ops ipl cfg t rq app st r = ((res, st', eff), r')"
  obtains resp where "res = Inr resp" "r_status resp \<in> {429, 503}" "st' = st" "eff = []"
  | r1 where "app st r1 = ((res, st', eff), r')"
  | r1 resp hs where "app st r1 = ((Inr resp, st', eff), r')" "res = Inr (resp\<lparr>r_headers := hs\<rparr>)"
      "header_get hs ''x-network-quality'' = header_get (r_headers resp) ''x-network-quality''"
proof (cases "list_ex (py_startswith (req_path rq)) rate_skip_prefixes")
  case True
  then show thesis using assms that(2) by (simp add: rate_limit_dispatch_def)
next
  case False
  let ?key = "''ratelimit:global:'' @ request_client_ip ipl cfg rq"
  obtain verdict r1 where c: "check_rate_limit ops cfg t ?key (global_rate_limit cfg) (global_rate_window_seconds cfg) r = (verdict, r1)"
    by fastforce
  note run = assms [unfolded rate_limit_dispatch_def Let_def c]
  show thesis
  proof (cases verdict)
    case (Inl e)
    then have "he_status e = 503" using c by (auto simp: check_rate_limit_def split: prod.splits sum.splits if_splits)
    then show thesis using run False Inl that(1) by (auto simp: json_error_def)
  next
    case (Inr v)
    obtain allowed remaining where v: "v = (allowed, remaining)" by fastforce
    obtain res1 st1 eff1 r2 where a: "app st r1 = ((res1, st1, eff1), r2)" by (metis prod_cases4 prod.exhaust)
    show thesis
    proof (cases "allowed \<and> is_ok res1")
      case True
      then obtain resp where "res1 = Inr resp" by (auto simp: is_ok_iff)
      then show thesis using run False Inr v a True that(3) [of r1 resp] by (auto simp: py_lower_rate_headers)
    next
      case False
      then show thesis using run \<open>\<not> list_ex _ _\<close> Inr v a that(1,2) by (cases res1) (auto simp: json_error_def split: if_splits)
    qed
  qed
qed

lemma stack_report:
  assumes quiet: "quiet_app app" and path: "req_path rq \<notin> set detector_skip_paths"
    and run: "stack_app env ck rq app st r = ((res, st', eff), r')"
  shows "case res of Inl e \<Rightarrow> filter reported eff = []
    | Inr resp \<Rightarrow>
        (\<exists>q. report rq (sk_label ck) q st' eff \<and> st_network_quality st' = Some q \<and>
          header_get (r_headers resp) ''x-network-quality'' = Some (quality_value q)) \<or>
        (rate_limit_enabled (se_cfg env) \<and> r_status resp \<in> {429, 503} \<and> eff = [])"
proof -
  have q: "quiet_app (wrap env ck rq AuthPopulate (wrap env ck rq ResponseOptimizer app))"
    using quiet by (simp add: quiet_auth quiet_optimizer)
  note inner = detector_report [OF q path]
  show ?thesis
  proof (cases "rate_limit_enabled (se_cfg env)")
    case False
    then have "wrap env ck rq NetworkDetector (wrap env ck rq AuthPopulate (wrap env ck rq ResponseOptimizer app)) st r = ((res, st', eff), r')"
      using run by (simp add: stack_app_nest)
    from inner [OF this [unfolded wrap.simps(2)]] show ?thesis by (cases res) auto
  next
    case True
    then have "rate_limit_dispatch (se_kv env) (se_ip env) (se_cfg env) (sk_rate ck) rq
        (wrap env ck rq NetworkDetector (wrap env ck rq AuthPopulate (wrap env ck rq ResponseOptimizer app))) st r = ((res, st', eff), r')"
      using run by (simp add: stack_app_nest)
    then show ?thesis
    proof (cases rule: rate_limit_cases)
      case (refused resp)
      then show ?thesis using True by simp
    next
      case (passed r1)
      from inner [OF passed [unfolded wrap.simps(2)]] show ?thesis by (cases res) auto
    next
      case (decorated r1 resp hs)
      from inner [OF decorated(1) [unfolded wrap.simps(2)]] decorated(2,3) show ?thesis by auto
    qed
  qed
qed

section \<open>The proxy route reports nothing itself\<close>

definition proxy_quiet :: "'r proxy_state \<Rightarrow> 'r proxy_state \<Rightarrow> bool" where
  "proxy_quiet s s' =
     (filter reported (ps_effects s') = filter reported (ps_effects s) \<and>
      st_network_quality (ps_request s') = st_network_quality (ps_request s))"

lemma proxy_quiet_rel: "reflp proxy_quiet" "transp proxy_quiet"
  by (auto simp: reflp_def transp_def proxy_quiet_def)

lemma log_request_quality [simp]:
  "st_network_quality (log_request ipl cfg rq now status code sz st) = st_network_quality st"
  by (simp add: log_request_def Let_def)

lemma quiet_steps:
  "\<not> reported e \<Longrightarrow> io_keeps proxy_quiet (emit e)"
  "(\<And>st. st_network_quality (f st) = st_network_quality st) \<Longrightarrow> io_keeps proxy_quiet (on_request f)"
  "io_keeps proxy_quiet (lookup_io env ck key)"
  "io_keeps proxy_quiet (queue_io m)"
  by (auto simp: io_keeps_def proxy_quiet_def emit_def on_request_def lookup_io_def queue_io_def split: prod.splits)

lemma call_upstream_quiet: "call_upstream env ck verb url hs body service b s = (res, s') \<Longrightarrow> proxy_quiet s s'"
  by (auto simp: call_upstream_def proxy_quiet_def Let_def)

lemma start_refresh_quiet: "io_keeps proxy_quiet (start_refresh env ck key target fwd service rule)"
  unfolding start_refresh_def Let_def
  by (intro io_keeps_bind [OF proxy_quiet_rel(2)] io_keeps_pure [OF proxy_quiet_rel(1)])
     (auto simp: io_keeps_def proxy_quiet_def split: prod.splits option.splits)

lemma serve_entry_quiet: "io_keeps proxy_quiet (serve_entry env ck rq entry status)"
  unfolding serve_entry_def
  by (cases "cr_body entry")
     (auto intro!: io_keeps_bind [OF proxy_quiet_rel(2)] io_keeps_pure [OF proxy_quiet_rel(1)] quiet_steps(2))

lemma get_miss_quiet: "io_keeps proxy_quiet (get_miss env ck rq service target rule fwd key cacheable)"
proof (rule io_keepsI)
  fix s res s' assume run: "get_miss env ck rq service target rule fwd key cacheable s = (res, s')"
  obtain up s1 where c: "call_upstream env ck ''GET'' target fwd [] service True s = (up, s1)" by fastforce
  have "proxy_quiet s1 s'"
    using run c by (cases up) (auto simp: get_miss_def Let_def proxy_quiet_def split: upstream_error.splits)
  then show "proxy_quiet s s'" using call_upstream_quiet [OF c] transpD [OF proxy_quiet_rel(2)] by blast
qed

lemma handle_get_quiet: "io_keeps proxy_quiet (handle_get env ck rq service target rule fwd)"
  unfolding handle_get_def Let_def
  by (intro io_keeps_bind [OF proxy_quiet_rel(2)])
     (auto simp: quiet_steps io_keeps_pure [OF proxy_quiet_rel(1)] split: prod.splits cache_status.splits option.splits
       intro!: io_keeps_bind [OF proxy_quiet_rel(2)] quiet_steps start_refresh_quiet serve_entry_quiet get_miss_quiet)

lemma queue_write_quiet: "queue_write env ck rq target fwd body s = (res, s') \<Longrightarrow> proxy_quiet s s'"
  by (auto simp: queue_write_def queue_io_def proxy_quiet_def split: prod.splits sum.splits if_splits)

lemma handle_write_quiet: "io_keeps proxy_quiet (handle_write env ck rq service target fwd body qw)"
proof (rule io_keepsI)
  fix s res s' assume run: "handle_write env ck rq service target fwd body qw s = (res, s')"
  let ?s0 = "s\<lparr>ps_request := (ps_request s)\<lparr>st_optimizable := Some False\<rparr>\<rparr>"
  obtain up s1 where c: "call_upstream env ck (req_method rq) target fwd body service True ?s0 = (up, s1)" by fastforce
  have "proxy_quiet s1 s'"
    using run c by (cases up) (auto simp: handle_write_def Let_def proxy_quiet_def [of s1] queue_write_quiet [unfolded proxy_quiet_def]
        split: if_splits)
  moreover have "proxy_quiet s ?s0" by (simp add: proxy_quiet_def)
  ultimately show "proxy_quiet s s'" using call_upstream_quiet [OF c] transpD [OF proxy_quiet_rel(2)] by blast
qed

lemma proxy_to_quiet: "io_keeps proxy_quiet (proxy_to env ck chunks service path base host rq)"
proof (rule io_keepsI)
  fix s res s' assume run: "proxy_to env ck chunks service path base host rq s = (res, s')"
  define s0 where "s0 = s\<lparr>ps_request := (ps_request s)
    \<lparr>st_optimizable := Some (req_method rq = ''GET'' \<and> \<not> header_in ''range'' (req_headers rq)),
     st_optional_fields := Some (rr_optional_fields (get_route_rule (we_rules (pe_worker env)) service)),
     st_served_from_cache := Some False\<rparr>\<rparr>"
  note run = run [unfolded proxy_to_def Let_def, folded s0_def]
  have 0: "proxy_quiet s s0" by (simp add: proxy_quiet_def s0_def)
  have "s' = s0 \<or> proxy_quiet s0 s'"
    using run by (auto dest: io_keepsD [OF handle_get_quiet] io_keepsD [OF handle_write_quiet] split: sum.splits if_splits)
  then show "proxy_quiet s s'" using 0 transpD [OF proxy_quiet_rel(2)] by blast
qed

lemma proxy_app_quiet: "quiet_app (proxy_app env ck chunks service path rq)"
proof -
  have "io_keeps proxy_quiet (proxy env ck chunks service path rq)"
    unfolding proxy_def by (auto simp: io_keeps_pure [OF proxy_quiet_rel(1)] proxy_to_quiet split: option.splits sum.splits)
  then show ?thesis
    by (auto simp: quiet_app_def proxy_app_def proxy_quiet_def dest!: io_keepsD split: prod.splits)
qed

section \<open>Properties\<close>

text \<open>
  C9.  Nothing reaches the administration without an administrator's token.  Whatever request comes
  in for a path below \<^verbatim>\<open>/admin\<close>, whatever its body, and whatever Redis and the clocks do: unless it
  carries a valid bearer token of an active account that is an administrator, the answer, the reports
  and everything done to Redis are the same for every choice of the administration handlers, through
  body limit, rate limiter, detector, authentication and optimizer.
\<close>

theorem admin_handlers_unreachable:
  assumes "route (req_path rq) = AdminRoutes" "\<not> admin_credential (se_auth env) (se_cfg env) (se_db env) (sk_auth ck) rq"
  shows "serve env ck scope messages rq hs r = serve env ck scope messages rq (\<lambda>ms. (hs ms)\<lparr>h_admin := h ms\<rparr>) r"
  using serve_unreached [OF assms(2,1)] .

text \<open>
  C18.  Every answer of the proxy is reported exactly once, under the tier it was shaped for.  When a
  request for an upstream gets past the body limit and is answered, the response names one tier,
  which is the tier the optimizer finds in the request; the log gets exactly one row if the handler
  left a record and none otherwise, and each of the two counters is raised exactly once under that
  tier.  The one exception is a refusal of the rate limiter, which reports nothing; and a request
  that raises reports nothing either.
\<close>

theorem every_answer_reported_once:
  assumes "proxy_route (req_method rq) (req_path rq) = Some (service, path)"
    and "h_proxy (hs ms) service path = proxy_app penv pck chunks service path rq"
    and "body_limit (se_bracket_ok env) (se_cfg env) scope messages = Forward ms"
    and "serve env ck scope messages rq hs r = (Answered res st' eff, r')"
  shows "case res of Inl e \<Rightarrow> filter reported eff = []
    | Inr resp \<Rightarrow>
        (\<exists>q. report rq (sk_label ck) q st' eff \<and> st_network_quality st' = Some q \<and>
          header_get (r_headers resp) ''x-network-quality'' = Some (quality_value q)) \<or>
        (rate_limit_enabled (se_cfg env) \<and> r_status resp \<in> {429, 503} \<and> eff = [])"
proof -
  have route: "route (req_path rq) = ProxyRoutes" by (rule proxy_route_router [OF assms(1)])
  then have path: "req_path rq \<notin> set detector_skip_paths"
    by (auto simp: route_def below_def detector_skip_paths_def split: if_splits)
  have quiet: "quiet_app (router_app (se_cfg env) (hs ms) rq)"
    using assms(1,2) route proxy_app_quiet by (simp add: router_app_def)
  have "stack_app env ck rq (router_app (se_cfg env) (hs ms) rq) fresh_state r = ((res, st', eff), r')"
    using assms(3,4) by (auto simp: serve_def split: prod.splits)
  from stack_report [OF quiet path this] show ?thesis .
qed

section \<open>Witnesses\<close>

definition demo_stack :: "(mem_redis, string) stack_env" where
  "demo_stack = \<lparr>se_cfg = default_settings, se_kv = mem_kv, se_loads = (\<lambda>_. Inl ValueError), se_dumps = (\<lambda>_. ''{}''),
     se_ip = demo_ip, se_auth = demo_auth_lib, se_db = Some demo_db, se_opt = demo_opt_env, se_bracket_ok = (\<lambda>_. True)\<rparr>"

definition demo_stack_clock :: "mem_redis stack_clock" where
  "demo_stack_clock = \<lparr>sk_rate = 0, sk_start = Fin 0, sk_load = 0, sk_finish = Fin 1, sk_schedule = [], sk_auth = 0, sk_label = ''/x''\<rparr>"

definition not_found :: "mem_redis app" where
  "not_found st r = ((Inr (json_error 404 ''Not Found''), st, []), r)"

definition demo_handlers :: "asgi_message list \<Rightarrow> mem_redis handlers" where
  "demo_handlers ms = \<lparr>h_auth = (\<lambda>_. not_found), h_proxy = (\<lambda>_ _. not_found), h_admin = (\<lambda>_ _. not_found),
     h_unreadable = None, h_generate_latest = [],
     h_content_type_latest = ''text/plain'', h_other = not_found\<rparr>"

definition wipe :: "admin_endpoint \<Rightarrow> string option \<Rightarrow> mem_redis app" where
  "wipe e who st r = ((Inr (json_error 200 ''wiped''), st, []), mem_empty)"

theorem admin_handlers_unreachable_witness:
  "serve demo_stack demo_stack_clock demo_scope [HttpRequest [] False] (demo_admin_request\<lparr>req_headers := []\<rparr>) demo_handlers mem_empty =
   serve demo_stack demo_stack_clock demo_scope [HttpRequest [] False] (demo_admin_request\<lparr>req_headers := []\<rparr>)
     (\<lambda>ms. (demo_handlers ms)\<lparr>h_admin := wipe\<rparr>) mem_empty"
proof (rule admin_handlers_unreachable)
  show "route (req_path (demo_admin_request\<lparr>req_headers := []\<rparr>)) = AdminRoutes"
    by (simp add: route_def below_def demo_admin_request_def)
  show "\<not> admin_credential (se_auth demo_stack) (se_cfg demo_stack) (se_db demo_stack) (sk_auth demo_stack_clock)
      (demo_admin_request\<lparr>req_headers := []\<rparr>)"
    by (simp add: admin_credential_def demo_stack_def demo_stack_clock_def header_or_def decode_access_token_def demo_auth_lib_def
        py_strip_def py_rstrip_by_def py_lstrip_by_def)
qed

definition read_request :: request where
  "read_request = demo_request\<lparr>req_path := ''/proxy/s/x''\<rparr>"

definition proxy_handlers :: "asgi_message list \<Rightarrow> mem_redis handlers" where
  "proxy_handlers ms = (demo_handlers ms)
     \<lparr>h_proxy := (\<lambda>service path. proxy_app (demo_proxy_env demo_page) demo_proxy_clock [] service path read_request)\<rparr>"

theorem every_answer_reported_once_witness:
  "\<exists>res st eff r. serve demo_stack demo_stack_clock demo_scope [HttpRequest [] False] read_request proxy_handlers mem_empty =
       (Answered res st eff, r) \<and>
     (case res of Inl e \<Rightarrow> filter reported eff = []
      | Inr resp \<Rightarrow> \<exists>q. report read_request ''/x'' q st eff \<and> header_get (r_headers resp) ''x-network-quality'' = Some (quality_value q))"
proof -
  let ?ms = "[HttpRequest [] False]"
  have body: "body_limit (se_bracket_ok demo_stack) (se_cfg demo_stack) demo_scope ?ms = Forward ?ms"
    using demo_host by (simp add: body_limit_def demo_stack_def demo_scope_def default_settings_def)
  have route: "proxy_route (req_method read_request) (req_path read_request) = Some (''s'', ''x'')"
    by (simp add: read_request_def demo_request_def) code_simp
  have handler: "h_proxy (proxy_handlers ?ms) ''s'' ''x'' = proxy_app (demo_proxy_env demo_page) demo_proxy_clock [] ''s'' ''x'' read_request"
    by (simp add: proxy_handlers_def)
  obtain res st eff r where "stack_app demo_stack demo_stack_clock read_request
      (router_app (se_cfg demo_stack) (proxy_handlers ?ms) read_request) fresh_state mem_empty = ((res, st, eff), r)"
    by (metis prod_cases4 prod.exhaust)
  then have run: "serve demo_stack demo_stack_clock demo_scope ?ms read_request proxy_handlers mem_empty = (Answered res st eff, r)"
    using body by (simp add: serve_def)
  from every_answer_reported_once [where hs = proxy_handlers, OF route handler body run] run show ?thesis
    by (cases res) (auto simp: demo_stack_clock_def demo_stack_def default_settings_def)
qed

end
