(* ===== verification/Task_Runs.thy ===== *)
theory Task_Runs
  imports Admin
begin

text \<open>
  Rounds of the polling task of \<^verbatim>\<open>gateway/offline_queue/sync_worker.py\<close>, each of which may end in an
  exception anywhere, and the handling of single copies of entries that a worker read before.  The
  locale \<open>redis_consumer_laws\<close> adds what the commands of consumer groups promise.  The lemmas carry the
  retry budget and the fate of a write from the handling of one entry to rounds; \<open>Queue_System\<close> carries
  them to the whole system.
\<close>

section \<open>Consumer groups\<close>

locale redis_consumer_laws = redis_queue_laws ops view qops hv sv
  for ops :: "'r redis_kv" and view :: "'r kv_view" and qops :: "'r redis_queue" and hv :: "'r hash_view" and sv :: "'r stream_view" +
  fixes adm :: "'r redis_admin"
  assumes group_same: "ra_xgroup_create adm st g r = (xg, r') \<Longrightarrow> hash_same hv r r' \<and> stream_same sv r r'"
    and xread_same: "rq_xreadgroup qops st g c n r = (xr, r') \<Longrightarrow> hash_same hv r r' \<and> stream_same sv r r'"
    and xread_reply: "rq_xreadgroup qops st g c n r = (Inr es, r') \<Longrightarrow> distinct (map fst (sv r st)) \<Longrightarrow>
      set es \<subseteq> set (sv r st) \<and> distinct (map fst es)"
    and xclaim_same: "rq_xautoclaim qops t st g c idle cur n r = (xc, r') \<Longrightarrow> hash_same hv r r' \<and> stream_same sv r r'"
    and xclaim_reply: "rq_xautoclaim qops t st g c idle cur n r = (Inr (cur', es), r') \<Longrightarrow> distinct (map fst (sv r st)) \<Longrightarrow>
      {e \<in> set es. snd e \<noteq> []} \<subseteq> set (sv r st) \<and> distinct (map fst es)"

interpretation memc: redis_consumer_laws mem_kv mem_view mem_queue m_hash m_stream mem_admin
proof unfold_locales
  fix st g c es n r r'
  assume "rq_xreadgroup mem_queue st g c n r = (Inr es, r')" "distinct (map fst (m_stream r st))"
  then show "set es \<subseteq> set (m_stream r st) \<and> distinct (map fst es)"
    by (auto simp: mem_queue_def take_map [symmetric] dest: in_set_takeD split: if_splits)
next
  fix t st g c idle cur n r cur' es r'
  assume "rq_xautoclaim mem_queue t st g c idle cur n r = (Inr (cur', es), r')" "distinct (map fst (m_stream r st))"
  then show "{e \<in> set es. snd e \<noteq> []} \<subseteq> set (m_stream r st) \<and> distinct (map fst es)"
    by (auto simp: mem_queue_def take_map [symmetric] dest: in_set_takeD split: if_splits)
qed (auto simp: mem_admin_def mem_queue_def hash_same_def stream_same_def split: if_splits)

section \<open>The stream only loses entries\<close>

definition shrinks :: "'r worker_env \<Rightarrow> 'r stream_view \<Rightarrow> 'r world \<Rightarrow> 'r world \<Rightarrow> bool" where
  "shrinks env sv w w' =
     (\<exists>P. sv (w_redis w') (queue_stream_key (we_cfg env)) = filter P (sv (w_redis w) (queue_stream_key (we_cfg env))))"

lemma shrinksI: "sv (w_redis w') = sv (w_redis w) \<Longrightarrow> shrinks env sv w w'"
  unfolding shrinks_def by (intro exI [of _ "\<lambda>_. True"]) simp

lemma shrinks_rel: "reflp (shrinks env sv)" "transp (shrinks env sv)"
proof -
  show "reflp (shrinks env sv)" by (rule reflpI) (simp add: shrinksI)
  show "transp (shrinks env sv)" by (rule transpI) (force simp: shrinks_def)
qed

lemma quiet_shrinks: "quiet hv sv w w' \<Longrightarrow> shrinks env sv w w'"
  by (rule shrinksI) (simp add: quiet_def)

lemma shrinks_distinct:
  assumes "shrinks env sv w w'" "distinct (map fst (sv (w_redis w) (queue_stream_key (we_cfg env))))"
  shows "distinct (map fst (sv (w_redis w') (queue_stream_key (we_cfg env))))"
    "set (sv (w_redis w') (queue_stream_key (we_cfg env))) \<subseteq> set (sv (w_redis w) (queue_stream_key (we_cfg env)))"
  using assms by (auto simp: shrinks_def distinct_map_filter)

context redis_queue_laws
begin

lemma ack_shrinks: "we_q env = qops \<Longrightarrow> io_keeps (shrinks env sv) (ack env m)"
proof (rule io_keepsI)
  fix w res w' assume "we_q env = qops" "ack env m w = (res, w')"
  from ack_run(3) [OF this] show "shrinks env sv w w'"
    using quiet_shrinks [of hv sv w w' env] by (auto simp: shrinks_def)
qed

lemma handle_shrinks:
  assumes env: "we_kv env = ops" "we_q env = qops" and run: "handle env ck m flds w = (res, w')"
  shows "shrinks env sv w w'"
proof (rule handle_keeps [OF env shrinks_rel _ _ ack_shrinks [OF env(2)] _ _ run])
  show "io_keeps (shrinks env sv) (replay_request env m flds hs)" for hs
    by (rule io_keepsI) (auto dest: replay_run(1) intro!: shrinksI)
qed (auto simp: io_keeps_def quiet_shrinks intro!: shrinksI dest: hset_run(1) dead_letter_effect(1))

end

section \<open>Rounds\<close>

abbreviation queue_of :: "'r worker_env \<Rightarrow> 'r stream_view \<Rightarrow> 'r world \<Rightarrow> stream_entry list" where
  "queue_of env sv w \<equiv> sv (w_redis w) (queue_stream_key (we_cfg env))"

definition entry_inv ::
  "'r worker_env \<Rightarrow> 'r hash_view \<Rightarrow> 'r stream_view \<Rightarrow> string \<Rightarrow> nat \<Rightarrow> (string, string) dict \<Rightarrow> 'r world \<Rightarrow> bool" where
  \<comment> \<open>identifiers are unique, the entry has the given fields, and its count covers what was sent, but for the stale copies\<close>
  "entry_inv env hv sv m n flds w =
     (budget_inv env hv sv m n w \<and> distinct (map fst (queue_of env sv w)) \<and> (\<forall>f. (m, f) \<in> set (queue_of env sv w) \<longrightarrow> f = flds))"

lemma quiet_entry:
  "quiet hv sv w w' \<Longrightarrow> entry_inv env hv sv m n flds w \<Longrightarrow>
     entry_inv env hv sv m n flds w' \<and> Sync_Worker.accounted env sv m flds w w'"
  by (auto simp: entry_inv_def quiet_accounted budget_inv_def stored_attempts_def quiet_def stream_ids_def sends_def)

lemma outside_same [simp]: "outside (we_http env) (we_db env) env = env"
  by simp

context redis_queue_laws
begin

text \<open>Handling a copy of any entry, in the stream or not, spends the budget of an entry as it should.\<close>

lemma handle_entry:
  assumes env: "we_kv env = ops" "we_q env = qops" "max_attempts env < int py_int_limit"
    and run: "handle env ck i f w = (res, w')" and inv: "entry_inv env hv sv m n flds w" and copy: "i = m \<Longrightarrow> f = flds"
  shows "entry_inv env hv sv m (n + (if i = m \<and> m \<notin> stream_ids env sv w then 1 else 0)) flds w' \<and>
    Sync_Worker.accounted env sv m flds w w'"
proof -
  have shr: "shrinks env sv w w'" by (rule handle_shrinks [OF env(1,2) run])
  have dist: "distinct (map fst (queue_of env sv w'))" "set (queue_of env sv w') \<subseteq> set (queue_of env sv w)"
    using shrinks_distinct [OF shr] inv by (auto simp: entry_inv_def)
  have "Sync_Worker.accounted env sv m flds w w'"
  proof (cases "i = m")
    case True
    then show ?thesis using handle_accounted [OF env(1,2) run] copy by simp
  next
    case False
    then show ?thesis
      using handle_accounted [OF env(1,2) run] handle_untouched [OF env(1,2) run False]
      by (auto simp: Sync_Worker.accounted_def untouched_def)
  qed
  moreover have "budget_inv env hv sv m (n + (if i = m \<and> m \<notin> stream_ids env sv w then 1 else 0)) w'"
    using handle_budget [OF env, where http = "we_http env" and db = "we_db env", of ck i f w res w'] run inv by (simp add: entry_inv_def)
  ultimately show ?thesis using dist inv by (auto simp: entry_inv_def)
qed

lemma handle_all_entry_step:
  assumes env: "we_kv env = ops" "we_q env = qops" "max_attempts env < int py_int_limit"
    and run: "handle_all env cks w = (res, w')" "distinct (map fst (map snd cks))"
    and present: "\<And>f. (m, f) \<in> set (map snd cks) \<Longrightarrow> (m, f) \<in> set (queue_of env sv w)"
    and inv: "entry_inv env hv sv m n flds w"
  shows "entry_inv env hv sv m n flds w' \<and> Sync_Worker.accounted env sv m flds w w'"
  using run present inv
proof (induction cks arbitrary: w)
  case Nil
  then show ?case by (simp add: io_return_def reflpD [OF accounted_refl])
next
  case (Cons x cks)
  obtain ck i f where x: "x = (ck, (i, f))" by (metis prod.exhaust)
  obtain r1 w1 where h: "handle env ck i f w = (r1, w1)" by fastforce
  have here: "i = m \<Longrightarrow> (m, f) \<in> set (queue_of env sv w)" using Cons.prems(3) x by auto
  then have "i = m \<Longrightarrow> f = flds" "\<not> (i = m \<and> m \<notin> stream_ids env sv w)"
    using Cons.prems(4) by (force simp: entry_inv_def stream_ids_def)+
  then have 1: "entry_inv env hv sv m n flds w1" "Sync_Worker.accounted env sv m flds w w1"
    using handle_entry [OF env h Cons.prems(4)] by auto
  show ?case
  proof (cases r1)
    case (Inl e)
    then show ?thesis using Cons.prems(1) x h 1 by (simp add: io_bind_def)
  next
    case (Inr u)
    then have rest: "handle_all env cks w1 = (res, w')" using Cons.prems(1) x h by (simp add: io_bind_def)
    have "(m, g) \<in> set (queue_of env sv w1)" if g: "(m, g) \<in> set (map snd cks)" for g
    proof -
      have ne: "i \<noteq> m" using g Cons.prems(2) x by force
      have "(m, g) \<in> set (queue_of env sv w)" using Cons.prems(3) g by simp
      moreover have "m \<in> stream_ids env sv w1"
        using handle_untouched [OF env(1,2) h ne] calculation by (force simp: untouched_def stream_ids_def)
      ultimately show ?thesis using 1(1) Cons.prems(4) by (auto simp: entry_inv_def stream_ids_def)
    qed
    then have "entry_inv env hv sv m n flds w' \<and> Sync_Worker.accounted env sv m flds w1 w'"
      using Cons.IH [OF rest] Cons.prems(2) 1(1) by simp
    then show ?thesis using 1(2) transpD [OF accounted_trans] by blast
  qed
qed

end

context redis_consumer_laws
begin

lemma command_quiet:
  assumes "redis_io c w = (res, w')" "\<And>q r'. c (w_redis w) = (q, r') \<Longrightarrow> hash_same hv (w_redis w) r' \<and> stream_same sv (w_redis w) r'"
  shows "quiet hv sv w w'"
  using assms(1) by (rule redis_ioE) (auto dest: assms(2) simp: quiet_def hash_same_def stream_same_def)

lemma batch_entry_step:
  assumes env: "we_kv env = ops" "we_q env = qops" "max_attempts env < int py_int_limit"
    and run: "handle_all env (zip cks es) w1 = (res, w')" "length es \<le> length cks"
    and before: "entry_inv env hv sv m n flds w" "quiet hv sv w w1"
    and reply: "set es \<subseteq> set (queue_of env sv w)" "distinct (map fst es)"
  shows "entry_inv env hv sv m n flds w' \<and> Sync_Worker.accounted env sv m flds w w'"
proof -
  have snd: "map snd (zip cks es) = es" using run(2) by (simp add: map_snd_zip_take)
  have "queue_of env sv w1 = queue_of env sv w" using before(2) by (simp add: quiet_def)
  moreover have q: "entry_inv env hv sv m n flds w1" "Sync_Worker.accounted env sv m flds w w1"
    using quiet_entry [OF before(2,1)] by auto
  ultimately have "entry_inv env hv sv m n flds w' \<and> Sync_Worker.accounted env sv m flds w1 w'"
    using reply by (intro handle_all_entry_step [OF env run(1)]) (auto simp: snd)
  then show ?thesis using q(2) transpD [OF accounted_trans] by blast
qed

lemma claim_entry_step:
  assumes env: "we_kv env = ops" "we_q env = qops" "max_attempts env < int py_int_limit"
    and run: "io_bind (redis_io (rq_xautoclaim qops t st g consumer idle cur k)) (\<lambda>(cursor, claimed) w'.
        handle_all env (zip (map clocks' [0..<length claimed]) (filter (\<lambda>e. snd e \<noteq> []) claimed)) (w'\<lparr>w_cursor := cursor\<rparr>)) w = (res, w')"
    and inv: "entry_inv env hv sv m n flds w" and st: "st = queue_stream_key (we_cfg env)"
  shows "entry_inv env hv sv m n flds w' \<and> Sync_Worker.accounted env sv m flds w w'"
  using run
proof (rule io_bindE)
  fix e assume "redis_io (rq_xautoclaim qops t st g consumer idle cur k) w = (Inl e, w')"
  then have "quiet hv sv w w'" by (rule command_quiet) (rule xclaim_same)
  then show ?thesis using inv by (rule quiet_entry)
next
  fix x w1
  assume c: "redis_io (rq_xautoclaim qops t st g consumer idle cur k) w = (Inr x, w1)"
    and h: "(\<lambda>(cursor, claimed) w'. handle_all env (zip (map clocks' [0..<length claimed]) (filter (\<lambda>e. snd e \<noteq> []) claimed))
      (w'\<lparr>w_cursor := cursor\<rparr>)) x w1 = (res, w')"
  obtain cursor claimed where x: "x = (cursor, claimed)" by fastforce
  have "quiet hv sv w w1" by (rule command_quiet [OF c]) (rule xclaim_same)
  then have q: "quiet hv sv w (w1\<lparr>w_cursor := cursor\<rparr>)" by (simp add: quiet_def)
  obtain r' where "rq_xautoclaim qops t st g consumer idle cur k (w_redis w) = (Inr (cursor, claimed), r')"
    using c x by (auto elim!: redis_ioE)
  from xclaim_reply [OF this] have "set (filter (\<lambda>e. snd e \<noteq> []) claimed) \<subseteq> set (queue_of env sv w)"
    "distinct (map fst (filter (\<lambda>e. snd e \<noteq> []) claimed))"
    using inv st by (auto simp: entry_inv_def distinct_map_filter)
  then show ?thesis using h x by (intro batch_entry_step [OF env _ _ inv q]) auto
qed

lemma tick_entry_step:
  assumes env: "we_kv env = ops" "we_q env = qops" "max_attempts env < int py_int_limit"
    and run: "tick env consumer t clocks clocks' w = (res, w')" and inv: "entry_inv env hv sv m n flds w"
  shows "entry_inv env hv sv m n flds w' \<and> Sync_Worker.accounted env sv m flds w w'"
  using run unfolding tick_def Let_def env(2)
proof (rule io_bindE)
  fix e assume "redis_io (rq_xreadgroup qops (queue_stream_key (we_cfg env)) (queue_consumer_group (we_cfg env)) consumer 16) w = (Inl e, w')"
  then have "quiet hv sv w w'" by (rule command_quiet) (rule xread_same)
  then show ?thesis using inv by (rule quiet_entry)
next
  fix new w1
  assume a: "redis_io (rq_xreadgroup qops (queue_stream_key (we_cfg env)) (queue_consumer_group (we_cfg env)) consumer 16) w = (Inr new, w1)"
    and rest: "io_bind (handle_all env (zip (map clocks [0..<length new]) new)) (\<lambda>_ w. io_bind (redis_io (rq_xautoclaim qops t
        (queue_stream_key (we_cfg env)) (queue_consumer_group (we_cfg env)) consumer (queue_claim_idle_seconds (we_cfg env) * 1000)
        (w_cursor w) 64)) (\<lambda>(cursor, claimed) w'. handle_all env (zip (map clocks' [0..<length claimed])
          (filter (\<lambda>e. snd e \<noteq> []) claimed)) (w'\<lparr>w_cursor := cursor\<rparr>)) w) w1 = (res, w')"
  have q: "quiet hv sv w w1" by (rule command_quiet [OF a]) (rule xread_same)
  obtain r' where "rq_xreadgroup qops (queue_stream_key (we_cfg env)) (queue_consumer_group (we_cfg env)) consumer 16 (w_redis w) = (Inr new, r')"
    using a by (auto elim!: redis_ioE)
  from xread_reply [OF this] have new: "set new \<subseteq> set (queue_of env sv w)" "distinct (map fst new)"
    using inv by (auto simp: entry_inv_def)
  have batch: "entry_inv env hv sv m n flds w2 \<and> Sync_Worker.accounted env sv m flds w w2"
    if "handle_all env (zip (map clocks [0..<length new]) new) w1 = (b, w2)" for b w2
    by (rule batch_entry_step [OF env that _ inv q new]) simp
  from rest show ?thesis
  proof (rule io_bindE)
    fix e assume "handle_all env (zip (map clocks [0..<length new]) new) w1 = (Inl e, w')"
    then show ?thesis by (rule batch)
  next
    fix u w2
    assume h: "handle_all env (zip (map clocks [0..<length new]) new) w1 = (Inr u, w2)"
      and c: "io_bind (redis_io (rq_xautoclaim qops t (queue_stream_key (we_cfg env)) (queue_consumer_group (we_cfg env)) consumer
        (queue_claim_idle_seconds (we_cfg env) * 1000) (w_cursor w2) 64)) (\<lambda>(cursor, claimed) w'. handle_all env
          (zip (map clocks' [0..<length claimed]) (filter (\<lambda>e. snd e \<noteq> []) claimed)) (w'\<lparr>w_cursor := cursor\<rparr>)) w2 = (res, w')"
    show ?thesis
      using claim_entry_step [OF env c] batch [OF h] transpD [OF accounted_trans [of env sv m flds]] by blast
  qed
qed

lemma ensure_group_quiet:
  assumes "redis_io (ensure_group adm cfg) w = (res, w')"
  shows "quiet hv sv w w'"
proof (rule command_quiet [OF assms])
  fix q r' assume e: "ensure_group adm cfg (w_redis w) = (q, r')"
  obtain x r1 where "ra_xgroup_create adm (queue_stream_key cfg) (queue_consumer_group cfg) (w_redis w) = (x, r1)" by fastforce
  moreover have "r' = r1" using e calculation by (auto simp: ensure_group_def split: sum.splits redis_error.splits if_splits)
  ultimately show "hash_same hv (w_redis w) r' \<and> stream_same sv (w_redis w) r'" using group_same by blast
qed

lemma round_entry_step:
  assumes env: "we_kv env = ops" "we_q env = qops" "max_attempts env < int py_int_limit"
    and run: "worker_round env adm consumer inp w = (res, w')" and inv: "entry_inv env hv sv m n flds w"
  shows "entry_inv env hv sv m n flds w' \<and> Sync_Worker.accounted env sv m flds w w'"
  using run unfolding worker_round_def
proof (rule io_bindE)
  fix e assume "redis_io (ensure_group adm (we_cfg env)) w = (Inl e, w')"
  from ensure_group_quiet [OF this] inv show ?thesis by (rule quiet_entry)
next
  fix x w1 assume g: "redis_io (ensure_group adm (we_cfg env)) w = (Inr x, w1)"
    and t: "tick env consumer (ri_server inp) (ri_new inp) (ri_claimed inp) w1 = (res, w')"
  from quiet_entry [OF ensure_group_quiet [OF g] inv] tick_entry_step [OF env t]
  show ?thesis using transpD [OF accounted_trans] by blast
qed

lemma sample_quiet:
  assumes "we_q env = qops"
  shows "quiet hv sv (tk_world tk) (tk_world (sample_depth env now tk))"
proof -
  obtain x r' where x: "rq_xlen qops (queue_stream_key (we_cfg env)) (w_redis (tk_world tk)) = (x, r')" by fastforce
  from xlen_same [OF x] x assms show ?thesis
    by (cases x) (auto simp: sample_depth_def queue_depth_def quiet_def hash_same_def stream_same_def)
qed

lemma iteration_entry_step:
  assumes env: "we_kv env = ops" "we_q env = qops" "max_attempts env < int py_int_limit"
    and inv: "entry_inv env hv sv m n flds (tk_world tk)"
  shows "entry_inv env hv sv m n flds (tk_world (worker_iteration env adm consumer inp tk)) \<and>
    Sync_Worker.accounted env sv m flds (tk_world tk) (tk_world (worker_iteration env adm consumer inp tk))"
proof -
  obtain res w1 where r: "worker_round env adm consumer inp (tk_world tk) = (res, w1)" by fastforce
  have 1: "entry_inv env hv sv m n flds w1" "Sync_Worker.accounted env sv m flds (tk_world tk) w1"
    using round_entry_step [OF env r inv] by auto
  have "quiet hv sv w1 (tk_world (worker_iteration env adm consumer inp tk))"
    using sample_quiet [OF env(2), of "tk\<lparr>tk_world := w1\<rparr>"] r by (simp add: worker_iteration_def)
  from quiet_entry [OF this 1(1)] 1(2) show ?thesis using transpD [OF accounted_trans] by blast
qed

end

section \<open>Other activity\<close>

definition other_activity ::
  "'r worker_env \<Rightarrow> 'r hash_view \<Rightarrow> 'r stream_view \<Rightarrow> string \<Rightarrow> 'r world \<Rightarrow> 'r world \<Rightarrow> bool" where
  \<comment> \<open>anything that leaves the entry alone: new entries, other entries handled, rows and requests added\<close>
  "other_activity env hv sv m w w' =
     (untouched env hv sv m w w' \<and> prefix (w_sent w) (w_sent w') \<and> prefix (w_failed w) (w_failed w') \<and>
      distinct (map fst (queue_of env sv w')) \<and>
      (\<forall>f. (m, f) \<in> set (queue_of env sv w') \<longrightarrow> (m, f) \<in> set (queue_of env sv w)))"

lemma other_entry:
  assumes "other_activity env hv sv m w w'" "entry_inv env hv sv m n flds w"
  shows "entry_inv env hv sv m n flds w' \<and> Sync_Worker.accounted env sv m flds w w'"
  using assms by (auto simp: other_activity_def entry_inv_def untouched_def budget_inv_def stored_attempts_def Sync_Worker.accounted_def)

section \<open>An example\<close>

definition demo_task :: "mem_redis sync_task" where
  "demo_task = \<lparr>tk_world = demo_queue_world, tk_last_sample = Fin 0, tk_metrics = metrics_init\<rparr>"

definition demo_round :: round_input where
  "demo_round = \<lparr>ri_server = 0, ri_new = (\<lambda>_. demo_clock), ri_claimed = (\<lambda>_. demo_clock), ri_monotonic = Fin 100\<rparr>"

end
