(* ===== verification/System.thy ===== *)
theory System
  imports Site Pipeline Task_Runs
begin

text \<open>
  Properties of the gateway as one system, over any sequence of its steps: requests through the whole
  application, rounds of the queue worker, the log writer, background refreshes and the operator's
  command.  The frame locales are interpreted on the state of the system, so that one lemma per
  handler carries a relation through the middleware.  The lemmas show that privileges come only from
  administrators and that the stores stay consistent.
\<close>

section \<open>Relations that Redis does not touch\<close>

lemma on_redis_blind: "(\<And>s r. R s (set_redis r s)) \<Longrightarrow> command_keeps R (on_redis c)"
  by (rule command_keepsI) (auto simp: on_redis_def split: prod.splits)

lemma redis_blind_frame:
  assumes "\<And>s. R s s" "\<And>s s1 s2. R s s1 \<Longrightarrow> R s1 s2 \<Longrightarrow> R s s2" "\<And>s r. R s (set_redis r s)"
  shows "kv_frame R (lift_kv ops)"
  by unfold_locales (auto simp: lift_kv_def intro!: on_redis_blind assms(3) intro: assms(1,2))

lemma app_keeps_reply: "(\<And>s. R s s) \<Longrightarrow> app_keeps R (reply_app resp)"
  by (rule app_keepsI) (auto simp: reply_app_def)

lemma app_keeps_payload:
  "(\<And>s. R s s) \<Longrightarrow> (\<And>x. app_keeps R (k x)) \<Longrightarrow> app_keeps R (with_payload fw model body k)"
  by (auto simp: with_payload_def app_keeps_reply split: body_read.split sum.split)

lemma app_keeps_db:
  "(\<And>s. R s s) \<Longrightarrow> (\<And>s res db. tx (si_db s) = (res, db) \<Longrightarrow> R s (s\<lparr>si_db := db\<rparr>)) \<Longrightarrow> app_keeps R (with_db reached respond tx)"
  by (rule app_keepsI) (auto simp: with_db_def session_def split: prod.splits if_splits)

lemma app_keeps_limit:
  assumes "\<And>s res db r. op (si_db s) (site_redis s) = ((res, db), r) \<Longrightarrow> R s (set_redis r (s\<lparr>si_db := db\<rparr>))"
  shows "app_keeps R (with_limit respond op)"
  by (rule app_keepsI) (auto simp: with_limit_def dest!: assms split: prod.splits)

lemma app_keeps_redis:
  assumes "\<And>s res r. c (site_redis s) = (res, r) \<Longrightarrow> R s (set_redis r s)"
  shows "app_keeps R (with_redis respond refuse c)"
  by (rule app_keepsI) (auto simp: with_redis_def dest!: assms split: prod.splits)

lemma absorb_same [simp]:
  "si_db (absorb e s) = si_db s" "si_config (absorb e s) = si_config s" "site_redis (absorb e s) = site_redis s"
  "si_refreshes (absorb e s) = si_refreshes s" "si_held (absorb e s) = si_held s" "tk_world (si_task (absorb e s)) = tk_world (si_task s)"
  by (cases e; simp add: enqueue_log_def site_redis_def)+

lemma fold_absorb_same [simp]:
  "si_db (fold absorb es s) = si_db s" "si_config (fold absorb es s) = si_config s" "site_redis (fold absorb es s) = site_redis s"
  "si_refreshes (fold absorb es s) = si_refreshes s" "si_held (fold absorb es s) = si_held s" "tk_world (si_task (fold absorb es s)) = tk_world (si_task s)"
  by (induction es arbitrary: s) simp_all

section \<open>Privileges\<close>

definition no_new_power :: "'r site \<Rightarrow> 'r site \<Rightarrow> bool" where
  \<comment> \<open>accounts are only added, none of them an administrator; keys and configuration stay\<close>
  "no_new_power s s' =
     ((\<exists>new. db_users (si_db s') = db_users (si_db s) @ new \<and> list_all (\<lambda>u. \<not> u_is_admin u) new) \<and>
      db_keys (si_db s') = db_keys (si_db s) \<and> si_config s' = si_config s)"

lemma no_new_power_refl: "no_new_power s s"
  by (simp add: no_new_power_def)

lemma no_new_power_trans: "no_new_power s s1 \<Longrightarrow> no_new_power s1 s2 \<Longrightarrow> no_new_power s s2"
  by (force simp: no_new_power_def)

interpretation power: kv_frame no_new_power "lift_kv ops" for ops
  by (rule redis_blind_frame) (auto intro: no_new_power_refl no_new_power_trans simp: no_new_power_def)

lemma register_user_adds:
  "register_user lib up now i salt payload db = (res, db') \<Longrightarrow>
     db_keys db' = db_keys db \<and> (db_users db' = db_users db \<or> (\<exists>u. \<not> u_is_admin u \<and> db_users db' = db_users db @ [u]))"
  by (auto simp: register_user_def http_fail_def add_user_def commit_def Let_def split: sum.splits option.splits if_splits)

lemma finish_tables:
  assumes "finish up db1 x db = (res, db')"
  shows "db' = db \<or> db' = db1"
  using assms by (auto simp: finish_def commit_def split: sum.splits if_splits)

lemma issue_tokens_tables: "issue_tokens lib cfg now random user db = (x, db1) \<Longrightarrow> db_users db1 = db_users db \<and> db_keys db1 = db_keys db"
  by (auto simp: issue_tokens_def split: prod.splits)

lemma token_routes_tables:
  "login_user lib cfg up now random email password db = (lres, db') \<Longrightarrow> db_users db' = db_users db \<and> db_keys db' = db_keys db"
  "refresh lib cfg up now random presented db = (rres, db') \<Longrightarrow> db_users db' = db_users db \<and> db_keys db' = db_keys db"
  "logout lib up presented db = (ores, db') \<Longrightarrow> db_users db' = db_users db \<and> db_keys db' = db_keys db"
proof -
  show "db_users db' = db_users db \<and> db_keys db' = db_keys db"
    if "login_user lib cfg up now random email password db = (lres, db')"
    using that by (auto simp: login_user_def http_fail_def dest!: finish_tables issue_tokens_tables
        split: sum.splits option.splits if_splits prod.splits)
  show "db_users db' = db_users db \<and> db_keys db' = db_keys db"
    if "refresh lib cfg up now random presented db = (rres, db')"
    using that by (auto simp: refresh_def Let_def http_fail_def revoke_where_def commit_def dest!: finish_tables issue_tokens_tables
        split: sum.splits option.splits if_splits prod.splits)
  show "db_users db' = db_users db \<and> db_keys db' = db_keys db" if "logout lib up presented db = (ores, db')"
    using that by (auto simp: logout_def revoke_where_def dest!: finish_tables)
qed

lemma auth_handler_power: "app_keeps no_new_power (auth_handler env mo cfg rq body e)"
proof (cases e)
  case RegisterRoute
  have "no_new_power s (set_redis r (s\<lparr>si_db := db\<rparr>))"
    if "register ops ipl cfg lib t reached up now i salt p rq (si_db s) (site_redis s) = ((res, db), r)"
    for ops ipl lib t reached up now i salt p s res db r
    using that by (auto simp: register_def limited_def session_def answer_def no_new_power_def map_prod_def
        dest!: register_user_adds split: prod.splits sum.splits if_splits)
  then show ?thesis using RegisterRoute no_new_power_refl by (auto intro!: app_keeps_payload app_keeps_limit)
next
  case LoginRoute
  have "no_new_power s (set_redis r (s\<lparr>si_db := db\<rparr>))"
    if "login ops ipl cfg lib t reached up now random email password rq (si_db s) (site_redis s) = ((res, db), r)"
    for ops ipl lib t reached up now random email password s res db r
    using that by (auto simp: login_def limited_def session_def no_new_power_def
        dest!: token_routes_tables(1) split: prod.splits sum.splits if_splits)
  then show ?thesis using LoginRoute no_new_power_refl by (auto intro!: app_keeps_payload app_keeps_limit)
next
  case RefreshRoute
  then show ?thesis using no_new_power_refl
    by (auto intro!: app_keeps_payload app_keeps_db simp: no_new_power_def dest: token_routes_tables(2))
next
  case LogoutRoute
  then show ?thesis using no_new_power_refl
    by (auto intro!: app_keeps_payload app_keeps_db simp: no_new_power_def dest: token_routes_tables(3))
qed

lemma proxy_handler_stores:
  "proxy_handler env mo rq chunks service path st s = (x, s') \<Longrightarrow>
     si_db s' = si_db s \<and> si_config s' = si_config s \<and> si_writer s' = si_writer s"
  by (auto simp: proxy_handler_def split: prod.splits)

lemma site_handlers_simps [simp]:
  "h_auth (site_handlers env mo rq s ms) = auth_handler env mo (cs_settings (si_config s)) rq (fw_body (sx_framework env) rq (concat (map message_body ms)))"
  "h_proxy (site_handlers env mo rq s ms) = proxy_handler env mo rq (map message_body ms)"
  "h_admin (site_handlers env mo rq s ms) = admin_handler env mo (cs_settings (si_config s)) rq (fw_body (sx_framework env) rq (concat (map message_body ms)))"
  "h_other (site_handlers env mo rq s ms) = reply_app (fw_unmatched (sx_framework env) rq)"
  by (simp_all add: site_handlers_def Let_def)

lemma site_stack_simps [simp]:
  "se_kv (site_stack env mo s) = lift_kv (we_kv (sx_worker env))" "se_cfg (site_stack env mo s) = cs_settings (si_config s)"
  "se_auth (site_stack env mo s) = sx_auth env" "se_db (site_stack env mo s) = (if mo_reached mo then Some (si_db s) else None)"
  by (simp_all add: site_stack_def)

lemma site_clock_simps [simp]:
  "sk_schedule (site_clock ck) = map lift_attempt (sk_schedule ck)" "sk_auth (site_clock ck) = sk_auth ck"
  by (simp_all add: site_clock_def)

text \<open>Administration handlers do not matter where no administrator asks.\<close>

lemma serve_admin_free:
  assumes "\<not> (route (req_path rq) = AdminRoutes \<and> admin_credential (se_auth env) (se_cfg env) (se_db env) (sk_auth ck) rq)"
  shows "serve env ck scope messages rq hs r = serve env ck scope messages rq (\<lambda>ms. (hs ms)\<lparr>h_admin := h ms\<rparr>) r"
proof (cases "route (req_path rq) = AdminRoutes")
  case True
  then show ?thesis using assms by (intro serve_unreached) simp_all
next
  case False
  then have "router_app cfg ((hs ms)\<lparr>h_admin := h ms\<rparr>) rq = router_app cfg (hs ms) rq" for cfg ms
    by (cases "route (req_path rq)") (simp_all add: router_app_def metrics_response_def split: option.split)
  then show ?thesis by (simp add: serve_def split: body_outcome.split)
qed

abbreviation admin_request :: "('r, 'ip) site_env \<Rightarrow> 'r moment \<Rightarrow> request \<Rightarrow> 'r site \<Rightarrow> bool" where
  \<comment> \<open>a request for the administration with an administrator's token\<close>
  "admin_request env mo rq s \<equiv> route (req_path rq) = AdminRoutes \<and>
     admin_credential (sx_auth env) (cs_settings (si_config s)) (if mo_reached mo then Some (si_db s) else None) (sk_auth (mo_stack mo)) rq"

lemma lift_attempt_same: "a \<in> lift_attempt ` A \<Longrightarrow> at_env a s = s"
  by (auto simp: lift_attempt_def)

lemma served_power:
  assumes "\<not> admin_request env mo rq s"
  shows "no_new_power s (snd (site_serve env mo scope messages rq s))"
proof -
  let ?h = "\<lambda>ms e who. reply_app (fw_unprocessable (sx_framework env)) :: 'r site app"
  obtain out s1 where run: "serve (site_stack env mo s) (site_clock (mo_stack mo)) scope messages rq (site_handlers env mo rq s) s = (out, s1)"
    by fastforce
  then have run': "serve (site_stack env mo s) (site_clock (mo_stack mo)) scope messages rq
      (\<lambda>ms. (site_handlers env mo rq s ms)\<lparr>h_admin := ?h ms\<rparr>) s = (out, s1)"
    using serve_admin_free [of rq "site_stack env mo s" "site_clock (mo_stack mo)"] assms by simp
  have proxy: "app_keeps no_new_power (proxy_handler env mo rq chunks service path)" for chunks service path
    by (rule app_keepsI) (auto simp: no_new_power_def dest!: proxy_handler_stores)
  have "app_keeps no_new_power (router_app cfg ((site_handlers env mo rq s ms)\<lparr>h_admin := ?h ms\<rparr>) rq)" for cfg ms
    by (rule power.router_keeps) (simp_all add: auth_handler_power proxy app_keeps_reply no_new_power_refl)
  then have "command_keeps no_new_power (serve (site_stack env mo s) (site_clock (mo_stack mo)) scope messages rq
      (\<lambda>ms. (site_handlers env mo rq s ms)\<lparr>h_admin := ?h ms\<rparr>))"
    by (intro power.serve_keeps [where ops = "we_kv (sx_worker env)"]) (simp_all add: lift_attempt_same no_new_power_refl)
  then have "no_new_power s s1" using run' by (rule command_keepsD)
  then show ?thesis using run by (simp add: site_serve_def no_new_power_def)
qed

fun ordinary :: "('r, 'ip) site_env \<Rightarrow> 'r site \<Rightarrow> 'r site_event \<Rightarrow> bool" where
  \<comment> \<open>neither an administrator's request nor the operator\<close>
  "ordinary env s (Served mo scope messages rq) = (\<not> admin_request env mo rq s)"
| "ordinary env s (Operator up now i salt email password again) = False"
| "ordinary env s e = True"

lemma worker_iteration_site [simp]:
  "si_db (s\<lparr>si_task := tk\<rparr>) = si_db s" "si_config (s\<lparr>si_task := tk\<rparr>) = si_config s"
  by simp_all

lemma run_refresh_stores [simp]:
  "si_db (run_refresh env ck i s) = si_db s" "si_config (run_refresh env ck i s) = si_config s"
  by (simp_all add: run_refresh_def split: prod.split)

lemma ordinary_step_power:
  assumes "site_step env e s s'" "ordinary env s e"
  shows "no_new_power s s'"
  using assms by (cases rule: site_step.cases) (auto simp: served_power, auto simp: no_new_power_def)

lemma ordinary_meanwhile [simp]: "ordinary (meanwhile http db env) s e = ordinary env s e"
  by (cases e) simp_all

inductive ordinary_run :: "('r, 'ip) site_env \<Rightarrow> 'r site \<Rightarrow> 'r site \<Rightarrow> bool" for env where
  ordinary_nil: "ordinary_run env s s"
| ordinary_snoc: "ordinary_run env s s1 \<Longrightarrow> site_step (meanwhile http db env) e s1 s2 \<Longrightarrow> ordinary env s1 e \<Longrightarrow> ordinary_run env s s2"

section \<open>Consistency\<close>

definition lasting :: "(string \<Rightarrow> bool) \<Rightarrow> 'r site \<Rightarrow> 'r site \<Rightarrow> bool" where
  \<comment> \<open>what no step takes back; the argument is the check of a bracketed host\<close>
  "lasting b s s' =
     (tokens_kept (si_db s) (si_db s') \<and> (constraints_ok (si_db s) \<longrightarrow> constraints_ok (si_db s')) \<and>
      (policy_ok b (si_config s) \<longrightarrow> policy_ok b (si_config s')) \<and>
      (\<exists>ups. cs_settings (si_config s') = (cs_settings (si_config s))\<lparr>upstream_services := ups\<rparr>))"

definition steady :: "(string \<Rightarrow> bool) \<Rightarrow> 'r site \<Rightarrow> 'r site \<Rightarrow> bool" where
  \<comment> \<open>a handler besides leaves the log writer alone\<close>
  "steady b s s' = (lasting b s s' \<and> si_writer s' = si_writer s)"

lemma settings_same: "\<exists>ups. cfg = cfg\<lparr>upstream_services := ups\<rparr>" for cfg :: settings
  by (intro exI [of _ "upstream_services cfg"]) simp

lemma lastingI_same: "si_db s' = si_db s \<Longrightarrow> si_config s' = si_config s \<Longrightarrow> lasting b s s'"
  by (simp add: lasting_def settings_same)

lemma lasting_trans: "lasting b s s1 \<Longrightarrow> lasting b s1 s2 \<Longrightarrow> lasting b s s2"
  by (auto simp: lasting_def intro: tokens_kept_trans)

lemma steady_refl: "steady b s s"
  by (simp add: steady_def lastingI_same)

lemma steady_trans: "steady b s s1 \<Longrightarrow> steady b s1 s2 \<Longrightarrow> steady b s s2"
  by (auto simp: steady_def intro: lasting_trans)

lemma steadyI_same: "si_db s' = si_db s \<Longrightarrow> si_config s' = si_config s \<Longrightarrow> si_writer s' = si_writer s \<Longrightarrow> steady b s s'"
  by (simp add: steady_def lastingI_same)

interpretation steady: kv_frame "steady b" "lift_kv ops" for b ops
  by (rule redis_blind_frame) (auto intro: steady_refl steady_trans steadyI_same)

lemma steady_account:
  assumes "account_step lib cfg (si_db s) db"
  shows "steady b s (s\<lparr>si_db := db\<rparr>)"
  using account_step_kept [OF assms] account_step_constraints [OF assms] by (simp add: steady_def lasting_def settings_same)

lemma steady_redis: "steady b s s' \<Longrightarrow> steady b s (set_redis r s')"
  using steady_trans steadyI_same [of "set_redis r s'" s' b] by fastforce

text \<open>Every transaction of a route is a step of the account tables.\<close>

lemma account_steps:
  "register_user lib up now i salt payload db = (res1, db') \<Longrightarrow> account_step lib cfg db db'"
  "login_user lib cfg up now random email password db = (res2, db') \<Longrightarrow> account_step lib cfg db db'"
  "refresh lib cfg up now random presented db = (res2, db') \<Longrightarrow> account_step lib cfg db db'"
  "logout lib up presented db = (res3, db') \<Longrightarrow> account_step lib cfg db db'"
  "create_api_key lib up now i pfx secret who name db = (res4, db') \<Longrightarrow> account_step lib cfg db db'"
  "revoke_api_key up i db = (res5, db') \<Longrightarrow> account_step lib cfg db db'"
  "create_admin_user lib up now i salt payload db = (res6, db') \<Longrightarrow> account_step lib cfg db db'"
  by (metis snd_conv account_step.intros)+

lemma auth_handler_steady: "app_keeps (steady b) (auth_handler env mo cfg rq body e)"
proof -
  have reg: "steady b s (set_redis r (s\<lparr>si_db := db\<rparr>))"
    if "register ops ipl cfg lib t reached up now i salt p rq (si_db s) (site_redis s) = ((res, db), r)"
    for ops ipl lib t reached up now i salt p s res db r
  proof -
    obtain res1 db1 where u: "register_user lib up now i salt p (si_db s) = (res1, db1)" by fastforce
    have "db = si_db s \<or> db = db1" using that u
      by (auto simp: register_def limited_def session_def answer_def split: prod.splits sum.splits if_splits)
    then show ?thesis using steady_account [OF account_steps(1) [OF u, of cfg]] steady_refl by (auto intro!: steady_redis)
  qed
  have log: "steady b s (set_redis r (s\<lparr>si_db := db\<rparr>))"
    if "login ops ipl cfg lib t reached up now random email password rq (si_db s) (site_redis s) = ((res, db), r)"
    for ops ipl lib t reached up now random email password s res db r
  proof -
    obtain res1 db1 where u: "login_user lib cfg up now random email password (si_db s) = (res1, db1)" by fastforce
    have "db = si_db s \<or> db = db1" using that u
      by (auto simp: login_def limited_def session_def split: prod.splits sum.splits if_splits)
    then show ?thesis using steady_account [OF account_steps(2) [OF u]] steady_refl by (auto intro!: steady_redis)
  qed
  show ?thesis
    using steady_refl reg log
    by (cases e) (auto intro!: app_keeps_payload app_keeps_limit app_keeps_db intro: steady_account account_steps(3,4))
qed

lemma reload_config_run:
  "reload_config cenv ups cs = (res, cs') \<Longrightarrow> cs' = snd (reload_route_rules cenv ups cs)"
  by (auto simp: reload_config_def split: prod.splits sum.splits)

lemma reload_app_steady:
  assumes "we_bracket_ok (sx_worker env) = b" "list_all (\<lambda>(n, base). is_ok (validate_upstream_url b base)) (sx_upstreams env)"
  shows "app_keeps (steady b) (reload_app env mo)"
proof (rule app_keepsI)
  fix st s x s' assume run: "reload_app env mo st s = (x, s')"
  let ?cs = "snd (reload_route_rules ((mo_files mo)\<lparr>ce_bracket_ok := b\<rparr>) (sx_upstreams env) (si_config s))"
  have "s' = s\<lparr>si_config := ?cs\<rparr>"
    using run assms(1) by (auto simp: reload_app_def dest!: reload_config_run split: prod.splits)
  moreover have "policy_ok b (si_config s) \<longrightarrow> policy_ok b ?cs" using reload_policy_ok [of b _ _ "sx_upstreams env"] assms(2) by simp
  ultimately show "steady b s s'" using reload_settings by (simp add: steady_def lasting_def)
qed

lemma admin_handler_steady:
  assumes env: "we_bracket_ok (sx_worker env) = b" "list_all (\<lambda>(n, base). is_ok (validate_upstream_url b base)) (sx_upstreams env)"
  shows "app_keeps (steady b) (admin_handler env mo cfg rq body e who)"
proof -
  have stats: "app_keeps (steady b) (\<lambda>st s. with_db reached f (\<lambda>db. (Inr (g s), db)) st s)" for reached f and g :: "'r site \<Rightarrow> 'x"
    by (rule app_keepsI) (auto simp: with_db_def session_def steady_refl split: prod.splits if_splits)
  have view: "app_keeps (steady b) (\<lambda>st s. reply_app (f s) st s)" for f
    by (rule app_keepsI) (auto simp: reply_app_def steady_refl)
  show ?thesis
    using steady_refl stats view reload_app_steady [OF env]
    by (cases e) (auto intro!: app_keeps_payload app_keeps_redis app_keeps_db app_keeps_reply intro: steady_account account_steps steadyI_same
      split: option.split)
qed

lemma served_steady:
  assumes env: "we_bracket_ok (sx_worker env) = b" "list_all (\<lambda>(n, base). is_ok (validate_upstream_url b base)) (sx_upstreams env)"
    and run: "serve (site_stack env mo s) (site_clock (mo_stack mo)) scope messages rq (site_handlers env mo rq s) s = (out, s1)"
  shows "steady b s s1"
proof -
  have proxy: "app_keeps (steady b) (proxy_handler env mo rq chunks service path)" for chunks service path
    by (rule app_keepsI) (auto intro!: steadyI_same dest!: proxy_handler_stores)
  have "app_keeps (steady b) (router_app cfg (site_handlers env mo rq s ms) rq)" for cfg ms
    by (rule steady.router_keeps)
       (simp_all add: auth_handler_steady admin_handler_steady [OF env] proxy app_keeps_reply steady_refl)
  then have "command_keeps (steady b) (serve (site_stack env mo s) (site_clock (mo_stack mo)) scope messages rq (site_handlers env mo rq s))"
    by (intro steady.serve_keeps [where ops = "we_kv (sx_worker env)"]) (simp_all add: lift_attempt_same steady_refl)
  then show ?thesis using run by (rule command_keepsD)
qed

definition logged_rows :: "effect list \<Rightarrow> log_record list" where
  "logged_rows es = List.map_filter (\<lambda>e. case e of EnqueueLog rec \<Rightarrow> Some rec | _ \<Rightarrow> None) es"

fun asked_rows :: "('r, 'ip) site_env \<Rightarrow> 'r site \<Rightarrow> 'r site_event \<Rightarrow> log_record list" where
  \<comment> \<open>the rows a step hands to the log writer\<close>
  "asked_rows env s (Served mo scope messages rq) = logged_rows (reports (fst (site_serve env mo scope messages rq s)))"
| "asked_rows env s _ = []"

inductive site_run :: "('r, 'ip) site_env \<Rightarrow> log_record list \<Rightarrow> 'r site \<Rightarrow> 'r site \<Rightarrow> bool" for env where
  run_nil: "site_run env [] s s"
| run_snoc: "site_run env rows s s1 \<Longrightarrow> site_step (meanwhile http db env) e s1 s2 \<Longrightarrow>
    site_run env (rows @ asked_rows (meanwhile http db env) s1 e) s s2"

lemma absorb_writer:
  "si_writer (absorb e s) = (case e of EnqueueLog rec \<Rightarrow> enqueue rec (si_writer s) | _ \<Rightarrow> si_writer s)"
  by (cases e) (simp_all add: enqueue_log_def)

lemma fold_absorb_writer:
  "writer_run evs w (si_writer s) \<Longrightarrow>
     \<exists>evs'. writer_run evs' w (si_writer (fold absorb es s)) \<and> requested evs' = requested evs @ logged_rows es"
proof (induction es arbitrary: s evs)
  case Nil
  then show ?case by (auto simp: logged_rows_def map_filter_simps)
next
  case (Cons e es)
  show ?case
  proof (cases "\<exists>rec. e = EnqueueLog rec")
    case True
    then obtain rec where e: "e = EnqueueLog rec" by blast
    have "writer_run (evs @ [Enqueued rec]) w (si_writer (absorb e s))"
      using Cons.prems e by (auto simp: enqueue_log_def intro: writer_run.run_snoc writer_step.enqueued)
    from Cons.IH [OF this] e show ?thesis
      by (auto simp: requested_snoc logged_rows_def map_filter_simps)
  next
    case False
    then have "si_writer (absorb e s) = si_writer s" "logged_rows (e # es) = logged_rows es"
      by (auto simp: absorb_writer logged_rows_def map_filter_simps split: effect.splits)
    then show ?thesis using Cons by auto
  qed
qed

lemma refresh_reports: "refresh_cache penv ck task p = (res, p') \<Longrightarrow> ps_effects p = [] \<Longrightarrow> logged_rows (ps_effects p') = []"
  by (auto simp: refresh_cache_def call_upstream_def Let_def logged_rows_def map_filter_simps split: prod.splits sum.splits if_splits)

lemma site_step_lasting:
  assumes env: "we_bracket_ok (sx_worker env) = b" "list_all (\<lambda>(n, base). is_ok (validate_upstream_url b base)) (sx_upstreams env)"
    and step: "site_step env e s s'"
  shows "lasting b s s'"
  using step
proof cases
  case (served mo scope messages rq)
  obtain out s1 where run: "serve (site_stack env mo s) (site_clock (mo_stack mo)) scope messages rq (site_handlers env mo rq s) s = (out, s1)"
    by fastforce
  have "lasting b s1 s'" using served(2) run by (intro lastingI_same) (simp_all add: site_serve_def)
  then show ?thesis using served_steady [OF env run] lasting_trans by (auto simp: steady_def)
next
  case (operator up now i salt email password again)
  have "account_step (sx_auth env) (cs_settings (si_config s)) (si_db s)
      (snd (manage_main (sx_auth env) (fw_valid_email (sx_framework env)) up now i salt email password again (si_db s)))"
    by (rule operator_admin)
  from steady_account [OF this, of b] show ?thesis using operator(2) by (simp add: steady_def)
qed (auto intro!: lastingI_same)

lemma site_step_writer:
  assumes env: "we_bracket_ok (sx_worker env) = b" "list_all (\<lambda>(n, base). is_ok (validate_upstream_url b base)) (sx_upstreams env)"
    and step: "site_step env e s s'" and past: "writer_run evs w (si_writer s)"
  shows "\<exists>evs'. writer_run evs' w (si_writer s') \<and> requested evs' = requested evs @ asked_rows env s e"
  using step
proof cases
  case (served mo scope messages rq)
  obtain out s1 where run: "serve (site_stack env mo s) (site_clock (mo_stack mo)) scope messages rq (site_handlers env mo rq s) s = (out, s1)"
    by fastforce
  have "writer_run evs w (si_writer s1)" using served_steady [OF env run] past by (simp add: steady_def)
  from fold_absorb_writer [OF this, of "reports out"] show ?thesis using served run by (simp add: site_serve_def)
next
  case (logging ev w')
  have "writer_run (evs @ [ev]) w w'" using past logging(3) by (rule writer_run.run_snoc)
  moreover have "requested (evs @ [ev]) = requested evs"
    using logging(4) by (cases ev) (auto simp: requested_snoc)
  ultimately show ?thesis using logging(1,2) by (intro exI [of _ "evs @ [ev]"]) simp
next
  case (refreshing i ck)
  obtain res p where r: "refresh_cache (site_proxy_env env s) ck (si_refreshes s ! i)
      \<lparr>ps_redis = site_redis s, ps_calls = [], ps_tasks = [], ps_request = fresh_state, ps_effects = []\<rparr> = (res, p)" by fastforce
  have rows: "logged_rows (ps_effects p) = []" by (rule refresh_reports [OF r]) simp
  have "writer_run evs w (si_writer (set_redis (ps_redis p)
      (s\<lparr>si_refreshes := take i (si_refreshes s) @ drop (Suc i) (si_refreshes s)\<rparr>)))" using past by simp
  from fold_absorb_writer [OF this, of "ps_effects p"] show ?thesis
    using refreshing r rows by (simp add: run_refresh_def)
qed (use past in auto)

text \<open>
  C3.  The stores stay consistent.  From a start with accepted settings, through requests of anybody,
  reloads, worker rounds, log writing, refreshes and operator commands in any order: every
  service finds a valid rule and every upstream is an accepted base URL; the account tables satisfy
  their keys, unique columns and references; no refresh token disappears or comes back to life
  once revoked; and the log queue keeps its bound, with every row a request handed in written,
  on its way, in order and at most once, or counted as dropped.
\<close>

theorem stores_stay_consistent:
  assumes start: "import_config network_ok cenv cfg = Inr (si_config s)" "sx_upstreams env = upstream_services cfg"
      "we_bracket_ok (sx_worker env) = ce_bracket_ok cenv" "constraints_ok (si_db s)" "si_writer s = RequestLogWriter MAX_QUEUE BATCH"
    and run: "site_run env rows s s'"
  shows "rule_ok (get_route_rule (string_rules (cs_rules (si_config s'))) service) \<and>
    list_all (\<lambda>(name, base). is_ok (validate_upstream_url (ce_bracket_ok cenv) base)) (upstream_services (cs_settings (si_config s'))) \<and>
    constraints_ok (si_db s') \<and> tokens_kept (si_db s) (si_db s') \<and>
    int (length (lw_queue (si_writer s'))) \<le> MAX_QUEUE \<and>
    subseq (lw_rows (si_writer s') @ lw_batch (si_writer s') @ lw_queue (si_writer s')) rows \<and>
    int (length rows) \<le> int (length (lw_rows (si_writer s') @ lw_batch (si_writer s') @ lw_queue (si_writer s'))) + lw_dropped (si_writer s')"
proof -
  let ?b = "ce_bracket_ok cenv"
  have ups: "list_all (\<lambda>(n, base). is_ok (validate_upstream_url ?b base)) (sx_upstreams env)"
    using Settings_upstreams [OF import_config_run(1) [OF start(1)]] start(2) by simp
  have "lasting ?b s s' \<and> (\<exists>evs. writer_run evs (RequestLogWriter MAX_QUEUE BATCH) (si_writer s') \<and> requested evs = rows)"
    using run start(5)
  proof (induction rule: site_run.induct)
    case (run_nil s)
    then show ?case by (auto simp: lastingI_same requested_def map_filter_simps intro!: exI [of _ "[]"] writer_run.run_nil)
  next
    case (run_snoc rows s s1 http db e s2)
    have env: "we_bracket_ok (sx_worker (meanwhile http db env)) = ?b"
      "list_all (\<lambda>(n, base). is_ok (validate_upstream_url ?b base)) (sx_upstreams (meanwhile http db env))"
      using start(3) ups by simp_all
    from run_snoc obtain evs where "writer_run evs (RequestLogWriter MAX_QUEUE BATCH) (si_writer s1)" "requested evs = rows" by auto
    then show ?case
      using run_snoc site_step_writer [OF env run_snoc.hyps(2)] lasting_trans site_step_lasting [OF env run_snoc.hyps(2)]
      by blast
  qed
  then obtain evs where last: "lasting ?b s s'" and evs: "writer_run evs (RequestLogWriter MAX_QUEUE BATCH) (si_writer s')" "requested evs = rows"
    by blast
  have policy: "policy_ok ?b (si_config s')" using last import_policy_ok [OF start(1)] by (simp add: lasting_def)
  moreover have "rule_ok (get_route_rule (string_rules (cs_rules (si_config s'))) service)"
    using string_rules_found [OF policy] by blast
  moreover have "0 < MAX_QUEUE" by (simp add: MAX_QUEUE_def)
  ultimately show ?thesis
    using last start(4) writer_run_inv [OF evs(1) refl] evs(2)
    by (auto simp: lasting_def policy_ok_def Request_Logger.accounted_def queue_bounded_def pipeline_def)
qed

text \<open>
  C2.  Privileges come only from administrators.  In whatever way requests are served, the queue is
  worked off, logs are written and cached answers are refreshed: as long as no administrator's token
  is presented to the administration and no operator acts, no account becomes an administrator or
  changes at all (accounts are only added, as ordinary ones), no API key is created, revoked or
  changed, and the route policy stays as it is.
\<close>

theorem no_privilege_escalation:
  assumes "ordinary_run env s s'"
  shows "(\<exists>new. db_users (si_db s') = db_users (si_db s) @ new \<and> list_all (\<lambda>u. \<not> u_is_admin u) new) \<and>
    db_keys (si_db s') = db_keys (si_db s) \<and> si_config s' = si_config s"
proof -
  have "no_new_power s s'"
    using assms
  proof (induction rule: ordinary_run.induct)
    case (ordinary_snoc s s1 http db e s2)
    have "no_new_power s1 s2" by (rule ordinary_step_power [OF ordinary_snoc.hyps(2)]) (simp add: ordinary_snoc.hyps(3))
    then show ?case using ordinary_snoc.IH no_new_power_trans by blast
  qed (rule no_new_power_refl)
  then show ?thesis by (simp add: no_new_power_def)
qed

section \<open>Witnesses\<close>

definition demo_framework :: framework where
  "demo_framework = \<lparr>fw_body = (\<lambda>rq b. Document (JObj [(''email'', JStr ''n@b''), (''password'', JStr ''long enough'')])),
     fw_unprocessable = json_error 422 ''unprocessable'', fw_unmatched = (\<lambda>_. json_error 404 ''Not Found''), fw_query = (\<lambda>_ _. None),
     fw_uuid = (\<lambda>_. None), fw_valid_email = Some, fw_datetime = JInt, fw_key = (\<lambda>_. ''k''), fw_exposition = (\<lambda>_. []),
     fw_exposition_type = ''text/plain''\<rparr>"

definition demo_site_env :: "(mem_redis, string) site_env" where
  "demo_site_env = \<lparr>sx_worker = (demo_queue_env demo_accepting)\<lparr>we_bracket_ok := (\<lambda>_. False)\<rparr>, sx_admin = mem_admin,
     sx_codec = demo_codec, sx_sha256 = (\<lambda>_. ''d''), sx_ip = demo_ip, sx_getaddrinfo = (\<lambda>_. Inl OSError), sx_auth = demo_auth_lib,
     sx_opt = demo_opt_env, sx_upstreams = [], sx_framework = demo_framework\<rparr>"

definition demo_config :: config_state where
  "demo_config = \<lparr>cs_rules = builtin_table @ [(YStr ''s'', RouteRule_default\<lparr>rr_cache_ttl := 5\<rparr>)],
     cs_settings = default_settings\<lparr>upstream_services := [(''s'', ''http://u'')]\<rparr>, cs_loaded_path = Some ''./gateway.yaml''\<rparr>"

definition demo_site :: "mem_redis site" where
  "demo_site = \<lparr>si_task = demo_task, si_db = demo_db, si_config = demo_config, si_writer = RequestLogWriter MAX_QUEUE BATCH, si_refreshes = [],
     si_held = []\<rparr>"

definition demo_moment :: "mem_redis moment" where
  "demo_moment = \<lparr>mo_stack = demo_stack_clock, mo_proxy = demo_proxy_clock, mo_limit = 0, mo_server = 0, mo_reached = True, mo_commit = True,
     mo_now = 0, mo_id = 8, mo_salt = ''s'', mo_random = ''r'', mo_prefix = ''p'', mo_secret = ''x'',
     mo_files = demo_config_env (Some demo_document)\<rparr>"

definition demo_register_request :: request where
  "demo_register_request = \<lparr>req_method = ''POST'', req_path = ''/auth/register'', req_query = [], req_headers = [], req_client = Some ''c''\<rparr>"

definition demo_registered :: "mem_redis site" where
  \<comment> \<open>after somebody registered\<close>
  "demo_registered = snd (site_serve demo_site_env demo_moment demo_scope [HttpRequest [] False] demo_register_request demo_site)"

definition demo_polled :: "mem_redis site" where
  \<comment> \<open>and a round of the worker\<close>
  "demo_polled = demo_registered\<lparr>si_task := worker_iteration (in_force demo_site_env demo_registered) mem_admin ''w'' demo_round (si_task demo_registered)\<rparr>"

lemma demo_site_simps [simp]:
  "sx_worker demo_site_env = (demo_queue_env demo_accepting)\<lparr>we_bracket_ok := (\<lambda>_. False)\<rparr>" "sx_admin demo_site_env = mem_admin"
  "sx_auth demo_site_env = demo_auth_lib" "sx_upstreams demo_site_env = []" "sx_framework demo_site_env = demo_framework"
  "si_task demo_site = demo_task" "si_db demo_site = demo_db" "si_config demo_site = demo_config"
  "si_writer demo_site = RequestLogWriter MAX_QUEUE BATCH" "cs_settings demo_config = default_settings\<lparr>upstream_services := [(''s'', ''http://u'')]\<rparr>"
  by (simp_all add: demo_site_env_def demo_site_def demo_config_def)

lemma demo_steps:
  "site_step demo_site_env (Served demo_moment demo_scope [HttpRequest [] False] demo_register_request) demo_site demo_registered"
  "site_step demo_site_env (Polled ''w'' demo_round) demo_registered demo_polled"
  unfolding demo_registered_def demo_polled_def
  by (rule served) (use polled [of demo_site_env "''w''" demo_round] in simp)

lemma demo_meanwhile: "meanwhile demo_accepting (\<lambda>_. Stored) demo_site_env = demo_site_env"
  by (simp add: meanwhile_def demo_site_env_def demo_queue_env_def)

lemmas demo_then = site_run.run_snoc [where env = demo_site_env and http = demo_accepting and db = "\<lambda>_. Stored", unfolded demo_meanwhile]

lemma demo_run: "\<exists>rows. site_run demo_site_env rows demo_site demo_polled"
  using demo_then [OF demo_then [OF site_run.run_nil demo_steps(1)] demo_steps(2)] by blast

theorem no_privilege_escalation_witness:
  "(\<exists>new. db_users (si_db demo_polled) = demo_user # new \<and> list_all (\<lambda>u. \<not> u_is_admin u) new) \<and>
   db_keys (si_db demo_polled) = [] \<and> si_config demo_polled = demo_config"
proof -
  have "route (req_path demo_register_request) \<noteq> AdminRoutes"
    by (simp add: demo_register_request_def route_def below_def)
  then have "ordinary_run demo_site_env demo_site demo_polled"
    using ordinary_run.ordinary_snoc [where env = demo_site_env and http = demo_accepting and db = "\<lambda>_. Stored", unfolded demo_meanwhile]
      ordinary_run.ordinary_nil demo_steps ordinary.simps by (metis (no_types, lifting))
  from no_privilege_escalation [OF this] show ?thesis by (simp add: demo_db_def)
qed

theorem stores_stay_consistent_witness:
  "\<exists>rows. site_run demo_site_env rows demo_site demo_polled \<and>
     rule_ok (get_route_rule (string_rules (cs_rules (si_config demo_polled))) ''s'') \<and>
     constraints_ok (si_db demo_polled) \<and> int (length (lw_queue (si_writer demo_polled))) \<le> MAX_QUEUE"
proof -
  obtain rows where run: "site_run demo_site_env rows demo_site demo_polled" using demo_run by blast
  have import: "import_config (\<lambda>_. True) (demo_config_env (Some demo_document)) default_settings = Inr (si_config demo_site)"
    using demo_import by (simp add: demo_config_def)
  have "constraints_ok (si_db demo_site)" by (simp add: constraints_ok_def demo_db_def)
  from stores_stay_consistent [OF import _ _ this _ run, of "''s''"] run show ?thesis
    by (auto simp: default_settings_files demo_bracket)
qed

end
