(* ===== verification/Queue_System.thy ===== *)
theory Queue_System
  imports System
begin

text \<open>
  A queued write in the whole system.  The locale \<open>redis_site_laws\<close> adds what Redis promises about
  the identifiers of a stream (none is issued twice) and about the commands on values: SET, DEL,
  EXPIRE and a transaction may replace or remove whatever is under their own key, a stream too, and
  leave every other name alone.  \<open>queue_site\<close> therefore has the stream under a name that is not one of
  the gateway's own keys.  The frame locales carry this through the middleware, the routes, the
  refreshes and the worker, so that the only parts of the gateway that touch an entry are the workers
  that handle a copy of it.
\<close>

section \<open>Identifiers\<close>

definition same_queue :: "'r hash_view \<Rightarrow> 'r stream_view \<Rightarrow> ('r \<Rightarrow> string \<Rightarrow> string set) \<Rightarrow> 'r \<Rightarrow> 'r \<Rightarrow> bool" where
  "same_queue hv sv issued r r' = (hv r' = hv r \<and> sv r' = sv r \<and> issued r' = issued r)"

definition issued_same :: "('r \<Rightarrow> string \<Rightarrow> string set) \<Rightarrow> 'r \<Rightarrow> 'r \<Rightarrow> bool" where
  "issued_same issued r r' = (issued r' = issued r)"

definition others_same :: "'r hash_view \<Rightarrow> 'r stream_view \<Rightarrow> ('r \<Rightarrow> string \<Rightarrow> string set) \<Rightarrow> string \<Rightarrow> 'r \<Rightarrow> 'r \<Rightarrow> bool" where
  \<comment> \<open>what is under another name stays\<close>
  "others_same hv sv issued k r r' = (\<forall>n. n \<noteq> k \<longrightarrow> hv r' n = hv r n \<and> sv r' n = sv r n \<and> issued r' n = issued r n)"

locale redis_site_laws = redis_consumer_laws ops view qops hv sv adm + redis_scan_laws ops view adm
  for ops :: "'r redis_kv" and view :: "'r kv_view" and qops :: "'r redis_queue" and hv :: "'r hash_view" and sv :: "'r stream_view"
    and adm :: "'r redis_admin" +
  fixes issued :: "'r \<Rightarrow> string \<Rightarrow> string set" \<comment> \<open>the identifiers a stream has given out so far\<close>
  assumes xadd_issues: "rq_xadd qops st flds r = (xa, r') \<Longrightarrow> hv r' = hv r \<and> (\<forall>st'. issued r st' \<subseteq> issued r' st') \<and>
      (sv r' = sv r \<or> (\<exists>i. i \<notin> issued r st \<and> i \<in> issued r' st \<and> sv r' = (sv r)(st := sv r st @ [(i, flds)])))"
    and get_issued: "command_keeps (issued_same issued) (rk_get ops t k)"
    and setnx_issued: "command_keeps (issued_same issued) (rk_setnx ops t k v ex)"
    and incr_queue: "command_keeps (same_queue hv sv issued) (rk_incr ops t k)"
    and set_others: "command_keeps (others_same hv sv issued k) (rk_set ops t k v ex)"
    and del_others: "command_keeps (others_same hv sv issued k) (rk_del ops t k)"
    and expire_others: "command_keeps (others_same hv sv issued k) (rk_expire ops t k ex)"
    and exec_others: "command_keeps (others_same hv sv issued k) (rk_exec_set ops r0 t k v ex)"
    and hget_issued: "command_keeps (issued_same issued) (rq_hget qops h f)"
    and hset_issued: "command_keeps (issued_same issued) (rq_hset qops h f hval)"
    and hdel_issued: "command_keeps (issued_same issued) (rq_hdel qops h f)"
    and xlen_issued: "command_keeps (issued_same issued) (rq_xlen qops st)"
    and xack_issued: "command_keeps (issued_same issued) (rq_xack qops st g i)"
    and xdel_issued: "command_keeps (issued_same issued) (rq_xdel qops st i)"
    and xread_issued: "command_keeps (issued_same issued) (rq_xreadgroup qops st g c n)"
    and xclaim_issued: "command_keeps (issued_same issued) (rq_xautoclaim qops t st g c idle cur n)"
    and group_issued: "command_keeps (issued_same issued) (ra_xgroup_create adm st g)"
    and pending_queue: "command_keeps (same_queue hv sv issued) (ra_xpending adm st g)"
    and ping_queue: "command_keeps (same_queue hv sv issued) (ra_ping adm)"
    and scan_queue: "command_keeps (same_queue hv sv issued) (ra_scan adm t pat)"

locale queue_site = redis_site_laws ops view qops hv sv adm issued
  for ops :: "'r redis_kv" and view :: "'r kv_view" and qops :: "'r redis_queue" and hv :: "'r hash_view" and sv :: "'r stream_view"
    and adm :: "'r redis_admin" and issued :: "'r \<Rightarrow> string \<Rightarrow> string set" +
  fixes key :: string \<comment> \<open>the name of the stream\<close>
  assumes foreign: "\<not> own_key key"

definition mem_issued :: "mem_redis \<Rightarrow> string \<Rightarrow> string set" where
  \<comment> \<open>all but the identifiers still to come\<close>
  "mem_issued r st = - {str_of_nat n | n. m_seq r \<le> n}"

lemma mem_put_drop_seq [simp]: "m_seq (mem_put k v e r) = m_seq r" "m_seq (mem_drop k r) = m_seq r"
  by (simp_all add: mem_put_def mem_drop_def)

lemma mem_issued_mono: "m_seq r \<le> m_seq r' \<Longrightarrow> mem_issued r st \<subseteq> mem_issued r' st"
  by (auto simp: mem_issued_def)

lemma mem_issued_eq: "m_seq r' = m_seq r \<Longrightarrow> mem_issued r' = mem_issued r"
  by (simp add: mem_issued_def fun_eq_iff)

interpretation memsite: redis_site_laws mem_kv mem_view mem_queue m_hash m_stream mem_admin mem_issued
proof unfold_locales
  fix st flds r xa r' assume run: "rq_xadd mem_queue st flds r = (xa, r')"
  show "m_hash r' = m_hash r \<and> (\<forall>st'. mem_issued r st' \<subseteq> mem_issued r' st') \<and>
    (m_stream r' = m_stream r \<or>
      (\<exists>i. i \<notin> mem_issued r st \<and> i \<in> mem_issued r' st \<and> m_stream r' = (m_stream r)(st := m_stream r st @ [(i, flds)])))"
  proof (cases "m_up r \<and> str_of_nat (m_seq r) \<notin> fst ` set (m_stream r st)")
    case True
    then have "r' = r\<lparr>m_stream := (m_stream r)(st := m_stream r st @ [(str_of_nat (m_seq r), flds)]), m_seq := Suc (m_seq r)\<rparr>"
      using run by (simp add: mem_queue_def)
    then show ?thesis
      using str_of_nat_inj by (auto simp: mem_issued_def intro!: exI [of _ "str_of_nat (m_seq r)"] Suc_leD)
  qed (use run in \<open>auto simp: mem_queue_def split: if_splits\<close>)
qed (auto simp: command_keeps_def same_queue_def issued_same_def others_same_def mem_kv_def mem_queue_def mem_admin_def Let_def
      mem_issued_def split: if_splits option.splits)

interpretation memqueue: queue_site mem_kv mem_view mem_queue m_hash m_stream mem_admin mem_issued "''offline_queue''"
  by unfold_locales (simp add: own_key_def)

section \<open>What the rest of the gateway does to the queue\<close>

definition ids_known :: "'r stream_view \<Rightarrow> ('r \<Rightarrow> string \<Rightarrow> string set) \<Rightarrow> string \<Rightarrow> 'r \<Rightarrow> bool" where
  "ids_known sv issued key r = (fst ` set (sv r key) \<subseteq> issued r key)"

definition ids_kept :: "'r stream_view \<Rightarrow> ('r \<Rightarrow> string \<Rightarrow> string set) \<Rightarrow> string \<Rightarrow> 'r \<Rightarrow> 'r \<Rightarrow> bool" where
  "ids_kept sv issued key r r' =
     (issued r key \<subseteq> issued r' key \<and> (ids_known sv issued key r \<longrightarrow> ids_known sv issued key r'))"

definition grows :: "'r hash_view \<Rightarrow> 'r stream_view \<Rightarrow> ('r \<Rightarrow> string \<Rightarrow> string set) \<Rightarrow> string \<Rightarrow> 'r \<Rightarrow> 'r \<Rightarrow> bool" where
  \<comment> \<open>the two hashes stay, and the stream only gets entries under identifiers of their own\<close>
  "grows hv sv issued key r r' =
     (hv r' ATTEMPTS_HASH = hv r ATTEMPTS_HASH \<and> hv r' DUE_HASH = hv r DUE_HASH \<and> ids_kept sv issued key r r' \<and>
      (ids_known sv issued key r \<longrightarrow>
        (\<exists>new. sv r' key = sv r key @ new \<and> distinct (map fst new) \<and> fst ` set new \<inter> issued r key = {})))"

lemma ids_kept_trans: "ids_kept sv issued key r r1 \<Longrightarrow> ids_kept sv issued key r1 r2 \<Longrightarrow> ids_kept sv issued key r r2"
  by (auto simp: ids_kept_def)

lemma ids_kept_same: "sv r' = sv r \<Longrightarrow> issued r' = issued r \<Longrightarrow> ids_kept sv issued key r r'"
  by (simp add: ids_kept_def ids_known_def)

lemma grows_same: "hv r' = hv r \<Longrightarrow> sv r' = sv r \<Longrightarrow> issued r' = issued r \<Longrightarrow> grows hv sv issued key r r'"
  by (simp add: grows_def ids_kept_same)

lemma grows_trans:
  assumes 1: "grows hv sv issued key r r1" and 2: "grows hv sv issued key r1 r2"
  shows "grows hv sv issued key r r2"
proof -
  have "\<exists>new. sv r2 key = sv r key @ new \<and> distinct (map fst new) \<and> fst ` set new \<inter> issued r key = {}"
    if known: "ids_known sv issued key r"
  proof -
    obtain n1 where n1: "sv r1 key = sv r key @ n1" "distinct (map fst n1)" "fst ` set n1 \<inter> issued r key = {}"
      using 1 known by (auto simp: grows_def)
    have known1: "ids_known sv issued key r1" using 1 known by (simp add: grows_def ids_kept_def)
    then obtain n2 where n2: "sv r2 key = sv r1 key @ n2" "distinct (map fst n2)" "fst ` set n2 \<inter> issued r1 key = {}"
      using 2 by (auto simp: grows_def)
    have "fst ` set n1 \<subseteq> issued r1 key" using known1 n1(1) by (auto simp: ids_known_def)
    moreover have "issued r key \<subseteq> issued r1 key" using 1 by (simp add: grows_def ids_kept_def)
    ultimately have "fst ` set n1 \<inter> fst ` set n2 = {}" "fst ` set n2 \<inter> issued r key = {}" using n2(3) by blast+
    then show ?thesis using n1 n2 by (intro exI [of _ "n1 @ n2"]) (simp add: image_Un Int_Un_distrib2)
  qed
  then show ?thesis using 1 2 ids_kept_trans by (auto simp: grows_def)
qed

lemma same_queue_grows: "command_keeps (same_queue hv sv issued) c \<Longrightarrow> command_keeps (grows hv sv issued key) c"
  by (auto simp: command_keeps_def same_queue_def intro!: grows_same)

lemma hashes_foreign: "\<not> own_key ATTEMPTS_HASH" "\<not> own_key DUE_HASH"
  by (simp_all add: own_key_def ATTEMPTS_HASH_def DUE_HASH_def)

context queue_site
begin

abbreviation growing :: "'r \<Rightarrow> 'r \<Rightarrow> bool" where
  "growing \<equiv> grows hv sv issued key"

abbreviation knowing :: "'r \<Rightarrow> 'r \<Rightarrow> bool" where
  "knowing \<equiv> ids_kept sv issued key"

lemma quiet_grows:
  assumes "command_keeps (issued_same issued) c" "\<And>r x r'. c r = (x, r') \<Longrightarrow> hash_same hv r r' \<and> stream_same sv r r'"
  shows "command_keeps growing c"
  by (rule command_keepsI)
     (use assms in \<open>auto simp: command_keeps_def issued_same_def hash_same_def stream_same_def intro!: grows_same\<close>)

lemma others_grows: "own_key k \<Longrightarrow> command_keeps (others_same hv sv issued k) c \<Longrightarrow> command_keeps growing c"
proof (rule command_keepsI)
  fix r x r' assume k: "own_key k" and c: "command_keeps (others_same hv sv issued k) c" "c r = (x, r')"
  have "key \<noteq> k" "ATTEMPTS_HASH \<noteq> k" "DUE_HASH \<noteq> k" using k foreign hashes_foreign by auto
  then show "growing r r'" using command_keepsD [OF c] by (simp add: others_same_def grows_def ids_kept_def ids_known_def)
qed

lemma xadd_grows: "command_keeps growing (rq_xadd qops st flds)"
proof (rule command_keepsI)
  fix r x r' assume "rq_xadd qops st flds r = (x, r')"
  note effect = xadd_issues [OF this]
  show "growing r r'"
  proof (cases "sv r' = sv r")
    case True
    then show ?thesis using effect by (auto simp: grows_def ids_kept_def ids_known_def)
  next
    case False
    then obtain i where i: "i \<notin> issued r st" "i \<in> issued r' st" "sv r' = (sv r)(st := sv r st @ [(i, flds)])" using effect by blast
    have "fst ` set (sv r' key) \<subseteq> issued r' key" if "fst ` set (sv r key) \<subseteq> issued r key"
      using i that effect by (cases "key = st") auto
    moreover have "\<exists>new. sv r' key = sv r key @ new \<and> distinct (map fst new) \<and> fst ` set new \<inter> issued r key = {}"
      using i by (cases "key = st") auto
    ultimately show ?thesis using effect by (simp add: grows_def ids_kept_def ids_known_def)
  qed
qed

lemma quiet_commands:
  "command_keeps growing (rk_get ops t k)" "command_keeps growing (rk_setnx ops t k v ex)" "command_keeps growing (rq_xlen qops st)"
  by (rule quiet_grows [OF get_issued] quiet_grows [OF setnx_issued] quiet_grows [OF xlen_issued],
      erule get_quiet setnx_quiet xlen_same)+

lemmas admin_commands = pending_queue [THEN same_queue_grows] ping_queue [THEN same_queue_grows] scan_queue [THEN same_queue_grows]

lemmas grow_commands = quiet_commands incr_queue [THEN same_queue_grows] others_grows [OF _ set_others] others_grows [OF _ del_others]
  others_grows [OF _ expire_others] others_grows [OF _ exec_others]

lemma growth_frame: "queue_frame growing ops qops"
  by unfold_locales (auto intro: grow_commands xadd_grows grows_same grows_trans)

lemma issued_ids: "command_keeps (issued_same issued) c \<Longrightarrow> (\<And>r x r'. c r = (x, r') \<Longrightarrow> stream_same sv r r') \<Longrightarrow> command_keeps knowing c"
  by (rule command_keepsI) (auto simp: command_keeps_def issued_same_def stream_same_def intro!: ids_kept_same)

lemma xdel_ids: "command_keeps knowing (rq_xdel qops st i)"
proof (rule command_keepsI)
  fix r x r' assume run: "rq_xdel qops st i r = (x, r')"
  have "issued r' = issued r" using command_keepsD [OF xdel_issued run] by (simp add: issued_same_def)
  moreover have "fst ` set (sv r' key) \<subseteq> fst ` set (sv r key)"
    using xdel_effect [OF run] by (cases "key = st") (auto simp: queue_effects split: sum.splits)
  ultimately show "knowing r r'" by (auto simp: ids_kept_def ids_known_def)
qed

lemma grows_ids: "command_keeps growing c \<Longrightarrow> command_keeps knowing c"
  by (simp add: command_keeps_def grows_def)

lemma ids_frame: "worker_frame knowing ops qops adm"
proof -
  note steps = grow_commands [THEN grows_ids] xadd_grows [THEN grows_ids] xdel_ids
    issued_ids [OF hget_issued] issued_ids [OF hset_issued] issued_ids [OF hdel_issued] issued_ids [OF xack_issued]
    issued_ids [OF xread_issued] issued_ids [OF xclaim_issued] issued_ids [OF group_issued]
  note laws = hget_same hset_effect hdel_effect xack_same xread_same xclaim_same group_same
  show ?thesis
    by unfold_locales (auto intro!: steps intro: ids_kept_same ids_kept_trans dest: laws)
qed

end

sublocale queue_site \<subseteq> growth: queue_frame "grows hv sv issued key" ops qops
  by (rule growth_frame)

sublocale queue_site \<subseteq> ids: worker_frame "ids_kept sv issued key" ops qops adm
  by (rule ids_frame)

section \<open>The queue in the state of the system\<close>

definition queue_safe :: "'r hash_view \<Rightarrow> 'r stream_view \<Rightarrow> ('r \<Rightarrow> string \<Rightarrow> string set) \<Rightarrow> string \<Rightarrow> 'r site \<Rightarrow> 'r site \<Rightarrow> bool" where
  \<comment> \<open>the queue only grows, nothing is sent or recorded by the worker, no copy appears, the background tasks refresh own keys,
    and the settings that concern the queue stay\<close>
  "queue_safe hv sv issued key s s' =
     (grows hv sv issued key (site_redis s) (site_redis s') \<and>
      w_sent (tk_world (si_task s')) = w_sent (tk_world (si_task s)) \<and> w_failed (tk_world (si_task s')) = w_failed (tk_world (si_task s)) \<and>
      set (si_held s') \<subseteq> set (si_held s) \<and> (own_tasks (si_refreshes s) \<longrightarrow> own_tasks (si_refreshes s')) \<and>
      (\<exists>ups. cs_settings (si_config s') = (cs_settings (si_config s))\<lparr>upstream_services := ups\<rparr>))"

lemma set_redis_world [simp]:
  "tk_world (si_task (set_redis r s)) = (tk_world (si_task s))\<lparr>w_redis := r\<rparr>"
  by (simp add: set_redis_def)

lemma site_redis_update [simp]:
  "site_redis (s\<lparr>si_db := db\<rparr>) = site_redis s" "site_redis (s\<lparr>si_config := cs\<rparr>) = site_redis s"
  "site_redis (s\<lparr>si_writer := wr\<rparr>) = site_redis s" "site_redis (s\<lparr>si_refreshes := rs\<rparr>) = site_redis s"
  by (simp_all add: site_redis_def)

lemma queue_safe_same:
  assumes "tk_world (si_task s') = tk_world (si_task s)" "si_config s' = si_config s" "set (si_held s') \<subseteq> set (si_held s)"
    "own_tasks (si_refreshes s) \<longrightarrow> own_tasks (si_refreshes s')"
  shows "queue_safe hv sv issued key s s'"
  using assms by (simp add: queue_safe_def settings_same site_redis_def grows_same)

lemma queue_safe_trans: "queue_safe hv sv issued key s s1 \<Longrightarrow> queue_safe hv sv issued key s1 s2 \<Longrightarrow> queue_safe hv sv issued key s s2"
  by (auto simp: queue_safe_def intro: grows_trans)

lemma limited_redis: "limited check tx db = (res, r) \<Longrightarrow> r = snd check"
  by (auto simp: limited_def split: prod.splits sum.splits)

context queue_site
begin

abbreviation safe :: "'r site \<Rightarrow> 'r site \<Rightarrow> bool" where
  "safe \<equiv> queue_safe hv sv issued key"

lemma on_redis_safe: "command_keeps growing c \<Longrightarrow> command_keeps safe (on_redis c)"
  by (rule command_keepsI)
     (auto simp: on_redis_def queue_safe_def settings_same dest: command_keepsD split: prod.splits)

lemma safe_frame: "kv_frame safe (lift_kv ops)"
  by unfold_locales (auto simp: lift_kv_def intro: queue_safe_same queue_safe_trans intro!: on_redis_safe grow_commands)

lemma auth_handler_safe:
  assumes "we_kv (sx_worker env) = ops"
  shows "app_keeps safe (auth_handler env mo cfg rq body e)"
proof -
  have check: "growing r (snd (enforce_rate_limit ops ipl cfg t rq scope limit window r))" for ipl t scope limit window r
    using growth.enforce_keeps command_keepsD by (metis prod.collapse)
  have safe: "safe s (set_redis r (s\<lparr>si_db := db\<rparr>))" if "growing (site_redis s) r" for s r db
    using that by (simp add: queue_safe_def settings_same)
  show ?thesis
    unfolding assms [symmetric]
    by (cases e) (auto intro!: app_keeps_payload app_keeps_limit app_keeps_db safe check [folded assms] intro: queue_safe_same
        simp: register_def login_def dest!: limited_redis)
qed

lemma status_grows:
  "command_keeps growing (get_queue_status qops adm cfg)" "command_keeps growing (diagnostics qops adm cfg db_ok)"
proof -
  have depth: "command_keeps growing (queue_depth qops cfg)"
    by (rule command_keepsI) (auto simp: queue_depth_def dest!: command_keepsD [OF quiet_commands(3)] split: prod.splits sum.splits)
  have pending: "command_keeps growing (queue_pending adm cfg)"
    by (rule command_keepsI)
       (auto simp: queue_pending_def dest!: command_keepsD [OF admin_commands(1)] split: prod.splits sum.splits redis_error.splits if_splits)
  have ping: "command_keeps growing (ping adm)"
    by (rule command_keepsI) (auto simp: ping_def dest!: command_keepsD [OF admin_commands(2)] split: prod.splits sum.splits)
  show "command_keeps growing (get_queue_status qops adm cfg)"
    by (rule command_keepsI)
       (auto simp: get_queue_status_def dest!: command_keepsD [OF depth] command_keepsD [OF pending] intro: grows_trans split: prod.splits sum.splits)
  show "command_keeps growing (diagnostics qops adm cfg db_ok)"
    by (rule command_keepsI)
       (auto simp: diagnostics_def dest!: command_keepsD [OF depth] command_keepsD [OF ping] intro: grows_trans split: prod.splits)
qed

lemma flush_grows: "command_keeps growing (flush_cache ops adm t query)"
proof (rule command_keepsI)
  fix r x r' assume run: "flush_cache ops adm t query r = (x, r')"
  let ?p = "case query of None \<Rightarrow> ''cache:'' | Some q \<Rightarrow> q"
  obtain found r1 where s: "ra_scan adm t (?p @ ''*'') r = (found, r1)" by fastforce
  have 1: "growing r r1" by (rule command_keepsD [OF admin_commands(3) s])
  show "growing r r'"
  proof (cases "flush_prefix_ok ?p \<and> (\<exists>ks. found = Inr ks)")
    case True
    then obtain ks where ks: "found = Inr ks" by blast
    have "\<exists>rest. ?p @ ''*'' = ''cache:'' @ rest" using True by (auto simp: flush_prefix_ok_def prefix_def)
    then have "list_all own_key ks"
      using scan_found [of t "''cache:''" _ r ks r1] s ks by (auto simp: list_all_iff glob_plain_def)
    moreover obtain d r2 where d: "delete_keys ops t ks 0 r1 = (d, r2)" by fastforce
    ultimately have "growing r1 r2" using command_keepsD [OF growth.delete_keys_keeps] by blast
    moreover have "r' = r2" using run True s ks d by (auto simp: flush_cache_def Let_def split: sum.splits)
    ultimately show ?thesis using grows_trans [OF 1] by simp
  next
    case False
    then show ?thesis using run s 1 by (cases found) (auto simp: flush_cache_def Let_def grows_same split: if_splits)
  qed
qed

lemma with_redis_safe: "command_keeps growing c \<Longrightarrow> app_keeps safe (with_redis respond refuse c)"
  by (rule app_keeps_redis) (auto simp: queue_safe_def settings_same dest: command_keepsD)

lemma admin_handler_safe:
  assumes env: "we_kv (sx_worker env) = ops" "we_q (sx_worker env) = qops" "sx_admin env = adm"
  shows "app_keeps safe (admin_handler env mo cfg rq body e who)"
proof -
  have refl: "safe s s" for s by (simp add: queue_safe_same)
  have db: "app_keeps safe (with_db reached respond tx)" for reached and respond :: "'x \<Rightarrow> response" and tx
    by (rule app_keeps_db) (simp_all add: queue_safe_same)
  have stats: "app_keeps safe (\<lambda>st s. with_db reached f (\<lambda>db. (Inr (g s), db)) st s)" for reached f and g :: "'r site \<Rightarrow> 'x"
    by (rule app_keepsI) (auto simp: with_db_def session_def refl split: prod.splits if_splits)
  have view: "app_keeps safe (\<lambda>st s. reply_app (f s) st s)" for f
    by (rule app_keepsI) (auto simp: reply_app_def refl)
  have reload: "app_keeps safe (reload_app env mo)"
    using reload_settings by (intro app_keepsI)
      (auto simp: reload_app_def queue_safe_def grows_same dest!: reload_config_run split: prod.splits)
  have diag: "command_keeps growing (\<lambda>r. apfst Inr (diagnostics qops adm cfg db_ok r))" for db_ok
    using status_grows(2) [of cfg db_ok] by (auto simp: command_keeps_def apfst_def map_prod_def split: prod.splits)
  show ?thesis
  proof (cases e)
    case QueueRoute
    then show ?thesis using status_grows(1) env by (simp add: with_redis_safe)
  next
    case DiagnosticsRoute
    then show ?thesis using env by (simp add: with_redis_safe [OF diag])
  next
    case FlushRoute
    then show ?thesis using flush_grows env by (simp add: with_redis_safe)
  qed (auto simp: refl db stats view reload intro!: app_keeps_payload app_keeps_reply split: option.split)
qed

lemma proxy_handler_safe:
  assumes env: "we_kv (sx_worker env) = ops" "we_q (sx_worker env) = qops"
  shows "app_keeps safe (proxy_handler env mo rq chunks service path)"
proof (rule app_keepsI)
  fix st s x s' assume run: "proxy_handler env mo rq chunks service path st s = (x, s')"
  let ?p = "\<lparr>ps_redis = site_redis s, ps_calls = [], ps_tasks = si_refreshes s, ps_request = st, ps_effects = []\<rparr>"
  obtain res p where p: "proxy (site_proxy_env env s) (mo_proxy mo) chunks service path rq ?p = (res, p)" by fastforce
  have "pe_kv (site_proxy_env env s) = ops" "we_q (pe_worker (site_proxy_env env s)) = qops"
    using env by (simp_all add: site_proxy_env_def in_force_def)
  from io_keepsD [OF growth.proxy_keeps [OF this] p] have "growing (site_redis s) (ps_redis p) \<and>
      (own_tasks (si_refreshes s) \<longrightarrow> own_tasks (ps_tasks p))" by simp
  moreover have "s' = set_redis (ps_redis p) (s\<lparr>si_refreshes := ps_tasks p\<rparr>)" using run p by (simp add: proxy_handler_def)
  ultimately show "safe s s'" by (simp add: queue_safe_def settings_same)
qed

lemma served_safe:
  assumes env: "we_kv (sx_worker env) = ops" "we_q (sx_worker env) = qops" "sx_admin env = adm"
  shows "safe s (snd (site_serve env mo scope messages rq s))"
proof -
  obtain out s1 where run: "serve (site_stack env mo s) (site_clock (mo_stack mo)) scope messages rq (site_handlers env mo rq s) s = (out, s1)"
    by fastforce
  have "app_keeps safe (router_app cfg (site_handlers env mo rq s ms) rq)" for cfg ms
    by (rule kv_frame.router_keeps [OF safe_frame])
       (simp_all add: auth_handler_safe [OF env(1)] admin_handler_safe [OF env] proxy_handler_safe [OF env(1,2)] app_keeps_reply queue_safe_same)
  then have "command_keeps safe (serve (site_stack env mo s) (site_clock (mo_stack mo)) scope messages rq (site_handlers env mo rq s))"
    using env(1) by (intro kv_frame.serve_keeps [OF safe_frame]) (simp_all add: lift_attempt_same queue_safe_same)
  then have "safe s s1" using run by (rule command_keepsD)
  then show ?thesis using run queue_safe_trans [of hv sv issued key s s1] by (simp add: site_serve_def queue_safe_same)
qed

lemma run_refresh_safe:
  assumes "we_kv (sx_worker env) = ops" "own_tasks (si_refreshes s)" "i < length (si_refreshes s)"
  shows "safe s (run_refresh env ck i s)"
proof -
  let ?p = "\<lparr>ps_redis = site_redis s, ps_calls = [], ps_tasks = [], ps_request = fresh_state, ps_effects = []\<rparr>"
  obtain res p where p: "refresh_cache (site_proxy_env env s) ck (si_refreshes s ! i) ?p = (res, p)" by fastforce
  have "pe_kv (site_proxy_env env s) = ops" "own_key (rt_key (si_refreshes s ! i))"
    using assms by (simp_all add: site_proxy_env_def in_force_def own_tasks_def list_all_length)
  from io_keepsD [OF growth.refresh_cache_keeps [OF this] p] have "growing (site_redis s) (ps_redis p)" by simp
  moreover have "own_tasks (take i (si_refreshes s) @ drop (Suc i) (si_refreshes s))"
    using assms(2) by (auto simp: own_tasks_def list_all_iff dest: in_set_takeD in_set_dropD)
  ultimately show ?thesis using p by (simp add: run_refresh_def queue_safe_def settings_same)
qed

end

section \<open>The workers\<close>

context queue_site
begin

lemma read_copies_run:
  assumes env: "we_q env = qops" and run: "read_copies env adm consumer w = (res, w')"
  shows "quiet hv sv w w'" "knowing (w_redis w) (w_redis w')"
    and "res = Inr es \<Longrightarrow> distinct (map fst (queue_of env sv w)) \<Longrightarrow> set es \<subseteq> set (queue_of env sv w)"
proof -
  let ?read = "rq_xreadgroup qops (queue_stream_key (we_cfg env)) (queue_consumer_group (we_cfg env)) consumer 16"
  obtain x w1 where g: "redis_io (ensure_group adm (we_cfg env)) w = (x, w1)" by fastforce
  have 1: "quiet hv sv w w1" by (rule ensure_group_quiet [OF g])
  have k1: "knowing (w_redis w) (w_redis w1)"
    using g by (auto elim!: redis_ioE dest!: command_keepsD [OF ids.ensure_group_keeps])
  have steps: "w' = w1 \<and> (\<forall>es. res \<noteq> Inr es) \<or> redis_io ?read w1 = (res, w')"
    using run g env by (auto simp: read_copies_def io_bind_def split: sum.splits)
  have 2: "quiet hv sv w1 w' \<and> knowing (w_redis w1) (w_redis w')" if "redis_io ?read w1 = (res, w')"
    using command_quiet [OF that] xread_same that by (auto elim!: redis_ioE dest!: command_keepsD [OF ids.xread_keeps])
  show "quiet hv sv w w'" using steps 1 2 transpD [OF quiet_trans] by blast
  show "knowing (w_redis w) (w_redis w')" using steps k1 2 ids_kept_trans [OF k1] by auto
  assume es: "res = Inr es" "distinct (map fst (queue_of env sv w))"
  have same: "sv (w_redis w1) = sv (w_redis w)" using 1 by (simp add: quiet_def)
  obtain r' where "?read (w_redis w1) = (Inr es, r')" using steps es(1) by (auto elim!: redis_ioE)
  from xread_reply [OF this] show "set es \<subseteq> set (queue_of env sv w)" using es(2) by (simp add: same)
qed

lemma claim_copies_run:
  assumes env: "we_q env = qops" and run: "claim_copies env consumer t w = (res, w')"
  shows "quiet hv sv w w'" "knowing (w_redis w) (w_redis w')"
    and "res = Inr es \<Longrightarrow> distinct (map fst (queue_of env sv w)) \<Longrightarrow> set es \<subseteq> set (queue_of env sv w)"
proof -
  let ?claim = "rq_xautoclaim qops t (queue_stream_key (we_cfg env)) (queue_consumer_group (we_cfg env)) consumer
    (queue_claim_idle_seconds (we_cfg env) * 1000) (w_cursor w) 64"
  obtain x w1 where c: "redis_io ?claim w = (x, w1)" by fastforce
  have 1: "quiet hv sv w w1" by (rule command_quiet [OF c]) (rule xclaim_same)
  have k1: "knowing (w_redis w) (w_redis w1)" using c by (auto elim!: redis_ioE dest!: command_keepsD [OF ids.xclaim_keeps])
  have steps: "w' = w1 \<and> (\<forall>es. res \<noteq> Inr es) \<or>
      (\<exists>cursor claimed. x = Inr (cursor, claimed) \<and> res = Inr (filter (\<lambda>e. snd e \<noteq> []) claimed) \<and> w' = w1\<lparr>w_cursor := cursor\<rparr>)"
    using run c env by (auto simp: claim_copies_def io_bind_def split: sum.splits)
  then show "quiet hv sv w w'" "knowing (w_redis w) (w_redis w')" using 1 k1 by (auto simp: quiet_def)
  assume es: "res = Inr es" "distinct (map fst (queue_of env sv w))"
  then obtain cursor claimed r' where "?claim (w_redis w) = (Inr (cursor, claimed), r')" "es = filter (\<lambda>e. snd e \<noteq> []) claimed"
    using steps c by (auto elim!: redis_ioE)
  then show "set es \<subseteq> set (queue_of env sv w)" using xclaim_reply es(2) by auto
qed

end

section \<open>The fate of a queued write\<close>

abbreviation site_world :: "'r site \<Rightarrow> 'r world" where
  "site_world s \<equiv> tk_world (si_task s)"

abbreviation site_key :: "'r site \<Rightarrow> string" where
  "site_key s \<equiv> queue_stream_key (cs_settings (si_config s))"

lemma in_force_simps [simp]:
  "we_kv (in_force env s) = we_kv (sx_worker env)" "we_q (in_force env s) = we_q (sx_worker env)"
  "we_cfg (in_force env s) = cs_settings (si_config s)" "we_loads (in_force env s) = we_loads (sx_worker env)"
  by (simp_all add: in_force_def)

definition write_known ::
  "('r, 'ip) site_env \<Rightarrow> 'r hash_view \<Rightarrow> 'r stream_view \<Rightarrow> ('r \<Rightarrow> string \<Rightarrow> string set) \<Rightarrow> string \<Rightarrow> nat \<Rightarrow> (string, string) dict \<Rightarrow> 'r site \<Rightarrow> bool" where
  \<comment> \<open>the identifier was given out for the fields, in the stream and in every copy; the number counts the stale copies handled\<close>
  "write_known env hv sv issued m n flds s =
     (entry_inv (in_force env s) hv sv m n flds (site_world s) \<and> ids_known sv issued (site_key s) (site_redis s) \<and>
      m \<in> issued (site_redis s) (site_key s) \<and> (\<forall>f. (m, f) \<in> set (si_held s) \<longrightarrow> f = flds) \<and> own_tasks (si_refreshes s))"

fun stale_copy :: "'r stream_view \<Rightarrow> string \<Rightarrow> 'r site \<Rightarrow> 'r site_event \<Rightarrow> bool" where
  \<comment> \<open>a worker handles a copy of an entry that is no longer in the stream\<close>
  "stale_copy sv m s (Handling ck i) = (fst (si_held s ! i) = m \<and> m \<notin> fst ` set (sv (site_redis s) (site_key s)))"
| "stale_copy sv m s e = False"

inductive write_run :: "('r, 'ip) site_env \<Rightarrow> 'r stream_view \<Rightarrow> string \<Rightarrow> nat \<Rightarrow> 'r site \<Rightarrow> 'r site \<Rightarrow> bool" for env sv m where
  write_nil: "write_run env sv m 0 s s"
| write_snoc: "write_run env sv m n s s1 \<Longrightarrow> site_step (meanwhile http db env) e s1 s2 \<Longrightarrow>
    write_run env sv m (n + (if stale_copy sv m s1 e then 1 else 0)) s s2"

lemma queue_settings:
  assumes "cs_settings (si_config s') = (cs_settings (si_config s))\<lparr>upstream_services := ups\<rparr>"
  shows "entry_inv (in_force env s') hv sv m n flds = entry_inv (in_force env s) hv sv m n flds"
    "Sync_Worker.accounted (in_force env s') sv m flds = Sync_Worker.accounted (in_force env s) sv m flds"
    "site_key s' = site_key s" "queue_max_retries (cs_settings (si_config s')) = queue_max_retries (cs_settings (si_config s))"
  using assms
  by (simp_all add: fun_eq_iff entry_inv_def budget_inv_def stream_ids_def Sync_Worker.accounted_def recorded_def dead_letter_row_def)

lemma meanwhile_known [simp]:
  "write_known (meanwhile http db env) hv sv issued m n flds = write_known env hv sv issued m n flds"
  by (simp add: fun_eq_iff write_known_def entry_inv_def budget_inv_def)

definition write_step ::
  "('r, 'ip) site_env \<Rightarrow> 'r hash_view \<Rightarrow> 'r stream_view \<Rightarrow> ('r \<Rightarrow> string \<Rightarrow> string set) \<Rightarrow> string \<Rightarrow> nat \<Rightarrow> (string, string) dict \<Rightarrow>
     'r site \<Rightarrow> 'r site \<Rightarrow> bool" where
  "write_step env hv sv issued m n flds s s' =
     (write_known env hv sv issued m n flds s' \<and> Sync_Worker.accounted (in_force env s) sv m flds (site_world s) (site_world s') \<and>
      (\<exists>ups. cs_settings (si_config s') = (cs_settings (si_config s))\<lparr>upstream_services := ups\<rparr>))"

lemma safe_activity:
  assumes safe: "queue_safe hv sv issued (site_key s) s s'" and known: "write_known env hv sv issued m n flds s"
  shows "other_activity (in_force env s) hv sv m (site_world s) (site_world s')"
proof -
  obtain new where new: "sv (site_redis s') (site_key s) = sv (site_redis s) (site_key s) @ new" "distinct (map fst new)"
      "fst ` set new \<inter> issued (site_redis s) (site_key s) = {}"
    using safe known by (auto simp: queue_safe_def grows_def write_known_def)
  have "fst ` set (sv (site_redis s) (site_key s)) \<subseteq> issued (site_redis s) (site_key s)" "m \<in> issued (site_redis s) (site_key s)"
      "distinct (map fst (sv (site_redis s) (site_key s)))"
    using known by (auto simp: write_known_def ids_known_def entry_inv_def site_redis_def)
  then have "distinct (map fst (sv (site_redis s') (site_key s)))" "m \<notin> fst ` set new" using new by auto
  then show ?thesis
    using safe new(1)
    by (auto simp: other_activity_def untouched_def stream_ids_def sends_def queue_safe_def grows_def site_redis_def image_iff)
qed

lemma safe_write:
  assumes safe: "queue_safe hv sv issued (site_key s) s s'" and known: "write_known env hv sv issued m n flds s"
  shows "write_step env hv sv issued m n flds s s'"
proof -
  obtain ups where ups: "cs_settings (si_config s') = (cs_settings (si_config s))\<lparr>upstream_services := ups\<rparr>"
    using safe by (auto simp: queue_safe_def)
  have "entry_inv (in_force env s) hv sv m n flds (site_world s)" using known by (simp add: write_known_def)
  from other_entry [OF safe_activity [OF assms] this] show ?thesis
    using safe known ups
    by (auto simp: write_step_def write_known_def queue_settings [OF ups] queue_safe_def grows_def ids_kept_def)
qed

text \<open>A step of a worker: the world changes, and the copies that are held.\<close>

lemma worker_write:
  assumes "entry_inv (in_force env s) hv sv m n' flds w \<and> Sync_Worker.accounted (in_force env s) sv m flds (site_world s) w"
    and "ids_kept sv issued (site_key s) (site_redis s) (w_redis w)" "write_known env hv sv issued m n flds s"
    and "\<forall>f. (m, f) \<in> set held \<longrightarrow> f = flds" "tk_world tk = w"
  shows "write_step env hv sv issued m n' flds s (s\<lparr>si_task := tk, si_held := held\<rparr>)"
  using assms by (auto simp: write_step_def write_known_def settings_same ids_kept_def site_redis_def in_force_def)

lemma fetch_write:
  assumes run: "fetch (site_world s) = (res, w)" "quiet hv sv (site_world s) w" "ids_kept sv issued (site_key s) (site_redis s) (w_redis w)"
    and reply: "\<And>es. res = Inr es \<Longrightarrow> set es \<subseteq> set (queue_of (in_force env s) sv (site_world s))"
    and known: "write_known env hv sv issued m n flds s"
  shows "write_step env hv sv issued m n flds s (hold_copies fetch s)"
proof -
  have inv: "entry_inv (in_force env s) hv sv m n flds (site_world s)" using known by (simp add: write_known_def)
  have "\<forall>f. (m, f) \<in> set (si_held s @ (case res of Inr es \<Rightarrow> es | Inl _ \<Rightarrow> [])) \<longrightarrow> f = flds"
    using known inv reply by (cases res) (auto simp: write_known_def entry_inv_def)
  from worker_write [OF quiet_entry [OF run(2) inv] run(3) known this, of "(si_task s)\<lparr>tk_world := w\<rparr>"] show ?thesis
    using run(1) by (simp add: hold_copies_def)
qed

lemma site_step_write:
  assumes laws: "queue_site (we_kv (sx_worker env)) view (we_q (sx_worker env)) hv sv (sx_admin env) issued (site_key s)"
    and limit: "queue_max_retries (cs_settings (si_config s)) + 1 < int py_int_limit"
    and step: "site_step env e s s'" and known: "write_known env hv sv issued m n flds s"
  shows "write_step env hv sv issued m (n + (if stale_copy sv m s e then 1 else 0)) flds s s'"
proof -
  note consumer = redis_site_laws.axioms(1) [OF queue_site.axioms(1) [OF laws]]
  note frame = queue_site.ids_frame [OF laws]
  have inv: "entry_inv (in_force env s) hv sv m n flds (site_world s)" and dist: "distinct (map fst (queue_of (in_force env s) sv (site_world s)))"
    using known by (simp_all add: write_known_def entry_inv_def)
  have lim: "max_attempts (in_force env s) < int py_int_limit" using limit by simp
  have same: "write_step env hv sv issued m n flds s s1"
    if "tk_world (si_task s1) = site_world s" "si_config s1 = si_config s" "set (si_held s1) \<subseteq> set (si_held s)"
      "own_tasks (si_refreshes s) \<longrightarrow> own_tasks (si_refreshes s1)" for s1
    by (rule safe_write [OF queue_safe_same [OF that] known])
  show ?thesis
    using step
  proof cases
    case (served mo scope messages rq)
    show ?thesis
      unfolding served using safe_write [OF queue_site.served_safe [OF laws refl refl refl] known] by simp
  next
    case (refreshing i ck)
    have "own_tasks (si_refreshes s)" using known by (simp add: write_known_def)
    then show ?thesis
      unfolding refreshing using safe_write [OF queue_site.run_refresh_safe [OF laws refl _ refreshing(3)] known] by simp
  next
    case (polled consumer inp)
    let ?tk = "worker_iteration (in_force env s) (sx_admin env) consumer inp (si_task s)"
    have "ids_kept sv issued (site_key s) (site_redis s) (w_redis (tk_world ?tk))"
      using worker_frame.iteration_keeps [OF frame] by (simp add: site_redis_def)
    from worker_write [OF redis_consumer_laws.iteration_entry_step [OF consumer _ _ lim inv] this known, of "si_held s" ?tk]
    have "write_step env hv sv issued m n flds s (s\<lparr>si_task := ?tk, si_held := si_held s\<rparr>)"
      using known by (simp add: write_known_def)
    then show ?thesis using polled by simp
  next
    case (reading consumer)
    obtain res w where run: "read_copies (in_force env s) (sx_admin env) consumer (site_world s) = (res, w)" by fastforce
    note eff = queue_site.read_copies_run [OF laws _ run]
    have "write_step env hv sv issued m n flds s (hold_copies (read_copies (in_force env s) (sx_admin env) consumer) s)"
      by (rule fetch_write [where res = res and w = w, OF _ _ _ _ known]) (use eff dist run in \<open>simp_all add: site_redis_def\<close>)
    then show ?thesis by (simp add: reading)
  next
    case (claiming consumer t)
    obtain res w where run: "claim_copies (in_force env s) consumer t (site_world s) = (res, w)" by fastforce
    note eff = queue_site.claim_copies_run [OF laws _ run]
    have "write_step env hv sv issued m n flds s (hold_copies (claim_copies (in_force env s) consumer t) s)"
      by (rule fetch_write [where res = res and w = w, OF _ _ _ _ known]) (use eff dist run in \<open>simp_all add: site_redis_def\<close>)
    then show ?thesis by (simp add: claiming)
  next
    case (handling i ck)
    obtain j f where c: "si_held s ! i = (j, f)" by fastforce
    obtain res w where run: "handle (in_force env s) ck j f (site_world s) = (res, w)" by fastforce
    have copy: "j = m \<Longrightarrow> f = flds" using known nth_mem [OF handling(3)] c by (auto simp: write_known_def)
    have "ids_kept sv issued (site_key s) (site_redis s) (w_redis w)"
      using io_keepsD [OF worker_frame.handle_keeps [OF frame] run] by (simp add: site_redis_def)
    note step = worker_write [OF redis_queue_laws.handle_entry [OF redis_consumer_laws.axioms(1) [OF consumer] _ _ lim run inv copy] this known,
        of "take i (si_held s) @ drop (Suc i) (si_held s)" "(si_task s)\<lparr>tk_world := w\<rparr>"]
    have "\<forall>f. (m, f) \<in> set (take i (si_held s) @ drop (Suc i) (si_held s)) \<longrightarrow> f = flds"
      using known by (auto simp: write_known_def dest: in_set_takeD in_set_dropD)
    from step [OF _ _ _ this] show ?thesis
      using handling c run by (simp add: handle_copy_def drop_copy_def stream_ids_def site_redis_def)
  next
    case (losing i)
    have "set (si_held (drop_copy i s)) \<subseteq> set (si_held s)"
      by (auto simp: drop_copy_def dest: in_set_takeD in_set_dropD)
    then show ?thesis using same [of "drop_copy i s"] losing by simp
  qed (use same in \<open>auto simp: own_tasks_def\<close>)
qed

lemma write_run_known:
  assumes laws: "queue_site (we_kv (sx_worker env)) view (we_q (sx_worker env)) hv sv (sx_admin env) issued (site_key s)"
    and run: "write_run env sv m n s s'"
    and start: "queue_max_retries (cs_settings (si_config s)) + 1 < int py_int_limit" "write_known env hv sv issued m 0 flds s"
  shows "write_step env hv sv issued m n flds s s'"
  using run laws start
proof (induction rule: write_run.induct)
  case (write_nil s)
  then show ?case by (simp add: write_step_def settings_same reflpD [OF accounted_refl])
next
  case (write_snoc n s s1 http db e s2)
  then have 1: "write_step env hv sv issued m n flds s s1" by blast
  then obtain ups where ups: "cs_settings (si_config s1) = (cs_settings (si_config s))\<lparr>upstream_services := ups\<rparr>"
    by (auto simp: write_step_def)
  have "write_step (meanwhile http db env) hv sv issued m (n + (if stale_copy sv m s1 e then 1 else 0)) flds s1 s2"
    by (rule site_step_write [OF _ _ write_snoc.hyps(2)])
       (use 1 write_snoc.prems in \<open>simp_all add: queue_settings [OF ups] write_step_def\<close>)
  then show ?case
    using 1 transpD [OF accounted_trans [of "in_force env s" sv m flds]]
    by (auto simp: write_step_def queue_settings [OF ups] ups)
qed

text \<open>
  C1.  The promise behind a 202, in the whole system.  A write is in the queue and was not sent yet,
  and the stream is under a name that is not one of the gateway's own keys.  Then whatever happens:
  requests of anybody through all the middleware, administrators flushing the cache, reloading the
  policy or looking at the queue, background refreshes, log writing, the operator, upstreams and a
  database that behave differently all the time, and any number of workers that read, claim, handle
  and lose copies of entries in any order, each handling of which may break off anywhere.  The write
  is still in the stream with its fields, or its row is in the dead-letter table, or an upstream
  accepted it.  While it is in the stream it was sent at most \<open>queue_max_retries + 1\<close> times; afterwards
  once more for every stale copy that a worker still handles.
\<close>

theorem queued_write_fate_system:
  assumes laws: "redis_site_laws (we_kv (sx_worker env)) view (we_q (sx_worker env)) hv sv (sx_admin env) issued"
    and settings: "cfg = cs_settings (si_config s)" "0 \<le> queue_max_retries cfg" "queue_max_retries cfg + 1 < int py_int_limit"
      "\<not> own_key (queue_stream_key cfg)"
    and queued: "(m, flds) \<in> set (sv (site_redis s) (queue_stream_key cfg))"
      "distinct (map fst (sv (site_redis s) (queue_stream_key cfg)))" "ids_known sv issued (queue_stream_key cfg) (site_redis s)"
      "hv (site_redis s) ATTEMPTS_HASH m = None" "sends m (tk_world (si_task s)) = 0"
    and copies: "\<forall>f. (m, f) \<in> set (si_held s) \<longrightarrow> f = flds" "own_tasks (si_refreshes s)"
    and run: "write_run env sv m stale s s'"
  shows "((m, flds) \<in> set (sv (site_redis s') (queue_stream_key cfg)) \<or>
      recorded (in_force env s) flds (tk_world (si_task s)) (tk_world (si_task s')) \<or>
      accepted m (tk_world (si_task s)) (tk_world (si_task s'))) \<and>
    sends m (tk_world (si_task s')) \<le> queue_max_retries cfg + 1 + int stale \<and>
    (m \<in> fst ` set (sv (site_redis s') (queue_stream_key cfg)) \<longrightarrow> sends m (tk_world (si_task s')) \<le> queue_max_retries cfg + 1)"
proof -
  have site: "queue_site (we_kv (sx_worker env)) view (we_q (sx_worker env)) hv sv (sx_admin env) issued (site_key s)"
    using laws settings(1,4) by (simp add: queue_site_def queue_site_axioms_def)
  have "write_known env hv sv issued m 0 flds s"
    using settings queued copies
    by (auto simp: write_known_def entry_inv_def budget_inv_def stored_attempts_def site_redis_def ids_known_def dest: eq_key_imp_eq_value)
  then have last: "write_step env hv sv issued m stale flds s s'" using write_run_known [OF site run] settings by simp
  then obtain ups where ups: "cs_settings (si_config s') = (cs_settings (si_config s))\<lparr>upstream_services := ups\<rparr>"
    by (auto simp: write_step_def)
  have "m \<in> stream_ids (in_force env s) sv (site_world s)"
    using queued(1) settings(1) by (force simp: stream_ids_def site_redis_def)
  moreover have "entry_inv (in_force env s) hv sv m stale flds (site_world s')"
    using last by (simp add: write_step_def write_known_def queue_settings [OF ups])
  ultimately show ?thesis
    using last settings(1)
    by (auto simp: write_step_def entry_inv_def budget_inv_def Sync_Worker.accounted_def stream_ids_def site_redis_def)
qed

section \<open>Witness\<close>

lemmas demo_next = write_snoc [where env = demo_site_env and http = demo_accepting and db = "\<lambda>_. Stored", unfolded demo_meanwhile]

theorem queued_write_fate_system_witness:
  "write_run demo_site_env m_stream ''0'' 0 demo_site demo_polled \<and> sends ''0'' (tk_world (si_task demo_polled)) \<le> 5 \<and>
     ((''0'', demo_entry_fields) \<in> set (m_stream (site_redis demo_polled) ''offline_queue'') \<or>
      recorded (in_force demo_site_env demo_site) demo_entry_fields demo_queue_world (tk_world (si_task demo_polled)) \<or>
      accepted ''0'' demo_queue_world (tk_world (si_task demo_polled)))"
proof -
  have run: "write_run demo_site_env m_stream ''0'' 0 demo_site demo_polled"
    using demo_next [OF demo_next [OF write_nil demo_steps(1)] demo_steps(2)] by simp
  have laws: "redis_site_laws (we_kv (sx_worker demo_site_env)) mem_view (we_q (sx_worker demo_site_env)) m_hash m_stream (sx_admin demo_site_env) mem_issued"
    using memsite.redis_site_laws_axioms by simp
  have cfg: "queue_stream_key default_settings = ''offline_queue''" "queue_max_retries default_settings = 4"
    by (simp_all add: default_settings_def)
  have "(10 :: nat) ^ 1 \<le> py_int_limit" unfolding py_int_limit_def by (rule power_increasing) simp_all
  then have lim: "queue_max_retries (cs_settings (si_config demo_site)) + 1 < int py_int_limit" using cfg by simp
  have "str_of_nat 0 \<noteq> str_of_nat n" if "1 \<le> n" for n using str_of_nat_inj [of 0 n] that by auto
  moreover have "str_of_nat 0 = ''0''" by code_simp
  ultimately have ids: "ids_known m_stream mem_issued ''offline_queue'' (site_redis demo_site)"
    by (auto simp: ids_known_def mem_issued_def site_redis_def demo_task_def demo_queue_world_def)
  have held: "si_held demo_site = []" "si_refreshes demo_site = []" by (simp_all add: demo_site_def)
  from queued_write_fate_system [OF laws refl _ lim _ _ _ _ _ _ _ _ run, of demo_entry_fields] ids run memqueue.foreign show ?thesis
    by (auto simp: cfg site_redis_def demo_task_def demo_queue_world_def mem_empty_def sends_def held own_tasks_def)
qed

end
