(* ===== verification/Schema.thy ===== *)
theory Schema
  imports Py_String
begin

text \<open>
  The database schema: the ORM classes of \<^verbatim>\<open>gateway/models/db.py\<close>, the initial revision under
  \<^verbatim>\<open>gateway/migrations/versions\<close> and \<^verbatim>\<open>gateway/migrations/env.py\<close>.  Classes and migration are
  data: the attributes with the arguments of \<^verbatim>\<open>mapped_column\<close>, and the calls of \<^verbatim>\<open>op\<close> in
  order.  SQLAlchemy's reading of a class and the database's execution of a statement are
  parameters; \<open>declarative_laws\<close> and \<open>ddl_laws\<close> name what is relied on.  The lemmas show that the
  migration and \<^verbatim>\<open>init_models\<close> build the same schema, that downgrading undoes the upgrade, and
  that migrations reach the database the gateway uses.
\<close>

section \<open>Tables, indexes and statements\<close>

datatype col_type = T_Uuid | T_String nat | T_Text | T_Boolean | T_Integer | T_Float | T_JSON
  | T_DateTime bool \<comment> \<open>with time zone\<close>

datatype on_delete = CASCADE | SET_NULL

record column =
  c_name :: string
  c_type :: col_type
  c_nullable :: bool
  c_server_default :: "string option"

record foreign_key =
  fk_column :: string
  fk_table :: string
  fk_target :: string
  fk_ondelete :: on_delete

record table_def =
  tb_name :: string
  tb_columns :: "column list"
  tb_foreign_keys :: "foreign_key list"
  tb_primary_key :: string

record index_def =
  ix_name :: string
  ix_table :: string
  ix_columns :: "string list"
  ix_unique :: bool

datatype ddl =
    Create_Table table_def
  | Create_Index index_def
  | Drop_Index string string \<comment> \<open>index and table\<close>
  | Drop_Table string

definition column_names :: "table_def \<Rightarrow> string list" where
  "column_names t = map c_name (tb_columns t)"

section \<open>The ORM classes\<close>

datatype py_type = Py_UUID | Py_str | Py_bool | Py_int | Py_float | Py_dict | Py_datetime

text \<open>An attribute: its annotation \<^verbatim>\<open>Mapped[...]\<close> and the arguments of \<^verbatim>\<open>mapped_column\<close>.\<close>

record mapped_attr =
  ma_name :: string
  ma_py :: py_type
  ma_optional :: bool \<comment> \<open>the annotation is a union with \<^verbatim>\<open>None\<close>\<close>
  ma_type :: "col_type option"
  ma_primary_key :: bool
  ma_foreign_key :: "(string \<times> string \<times> on_delete) option"
  ma_nullable :: "bool option"
  ma_unique :: bool
  ma_index :: bool
  ma_default :: bool \<comment> \<open>a Python-side default fills the attribute\<close>
  ma_server_default :: "string option"

record orm_class =
  oc_table :: string
  oc_attrs :: "mapped_attr list"

definition mapped_column :: "string \<Rightarrow> py_type \<Rightarrow> col_type \<Rightarrow> mapped_attr" where
  "mapped_column name py ty =
     \<lparr>ma_name = name, ma_py = py, ma_optional = False, ma_type = Some ty, ma_primary_key = False,
      ma_foreign_key = None, ma_nullable = None, ma_unique = False, ma_index = False, ma_default = False,
      ma_server_default = None\<rparr>"

definition optional :: "mapped_attr \<Rightarrow> mapped_attr" where
  \<comment> \<open>\<^verbatim>\<open>Mapped[T | None]\<close> with \<^verbatim>\<open>nullable=True\<close>\<close>
  "optional a = a\<lparr>ma_optional := True, ma_nullable := Some True\<rparr>"

definition id_attr :: mapped_attr where
  "id_attr = (mapped_column ''id'' Py_UUID T_Uuid)\<lparr>ma_primary_key := True, ma_default := True\<rparr>"

definition created_at_attr :: mapped_attr where
  "created_at_attr = (mapped_column ''created_at'' Py_datetime (T_DateTime True))\<lparr>ma_server_default := Some ''now()''\<rparr>"

definition User :: orm_class where
  "User = \<lparr>oc_table = ''users'', oc_attrs =
     [id_attr,
      (mapped_column ''email'' Py_str (T_String 320))\<lparr>ma_unique := True, ma_index := True\<rparr>,
      mapped_column ''hashed_password'' Py_str (T_String 128),
      (mapped_column ''is_active'' Py_bool T_Boolean)\<lparr>ma_default := True\<rparr>,
      (mapped_column ''is_admin'' Py_bool T_Boolean)\<lparr>ma_default := True\<rparr>,
      created_at_attr]\<rparr>"

definition RefreshToken :: orm_class where
  "RefreshToken = \<lparr>oc_table = ''refresh_tokens'', oc_attrs =
     [id_attr,
      (mapped_column ''token_hash'' Py_str (T_String 64))\<lparr>ma_unique := True, ma_index := True\<rparr>,
      (mapped_column ''user_id'' Py_UUID T_Uuid)\<lparr>ma_type := None, ma_foreign_key := Some (''users'', ''id'', CASCADE),
         ma_index := True\<rparr>,
      mapped_column ''expires_at'' Py_datetime (T_DateTime True),
      (mapped_column ''revoked'' Py_bool T_Boolean)\<lparr>ma_default := True\<rparr>,
      optional (mapped_column ''replaced_by'' Py_UUID T_Uuid),
      created_at_attr]\<rparr>"

definition APIKey :: orm_class where
  "APIKey = \<lparr>oc_table = ''api_keys'', oc_attrs =
     [id_attr,
      mapped_column ''name'' Py_str (T_String 128),
      (mapped_column ''key_hash'' Py_str (T_String 64))\<lparr>ma_unique := True, ma_index := True\<rparr>,
      (mapped_column ''prefix'' Py_str (T_String 12))\<lparr>ma_index := True\<rparr>,
      (optional (mapped_column ''user_id'' Py_UUID T_Uuid))\<lparr>ma_type := None,
         ma_foreign_key := Some (''users'', ''id'', SET_NULL)\<rparr>,
      (mapped_column ''is_active'' Py_bool T_Boolean)\<lparr>ma_default := True\<rparr>,
      created_at_attr,
      optional (mapped_column ''last_used_at'' Py_datetime (T_DateTime True))]\<rparr>"

definition RequestLog :: orm_class where
  "RequestLog = \<lparr>oc_table = ''request_logs'', oc_attrs =
     [id_attr,
      mapped_column ''method'' Py_str (T_String 8),
      mapped_column ''path'' Py_str (T_String 2048),
      (mapped_column ''network_quality'' Py_str (T_String 16))\<lparr>ma_index := True\<rparr>,
      mapped_column ''cache_status'' Py_str (T_String 16),
      mapped_column ''status_code'' Py_int T_Integer,
      mapped_column ''rtt_ms'' Py_float T_Float,
      optional (mapped_column ''upstream_latency_ms'' Py_float T_Float),
      optional (mapped_column ''response_size_original'' Py_int T_Integer),
      optional (mapped_column ''response_size_optimized'' Py_int T_Integer),
      optional (mapped_column ''client_id'' Py_str (T_String 128)),
      created_at_attr\<lparr>ma_index := True\<rparr>]\<rparr>"

definition FailedRequest :: orm_class where
  "FailedRequest = \<lparr>oc_table = ''failed_requests'', oc_attrs =
     [id_attr,
      mapped_column ''method'' Py_str (T_String 8),
      mapped_column ''path'' Py_str (T_String 2048),
      (mapped_column ''headers'' Py_dict T_JSON)\<lparr>ma_default := True\<rparr>,
      optional (mapped_column ''body'' Py_str T_Text),
      optional (mapped_column ''client_id'' Py_str (T_String 128)),
      (mapped_column ''retries'' Py_int T_Integer)\<lparr>ma_default := True\<rparr>,
      optional (mapped_column ''last_error'' Py_str T_Text),
      optional (mapped_column ''queued_at'' Py_datetime (T_DateTime True)),
      created_at_attr]\<rparr>"

definition metadata :: "orm_class list" where
  \<comment> \<open>\<^verbatim>\<open>Base.metadata\<close>\<close>
  "metadata = [User, RefreshToken, APIKey, RequestLog, FailedRequest]"

section \<open>The initial revision\<close>

definition Column :: "string \<Rightarrow> col_type \<Rightarrow> bool \<Rightarrow> column" where
  "Column name ty nullable = \<lparr>c_name = name, c_type = ty, c_nullable = nullable, c_server_default = None\<rparr>"

definition created_at_column :: column where
  "created_at_column = (Column ''created_at'' (T_DateTime True) False)\<lparr>c_server_default := Some ''now()''\<rparr>"

definition failed_requests_table :: table_def where
  "failed_requests_table = \<lparr>tb_name = ''failed_requests'', tb_columns =
     [Column ''id'' T_Uuid False,
      Column ''method'' (T_String 8) False,
      Column ''path'' (T_String 2048) False,
      Column ''headers'' T_JSON False,
      Column ''body'' T_Text True,
      Column ''client_id'' (T_String 128) True,
      Column ''retries'' T_Integer False,
      Column ''last_error'' T_Text True,
      Column ''queued_at'' (T_DateTime True) True,
      created_at_column], tb_foreign_keys = [], tb_primary_key = ''id''\<rparr>"

definition request_logs_table :: table_def where
  "request_logs_table = \<lparr>tb_name = ''request_logs'', tb_columns =
     [Column ''id'' T_Uuid False,
      Column ''method'' (T_String 8) False,
      Column ''path'' (T_String 2048) False,
      Column ''network_quality'' (T_String 16) False,
      Column ''cache_status'' (T_String 16) False,
      Column ''status_code'' T_Integer False,
      Column ''rtt_ms'' T_Float False,
      Column ''upstream_latency_ms'' T_Float True,
      Column ''response_size_original'' T_Integer True,
      Column ''response_size_optimized'' T_Integer True,
      Column ''client_id'' (T_String 128) True,
      created_at_column], tb_foreign_keys = [], tb_primary_key = ''id''\<rparr>"

definition users_table :: table_def where
  "users_table = \<lparr>tb_name = ''users'', tb_columns =
     [Column ''id'' T_Uuid False,
      Column ''email'' (T_String 320) False,
      Column ''hashed_password'' (T_String 128) False,
      Column ''is_active'' T_Boolean False,
      Column ''is_admin'' T_Boolean False,
      created_at_column], tb_foreign_keys = [], tb_primary_key = ''id''\<rparr>"

definition api_keys_table :: table_def where
  "api_keys_table = \<lparr>tb_name = ''api_keys'', tb_columns =
     [Column ''id'' T_Uuid False,
      Column ''name'' (T_String 128) False,
      Column ''key_hash'' (T_String 64) False,
      Column ''prefix'' (T_String 12) False,
      Column ''user_id'' T_Uuid True,
      Column ''is_active'' T_Boolean False,
      created_at_column,
      Column ''last_used_at'' (T_DateTime True) True],
     tb_foreign_keys = [\<lparr>fk_column = ''user_id'', fk_table = ''users'', fk_target = ''id'', fk_ondelete = SET_NULL\<rparr>],
     tb_primary_key = ''id''\<rparr>"

definition refresh_tokens_table :: table_def where
  "refresh_tokens_table = \<lparr>tb_name = ''refresh_tokens'', tb_columns =
     [Column ''id'' T_Uuid False,
      Column ''token_hash'' (T_String 64) False,
      Column ''user_id'' T_Uuid False,
      Column ''expires_at'' (T_DateTime True) False,
      Column ''revoked'' T_Boolean False,
      Column ''replaced_by'' T_Uuid True,
      created_at_column],
     tb_foreign_keys = [\<lparr>fk_column = ''user_id'', fk_table = ''users'', fk_target = ''id'', fk_ondelete = CASCADE\<rparr>],
     tb_primary_key = ''id''\<rparr>"

definition Index :: "string \<Rightarrow> string \<Rightarrow> string list \<Rightarrow> bool \<Rightarrow> index_def" where
  "Index name table cols unique = \<lparr>ix_name = name, ix_table = table, ix_columns = cols, ix_unique = unique\<rparr>"

definition create_index :: "string \<Rightarrow> string \<Rightarrow> string list \<Rightarrow> bool \<Rightarrow> ddl" where
  "create_index name table cols unique = Create_Index (Index name table cols unique)"

definition upgrade :: "ddl list" where
  "upgrade =
     [Create_Table failed_requests_table,
      Create_Table request_logs_table,
      create_index ''ix_request_logs_created_at'' ''request_logs'' [''created_at''] False,
      create_index ''ix_request_logs_network_quality'' ''request_logs'' [''network_quality''] False,
      Create_Table users_table,
      create_index ''ix_users_email'' ''users'' [''email''] True,
      Create_Table api_keys_table,
      create_index ''ix_api_keys_key_hash'' ''api_keys'' [''key_hash''] True,
      create_index ''ix_api_keys_prefix'' ''api_keys'' [''prefix''] False,
      Create_Table refresh_tokens_table,
      create_index ''ix_refresh_tokens_token_hash'' ''refresh_tokens'' [''token_hash''] True,
      create_index ''ix_refresh_tokens_user_id'' ''refresh_tokens'' [''user_id''] False]"

definition downgrade :: "ddl list" where
  "downgrade =
     [Drop_Index ''ix_refresh_tokens_user_id'' ''refresh_tokens'',
      Drop_Index ''ix_refresh_tokens_token_hash'' ''refresh_tokens'',
      Drop_Table ''refresh_tokens'',
      Drop_Index ''ix_api_keys_prefix'' ''api_keys'',
      Drop_Index ''ix_api_keys_key_hash'' ''api_keys'',
      Drop_Table ''api_keys'',
      Drop_Index ''ix_users_email'' ''users'',
      Drop_Table ''users'',
      Drop_Index ''ix_request_logs_network_quality'' ''request_logs'',
      Drop_Index ''ix_request_logs_created_at'' ''request_logs'',
      Drop_Table ''request_logs'',
      Drop_Table ''failed_requests'']"

section \<open>Running a script\<close>

fun run_ops :: "(ddl \<Rightarrow> 'd \<Rightarrow> ('e, 'd) result) \<Rightarrow> ddl list \<Rightarrow> 'd \<Rightarrow> ('e, 'd) result" where
  "run_ops exec [] d = Inr d"
| "run_ops exec (op # ops) d = (case exec op d of Inl e \<Rightarrow> Inl e | Inr d' \<Rightarrow> run_ops exec ops d')"

definition in_transaction :: "('d \<Rightarrow> ('e, 'd) result) \<Rightarrow> 'd \<Rightarrow> ('e, unit) result \<times> 'd" where
  \<comment> \<open>the database runs schema statements inside transactions: an error rolls all of them back\<close>
  "in_transaction body d = (case body d of Inl e \<Rightarrow> (Inl e, d) | Inr d' \<Rightarrow> (Inr (), d'))"

definition init_models ::
  "((table_def \<times> index_def list) list \<Rightarrow> 'd \<Rightarrow> ('e, 'd) result) \<Rightarrow> (orm_class \<Rightarrow> table_def) \<Rightarrow> (orm_class \<Rightarrow> index_def list) \<Rightarrow>
     'd \<Rightarrow> ('e, unit) result \<times> 'd" where
  "init_models create_all table_of indexes_of d =
     in_transaction (create_all (map (\<lambda>m. (table_of m, indexes_of m)) metadata)) d"

section \<open>What the database promises\<close>

text \<open>
  The catalog: the tables, the indexes that were created by name, and the tables that hold rows.
  Tables and indexes share one name space.
\<close>

record catalog =
  ct_tables :: "string \<rightharpoonup> table_def"
  ct_indexes :: "string \<rightharpoonup> index_def"
  ct_filled :: "string \<Rightarrow> bool"

definition unused :: "catalog \<Rightarrow> string \<Rightarrow> bool" where
  "unused c n = (ct_tables c n = None \<and> ct_indexes c n = None)"

definition has_columns :: "catalog \<Rightarrow> string \<Rightarrow> string list \<Rightarrow> bool" where
  "has_columns c n cols =
     (case ct_tables c n of None \<Rightarrow> False | Some t \<Rightarrow> list_all (\<lambda>x. x \<in> set (column_names t)) cols)"

definition unreferenced :: "(string \<rightharpoonup> table_def) \<Rightarrow> string \<Rightarrow> bool" where
  "unreferenced ts n = (\<forall>m t. ts m = Some t \<and> m \<noteq> n \<longrightarrow> n \<notin> fk_table ` set (tb_foreign_keys t))"

definition without_table :: "string \<Rightarrow> (string \<rightharpoonup> index_def) \<Rightarrow> (string \<rightharpoonup> index_def)" where
  \<comment> \<open>dropping a table drops its indexes\<close>
  "without_table n f = (\<lambda>k. case f k of None \<Rightarrow> None | Some i \<Rightarrow> if ix_table i = n then None else Some i)"

definition table_ok :: "catalog \<Rightarrow> table_def \<Rightarrow> bool" where
  "table_ok c t =
     (unused c (tb_name t) \<and> distinct (column_names t) \<and> tb_primary_key t \<in> set (column_names t) \<and>
      list_all (\<lambda>fk. fk_column fk \<in> set (column_names t) \<and>
        (case ct_tables c (fk_table fk) of None \<Rightarrow> False | Some u \<Rightarrow> tb_primary_key u = fk_target fk)) (tb_foreign_keys t))"

fun ddl_ok :: "ddl \<Rightarrow> catalog \<Rightarrow> bool" where
  "ddl_ok (Create_Table t) c = table_ok c t"
| "ddl_ok (Create_Index i) c =
     (unused c (ix_name i) \<and> has_columns c (ix_table i) (ix_columns i) \<and> (ix_unique i \<longrightarrow> \<not> ct_filled c (ix_table i)))"
| "ddl_ok (Drop_Index n t) c = (\<exists>i. ct_indexes c n = Some i)"
| "ddl_ok (Drop_Table n) c = ((\<exists>t. ct_tables c n = Some t) \<and> unreferenced (ct_tables c) n)"

fun ddl_effect :: "ddl \<Rightarrow> catalog \<Rightarrow> catalog" where
  "ddl_effect (Create_Table t) c =
     c\<lparr>ct_tables := (ct_tables c)(tb_name t \<mapsto> t), ct_filled := (ct_filled c)(tb_name t := False)\<rparr>"
| "ddl_effect (Create_Index i) c = c\<lparr>ct_indexes := (ct_indexes c)(ix_name i \<mapsto> i)\<rparr>"
| "ddl_effect (Drop_Index n t) c = c\<lparr>ct_indexes := (ct_indexes c)(n := None)\<rparr>"
| "ddl_effect (Drop_Table n) c =
     c\<lparr>ct_tables := (ct_tables c)(n := None),
       ct_indexes := without_table n (ct_indexes c),
       ct_filled := (ct_filled c)(n := False)\<rparr>"

fun script_ok :: "ddl list \<Rightarrow> catalog \<Rightarrow> bool" where
  "script_ok [] c = True"
| "script_ok (op # ops) c = (ddl_ok op c \<and> script_ok ops (ddl_effect op c))"

definition script_effect :: "ddl list \<Rightarrow> catalog \<Rightarrow> catalog" where
  "script_effect ops c = fold ddl_effect ops c"

lemma script_effect_simps [simp]:
  "script_effect [] c = c" "script_effect (op # ops) c = script_effect ops (ddl_effect op c)"
  by (simp_all add: script_effect_def)

lemma script_append:
  "script_ok (xs @ ys) c \<longleftrightarrow> script_ok xs c \<and> script_ok ys (script_effect xs c)"
  "script_effect (xs @ ys) c = script_effect ys (script_effect xs c)"
  by (induction xs arbitrary: c) (simp_all add: script_effect_def)

definition closed_catalog :: "catalog \<Rightarrow> bool" where
  \<comment> \<open>keys and indexes refer to tables that exist\<close>
  "closed_catalog c =
     ((\<forall>n t fk. ct_tables c n = Some t \<and> fk \<in> set (tb_foreign_keys t) \<longrightarrow> ct_tables c (fk_table fk) \<noteq> None) \<and>
      (\<forall>n i. ct_indexes c n = Some i \<longrightarrow> ct_tables c (ix_table i) \<noteq> None))"

fun relation_name :: "ddl \<Rightarrow> string option" where
  "relation_name (Create_Table t) = Some (tb_name t)"
| "relation_name (Create_Index i) = Some (ix_name i)"
| "relation_name op = None"

fun creates :: "ddl \<Rightarrow> bool" where
  "creates (Create_Table t) = True"
| "creates (Create_Index i) = True"
| "creates op = False"

definition relation_names :: "ddl list \<Rightarrow> string list" where
  "relation_names ops = List.map_filter relation_name ops"

definition fresh_for :: "ddl list \<Rightarrow> catalog \<Rightarrow> bool" where
  \<comment> \<open>the database has no table or index of a name the script creates\<close>
  "fresh_for ops c = list_all (unused c) (relation_names ops)"

lemma relation_names_simps [simp]:
  "relation_names [] = []"
  "relation_names (op # ops) = (case relation_name op of None \<Rightarrow> [] | Some n \<Rightarrow> [n]) @ relation_names ops"
  by (simp_all add: relation_names_def List.map_filter_simps split: option.split)

lemma fresh_for_Cons:
  assumes "creates op" "\<And>n. relation_name op = Some n \<Longrightarrow> unused c n" "fresh_for ops (ddl_effect op c)"
  shows "fresh_for (op # ops) c"
proof -
  have "unused c n" if "unused (ddl_effect op c) n" for n
    using that assms(1) by (cases op) (auto simp: unused_def split: if_splits)
  then show ?thesis using assms by (cases op) (auto simp: fresh_for_def list_all_iff)
qed

locale ddl_laws =
  fixes exec :: "ddl \<Rightarrow> 'd \<Rightarrow> ('e, 'd) result" and catalog :: "'d \<Rightarrow> catalog"
  assumes exec_ok: "ddl_ok op (catalog d) \<Longrightarrow> \<exists>d'. exec op d = Inr d'"
    and exec_effect: "exec op d = Inr d' \<Longrightarrow> catalog d' = ddl_effect op (catalog d)"
    and exec_clash: "relation_name op = Some n \<Longrightarrow> \<not> unused (catalog d) n \<Longrightarrow> \<exists>e. exec op d = Inl e"
begin

lemma run_ops_refines:
  "script_ok ops (catalog d) \<Longrightarrow>
     \<exists>d'. run_ops exec ops d = Inr d' \<and> catalog d' = script_effect ops (catalog d)"
proof (induction ops arbitrary: d)
  case (Cons op ops)
  then obtain d1 where "exec op d = Inr d1" "catalog d1 = ddl_effect op (catalog d)"
    using exec_ok [of op d] exec_effect by auto
  with Cons.IH [of d1] Cons.prems show ?case by simp
qed simp

lemma run_ops_fresh:
  "run_ops exec ops d = Inr d' \<Longrightarrow> list_all creates ops \<Longrightarrow> fresh_for ops (catalog d)"
proof (induction ops arbitrary: d)
  case (Cons op ops)
  then obtain d1 where d1: "exec op d = Inr d1" "run_ops exec ops d1 = Inr d'" by (auto split: sum.splits)
  have "creates op" using Cons.prems by simp
  moreover have "unused (catalog d) n" if "relation_name op = Some n" for n
    using exec_clash [OF that, of d] d1(1) by auto
  moreover have "fresh_for ops (ddl_effect op (catalog d))"
    using Cons.IH [OF d1(2)] Cons.prems(2) exec_effect [OF d1(1)] by simp
  ultimately show ?case by (rule fresh_for_Cons)
qed (simp add: fresh_for_def)

end

definition declared_column :: "mapped_attr \<Rightarrow> column" where
  "declared_column a =
     \<lparr>c_name = ma_name a, c_type = (case ma_type a of Some ty \<Rightarrow> ty | None \<Rightarrow> T_Uuid),
      c_nullable = (case ma_nullable a of Some b \<Rightarrow> b | None \<Rightarrow> ma_optional a),
      c_server_default = ma_server_default a\<rparr>"

text \<open>What SQLAlchemy documents about a declarative class and about \<^verbatim>\<open>create_all\<close>.\<close>

locale declarative_laws =
  fixes column_of :: "mapped_attr \<Rightarrow> column" and table_of :: "orm_class \<Rightarrow> table_def" and indexes_of :: "orm_class \<Rightarrow> index_def list"
  assumes column_name: "c_name (column_of a) = ma_name a"
    and column_type: "ma_type a = Some ty \<Longrightarrow> c_type (column_of a) = ty"
    and column_type_annotated: "ma_type a = None \<Longrightarrow> ma_py a = Py_UUID \<Longrightarrow> c_type (column_of a) = T_Uuid"
    and column_nullable: "ma_nullable a = Some b \<Longrightarrow> c_nullable (column_of a) = b"
    and column_nullable_annotated: "ma_nullable a = None \<Longrightarrow> c_nullable (column_of a) = ma_optional a"
    and column_default: "c_server_default (column_of a) = ma_server_default a"
    and table_name: "tb_name (table_of m) = oc_table m"
    and table_columns: "tb_columns (table_of m) = map column_of (oc_attrs m)"
    and table_key: "filter ma_primary_key (oc_attrs m) = [a] \<Longrightarrow> tb_primary_key (table_of m) = ma_name a"
    and table_references: "tb_foreign_keys (table_of m) =
      concat (map (\<lambda>a. case ma_foreign_key a of None \<Rightarrow> []
        | Some (t, x, del) \<Rightarrow> [\<lparr>fk_column = ma_name a, fk_table = t, fk_target = x, fk_ondelete = del\<rparr>]) (oc_attrs m))"
    and indexed: "indexes_of m =
      map (\<lambda>a. \<lparr>ix_name = ''ix_'' @ oc_table m @ ''_'' @ ma_name a, ix_table = oc_table m, ix_columns = [ma_name a],
        ix_unique = ma_unique a\<rparr>) (filter ma_index (oc_attrs m))"
begin

lemma column_of_declared:
  "ma_type a \<noteq> None \<or> ma_py a = Py_UUID \<Longrightarrow> column_of a = declared_column a"
  using column_name [of a] column_type [of a] column_type_annotated [of a] column_nullable [of a]
    column_nullable_annotated [of a] column_default [of a]
  by (cases "ma_type a"; cases "ma_nullable a") (auto simp: declared_column_def)

lemma table_of_declared:
  assumes "filter ma_primary_key (oc_attrs m) = [a]" "list_all (\<lambda>a. ma_type a \<noteq> None \<or> ma_py a = Py_UUID) (oc_attrs m)"
  shows "table_of m =
     \<lparr>tb_name = oc_table m, tb_columns = map declared_column (oc_attrs m), tb_foreign_keys = tb_foreign_keys (table_of m),
      tb_primary_key = ma_name a\<rparr>"
proof -
  have "map column_of (oc_attrs m) = map declared_column (oc_attrs m)"
    using assms(2) column_of_declared by (auto simp: list_all_iff)
  then show ?thesis using table_name [of m] table_columns [of m] table_key [OF assms(1)] by (cases "table_of m") simp
qed

lemmas class_defs = optional_def mapped_column_def id_attr_def created_at_attr_def
lemmas column_defs = declared_column_def Column_def created_at_column_def

lemma metadata_tables:
  "table_of User = users_table" "table_of RefreshToken = refresh_tokens_table" "table_of APIKey = api_keys_table"
  "table_of RequestLog = request_logs_table" "table_of FailedRequest = failed_requests_table"
proof -
  show "table_of User = users_table"
    by (subst table_of_declared [of _ id_attr])
      (simp_all only: table_references, simp_all add: User_def users_table_def class_defs column_defs)
  show "table_of RefreshToken = refresh_tokens_table"
    by (subst table_of_declared [of _ id_attr])
      (simp_all only: table_references, simp_all add: RefreshToken_def refresh_tokens_table_def class_defs column_defs)
  show "table_of APIKey = api_keys_table"
    by (subst table_of_declared [of _ id_attr])
      (simp_all only: table_references, simp_all add: APIKey_def api_keys_table_def class_defs column_defs)
  show "table_of RequestLog = request_logs_table"
    by (subst table_of_declared [of _ id_attr])
      (simp_all only: table_references, simp_all add: RequestLog_def request_logs_table_def class_defs column_defs)
  show "table_of FailedRequest = failed_requests_table"
    by (subst table_of_declared [of _ id_attr])
      (simp_all only: table_references, simp_all add: FailedRequest_def failed_requests_table_def class_defs column_defs)
qed

lemma metadata_indexes:
  "indexes_of User = [Index ''ix_users_email'' ''users'' [''email''] True]"
  "indexes_of RefreshToken =
     [Index ''ix_refresh_tokens_token_hash'' ''refresh_tokens'' [''token_hash''] True,
      Index ''ix_refresh_tokens_user_id'' ''refresh_tokens'' [''user_id''] False]"
  "indexes_of APIKey =
     [Index ''ix_api_keys_key_hash'' ''api_keys'' [''key_hash''] True, Index ''ix_api_keys_prefix'' ''api_keys'' [''prefix''] False]"
  "indexes_of RequestLog =
     [Index ''ix_request_logs_network_quality'' ''request_logs'' [''network_quality''] False,
      Index ''ix_request_logs_created_at'' ''request_logs'' [''created_at''] False]"
  "indexes_of FailedRequest = []"
  by (simp_all add: indexed User_def RefreshToken_def APIKey_def RequestLog_def FailedRequest_def class_defs Index_def)

end

section \<open>The migration on an arbitrary database\<close>

definition same_schema :: "catalog \<Rightarrow> catalog \<Rightarrow> bool" where
  "same_schema c c' = (ct_tables c = ct_tables c' \<and> ct_indexes c = ct_indexes c')"

fun undo :: "ddl \<Rightarrow> ddl" where
  "undo (Create_Table t) = Drop_Table (tb_name t)"
| "undo (Create_Index i) = Drop_Index (ix_name i) (ix_table i)"
| "undo op = op"

lemma same_schema_refl [simp]: "same_schema c c"
  by (simp add: same_schema_def)

lemma same_schema_trans: "same_schema a b \<Longrightarrow> same_schema b c \<Longrightarrow> same_schema a c"
  by (simp add: same_schema_def)

lemma undo_cong:
  assumes "same_schema c c'" "creates op"
  shows "ddl_ok (undo op) c = ddl_ok (undo op) c'" "same_schema (ddl_effect (undo op) c) (ddl_effect (undo op) c')"
  using assms by (cases op; simp add: same_schema_def)+

lemma unreferenced_unused: "closed_catalog c \<Longrightarrow> unused c n \<Longrightarrow> unreferenced (ct_tables c) n"
  by (fastforce simp: closed_catalog_def unused_def unreferenced_def)

lemma without_table_unused: "closed_catalog c \<Longrightarrow> unused c n \<Longrightarrow> without_table n (ct_indexes c) = ct_indexes c"
  by (fastforce simp: closed_catalog_def unused_def without_table_def fun_eq_iff split: option.split)

lemma create_closed:
  assumes "creates op" "ddl_ok op c" "closed_catalog c"
  shows "closed_catalog (ddl_effect op c)"
proof (cases op)
  case (Create_Table t)
  then have "\<forall>fk \<in> set (tb_foreign_keys t). ct_tables c (fk_table fk) \<noteq> None"
    using assms(2) by (auto simp: table_ok_def list_all_iff split: option.splits)
  then show ?thesis using assms(3) Create_Table by (auto simp: closed_catalog_def)
next
  case (Create_Index i)
  then show ?thesis using assms by (auto simp: closed_catalog_def has_columns_def split: option.splits)
qed (use assms in auto)

lemma undo_create:
  assumes "creates op" "ddl_ok op c" "closed_catalog c"
  shows "ddl_ok (undo op) (ddl_effect op c)" "same_schema (ddl_effect (undo op) (ddl_effect op c)) c"
proof -
  have "ddl_ok (undo op) (ddl_effect op c) \<and> same_schema (ddl_effect (undo op) (ddl_effect op c)) c"
  proof (cases op)
    case (Create_Table t)
    then have un: "unused c (tb_name t)" using assms(2) by (simp add: table_ok_def)
    have "unreferenced ((ct_tables c)(tb_name t \<mapsto> t)) (tb_name t)"
      using unreferenced_unused [OF assms(3) un] by (simp add: unreferenced_def)
    then show ?thesis using un without_table_unused [OF assms(3) un] Create_Table
      by (simp add: same_schema_def unused_def fun_upd_idem)
  next
    case (Create_Index i)
    then show ?thesis using assms(2) by (simp add: same_schema_def unused_def fun_upd_idem)
  qed (use assms(1) in auto)
  then show "ddl_ok (undo op) (ddl_effect op c)" "same_schema (ddl_effect (undo op) (ddl_effect op c)) c" by auto
qed

lemma undo_script:
  assumes "list_all creates ops" "script_ok ops c" "closed_catalog c"
  shows "script_ok (map undo (rev ops)) (script_effect ops c) \<and>
    same_schema (script_effect (map undo (rev ops)) (script_effect ops c)) c"
  using assms
proof (induction ops arbitrary: c)
  case (Cons op ops)
  let ?c1 = "ddl_effect op c" and ?down = "map undo (rev ops)"
  have ih: "script_ok ?down (script_effect ops ?c1)" "same_schema (script_effect ?down (script_effect ops ?c1)) ?c1"
    using Cons.IH [of ?c1] Cons.prems create_closed [of op c] by auto
  have "creates op" using Cons.prems by simp
  note again = undo_cong [OF ih(2) this]
  have "ddl_ok (undo op) ?c1" "same_schema (ddl_effect (undo op) ?c1) c"
    using undo_create [of op c] Cons.prems by auto
  with ih again show ?case by (auto simp: script_append intro: same_schema_trans)
qed simp

lemmas upgrade_tables = failed_requests_table_def request_logs_table_def users_table_def api_keys_table_def
  refresh_tokens_table_def created_at_column_def Column_def

lemma table_names [simp]:
  "tb_name failed_requests_table = ''failed_requests''" "tb_name request_logs_table = ''request_logs''"
  "tb_name users_table = ''users''" "tb_name api_keys_table = ''api_keys''" "tb_name refresh_tokens_table = ''refresh_tokens''"
  by (simp_all add: upgrade_tables)

lemma Index_simps [simp]:
  "ix_name (Index n t cs u) = n" "ix_table (Index n t cs u) = t" "ix_columns (Index n t cs u) = cs" "ix_unique (Index n t cs u) = u"
  by (simp_all add: Index_def)

lemmas fresh_defs = fresh_for_def upgrade_def create_index_def unused_def

definition schema_tables :: "table_def list" where
  "schema_tables = [users_table, refresh_tokens_table, api_keys_table, request_logs_table, failed_requests_table]"

definition schema_indexes :: "index_def list" where
  "schema_indexes =
     [Index ''ix_users_email'' ''users'' [''email''] True,
      Index ''ix_refresh_tokens_token_hash'' ''refresh_tokens'' [''token_hash''] True,
      Index ''ix_refresh_tokens_user_id'' ''refresh_tokens'' [''user_id''] False,
      Index ''ix_api_keys_key_hash'' ''api_keys'' [''key_hash''] True,
      Index ''ix_api_keys_prefix'' ''api_keys'' [''prefix''] False,
      Index ''ix_request_logs_network_quality'' ''request_logs'' [''network_quality''] False,
      Index ''ix_request_logs_created_at'' ''request_logs'' [''created_at''] False]"

definition add_tables :: "table_def list \<Rightarrow> (string \<rightharpoonup> table_def) \<Rightarrow> (string \<rightharpoonup> table_def)" where
  "add_tables ts m = m ++ map_of (map (\<lambda>t. (tb_name t, t)) ts)"

definition add_indexes :: "index_def list \<Rightarrow> (string \<rightharpoonup> index_def) \<Rightarrow> (string \<rightharpoonup> index_def)" where
  "add_indexes is m = m ++ map_of (map (\<lambda>i. (ix_name i, i)) is)"

lemma upgrade_ok: "fresh_for upgrade c \<Longrightarrow> script_ok upgrade c"
  by (simp add: fresh_defs upgrade_tables table_ok_def column_names_def has_columns_def)

lemma upgrade_tables_effect: "ct_tables (script_effect upgrade c) = add_tables schema_tables (ct_tables c)"
  by (rule ext) (simp add: upgrade_def create_index_def add_tables_def schema_tables_def map_add_def)

lemma upgrade_indexes_effect: "ct_indexes (script_effect upgrade c) = add_indexes schema_indexes (ct_indexes c)"
  by (rule ext) (simp add: upgrade_def create_index_def add_indexes_def schema_indexes_def map_add_def)

lemma downgrade_undoes: "downgrade = map undo (rev upgrade)" "list_all creates upgrade"
  by (simp_all add: downgrade_def upgrade_def create_index_def)

text \<open>
  \<^verbatim>\<open>create_all\<close> creates the tables the database does not have yet, with their indexes, whatever
  the order they are listed in.
\<close>

definition missing :: "catalog \<Rightarrow> (table_def \<times> index_def list) list \<Rightarrow> (table_def \<times> index_def list) list" where
  "missing c defs = filter (\<lambda>(t, _). ct_tables c (tb_name t) = None) defs"

definition create_all_ok :: "(table_def \<times> index_def list) list \<Rightarrow> catalog \<Rightarrow> bool" where
  "create_all_ok defs c =
     (let ts = map fst defs; is = concat (map snd defs)
      in distinct (map tb_name ts @ map ix_name is) \<and> list_all (unused c) (map tb_name ts @ map ix_name is) \<and>
         list_all (\<lambda>t. distinct (column_names t) \<and> tb_primary_key t \<in> set (column_names t) \<and>
           list_all (\<lambda>fk. fk_column fk \<in> set (column_names t) \<and>
             (case add_tables ts (ct_tables c) (fk_table fk) of None \<Rightarrow> False | Some u \<Rightarrow> tb_primary_key u = fk_target fk))
             (tb_foreign_keys t)) ts \<and>
         list_all (\<lambda>(t, is). list_all (\<lambda>i. ix_table i = tb_name t \<and> list_all (\<lambda>x. x \<in> set (column_names t)) (ix_columns i)) is) defs)"

locale metadata_laws = ddl_laws exec catalog
  for exec :: "ddl \<Rightarrow> 'd \<Rightarrow> ('e, 'd) result" and catalog :: "'d \<Rightarrow> catalog" +
  fixes create_all :: "(table_def \<times> index_def list) list \<Rightarrow> 'd \<Rightarrow> ('e, 'd) result"
  assumes create_all_new: "create_all_ok (missing (catalog d) defs) (catalog d) \<Longrightarrow>
    \<exists>d'. create_all defs d = Inr d' \<and>
      ct_tables (catalog d') = add_tables (map fst (missing (catalog d) defs)) (ct_tables (catalog d)) \<and>
      ct_indexes (catalog d') = add_indexes (concat (map snd (missing (catalog d) defs))) (ct_indexes (catalog d))"
begin

lemma upgrade_runs:
  assumes "fresh_for upgrade (catalog d)"
  shows "\<exists>d'. in_transaction (run_ops exec upgrade) d = (Inr (), d') \<and>
    ct_tables (catalog d') = add_tables schema_tables (ct_tables (catalog d)) \<and>
    ct_indexes (catalog d') = add_indexes schema_indexes (ct_indexes (catalog d))"
  using run_ops_refines [OF upgrade_ok [OF assms]]
  by (auto simp: in_transaction_def upgrade_tables_effect upgrade_indexes_effect)

lemma downgrade_runs:
  assumes "fresh_for upgrade (catalog d)" "closed_catalog (catalog d)"
  shows "\<exists>d' d''. in_transaction (run_ops exec upgrade) d = (Inr (), d') \<and>
    in_transaction (run_ops exec downgrade) d' = (Inr (), d'') \<and> same_schema (catalog d'') (catalog d)"
proof -
  obtain d' where up: "run_ops exec upgrade d = Inr d'" "catalog d' = script_effect upgrade (catalog d)"
    using run_ops_refines [OF upgrade_ok [OF assms(1)]] by auto
  have "script_ok downgrade (catalog d')" "same_schema (script_effect downgrade (catalog d')) (catalog d)"
    using undo_script [OF downgrade_undoes(2) upgrade_ok [OF assms(1)] assms(2)] up(2) downgrade_undoes(1) by auto
  then show ?thesis using run_ops_refines [of downgrade d'] up by (auto simp: in_transaction_def)
qed

end

definition schema_defs :: "(table_def \<times> index_def list) list" where
  "schema_defs = map (\<lambda>t. (t, filter (\<lambda>i. ix_table i = tb_name t) schema_indexes)) schema_tables"

lemma schema_defs_parts: "map fst schema_defs = schema_tables" "concat (map snd schema_defs) = schema_indexes"
  by (simp_all add: schema_defs_def schema_tables_def schema_indexes_def)

lemma schema_defs_missing: "fresh_for upgrade c \<Longrightarrow> missing c schema_defs = schema_defs"
  by (simp add: fresh_defs missing_def schema_defs_def schema_tables_def)

lemma schema_defs_ok: "fresh_for upgrade c \<Longrightarrow> create_all_ok schema_defs c"
  unfolding create_all_ok_def schema_defs_parts Let_def
  by (simp add: fresh_defs schema_defs_def schema_tables_def schema_indexes_def upgrade_tables column_names_def add_tables_def)

section \<open>The two ways to create the schema\<close>

locale schema_laws = metadata_laws exec catalog create_all + declarative_laws column_of table_of indexes_of
  for exec :: "ddl \<Rightarrow> 'd \<Rightarrow> ('e, 'd) result" and catalog :: "'d \<Rightarrow> catalog"
    and create_all :: "(table_def \<times> index_def list) list \<Rightarrow> 'd \<Rightarrow> ('e, 'd) result"
    and column_of :: "mapped_attr \<Rightarrow> column" and table_of :: "orm_class \<Rightarrow> table_def" and indexes_of :: "orm_class \<Rightarrow> index_def list"
begin

lemma metadata_defs: "map (\<lambda>m. (table_of m, indexes_of m)) metadata = schema_defs"
  by (simp add: metadata_def metadata_tables metadata_indexes schema_defs_def schema_tables_def schema_indexes_def)

lemma init_models_runs:
  assumes "fresh_for upgrade (catalog d)"
  shows "\<exists>d'. init_models create_all table_of indexes_of d = (Inr (), d') \<and>
    ct_tables (catalog d') = add_tables schema_tables (ct_tables (catalog d)) \<and>
    ct_indexes (catalog d') = add_indexes schema_indexes (ct_indexes (catalog d))"
  using create_all_new [of d schema_defs] schema_defs_ok [OF assms] schema_defs_missing [OF assms]
  by (auto simp: init_models_def in_transaction_def metadata_defs schema_defs_parts)

lemma init_models_again:
  assumes "ct_tables (catalog d) = add_tables schema_tables ts"
  shows "\<exists>d'. init_models create_all table_of indexes_of d = (Inr (), d') \<and> same_schema (catalog d') (catalog d)"
proof -
  have "missing (catalog d) schema_defs = []"
    using assms by (simp add: missing_def schema_defs_def schema_tables_def add_tables_def filter_empty_conv)
  then show ?thesis using create_all_new [of d schema_defs]
    by (auto simp: init_models_def in_transaction_def metadata_defs create_all_ok_def add_tables_def add_indexes_def same_schema_def)
qed

end

text \<open>A database that is its catalog, and the documented reading of a class.\<close>

definition mem_exec :: "ddl \<Rightarrow> catalog \<Rightarrow> (string, catalog) result" where
  "mem_exec op c = (if ddl_ok op c then Inr (ddl_effect op c) else Inl ''ProgrammingError'')"

definition mem_create_all :: "(table_def \<times> index_def list) list \<Rightarrow> catalog \<Rightarrow> (string, catalog) result" where
  "mem_create_all defs c =
     (let new = missing c defs
      in if create_all_ok new c
         then Inr (c\<lparr>ct_tables := add_tables (map fst new) (ct_tables c),
                     ct_indexes := add_indexes (concat (map snd new)) (ct_indexes c)\<rparr>)
         else Inl ''ProgrammingError'')"

definition declared_table :: "orm_class \<Rightarrow> table_def" where
  "declared_table m =
     \<lparr>tb_name = oc_table m, tb_columns = map declared_column (oc_attrs m),
      tb_foreign_keys = concat (map (\<lambda>a. case ma_foreign_key a of None \<Rightarrow> []
        | Some (t, x, del) \<Rightarrow> [\<lparr>fk_column = ma_name a, fk_table = t, fk_target = x, fk_ondelete = del\<rparr>]) (oc_attrs m)),
      tb_primary_key = (case filter ma_primary_key (oc_attrs m) of [] \<Rightarrow> [] | a # _ \<Rightarrow> ma_name a)\<rparr>"

definition declared_indexes :: "orm_class \<Rightarrow> index_def list" where
  "declared_indexes m =
     map (\<lambda>a. \<lparr>ix_name = ''ix_'' @ oc_table m @ ''_'' @ ma_name a, ix_table = oc_table m, ix_columns = [ma_name a],
       ix_unique = ma_unique a\<rparr>) (filter ma_index (oc_attrs m))"

interpretation mem_schema: schema_laws mem_exec "\<lambda>c. c" mem_create_all declared_column declared_table declared_indexes
proof
  fix op c n
  assume "relation_name op = Some n" "\<not> unused c n"
  then show "\<exists>e. mem_exec op c = Inl e" by (cases op) (auto simp: mem_exec_def table_ok_def)
qed (auto simp: mem_exec_def mem_create_all_def Let_def declared_column_def declared_table_def declared_indexes_def split: if_splits)

definition empty_database :: catalog where
  "empty_database = \<lparr>ct_tables = Map.empty, ct_indexes = Map.empty, ct_filled = \<lambda>_. False\<rparr>"

lemma empty_database_fresh: "fresh_for ops empty_database" "closed_catalog empty_database"
  by (simp_all add: fresh_for_def empty_database_def unused_def closed_catalog_def list_all_iff)

text \<open>
  C14.  The migration and the ORM agree.  On a database in which none of its names is taken, the
  upgrade and \<^verbatim>\<open>init_models\<close> both succeed and leave the same tables (columns, types, nullability,
  defaults, primary and foreign keys) and the same indexes; and \<^verbatim>\<open>init_models\<close> after the upgrade,
  which a start of the gateway outside production runs, changes nothing.
\<close>

theorem migration_matches_models:
  assumes laws: "schema_laws exec catalog create_all column_of table_of indexes_of"
    and fresh: "fresh_for upgrade (catalog d)"
  shows "\<exists>d1 d2 d3. in_transaction (run_ops exec upgrade) d = (Inr (), d1) \<and>
    init_models create_all table_of indexes_of d = (Inr (), d2) \<and> same_schema (catalog d1) (catalog d2) \<and>
    init_models create_all table_of indexes_of d1 = (Inr (), d3) \<and> same_schema (catalog d3) (catalog d1)"
proof -
  have m: "metadata_laws exec catalog create_all" using laws by (simp add: schema_laws_def)
  obtain d1 where d1: "in_transaction (run_ops exec upgrade) d = (Inr (), d1)"
    "ct_tables (catalog d1) = add_tables schema_tables (ct_tables (catalog d))"
    "ct_indexes (catalog d1) = add_indexes schema_indexes (ct_indexes (catalog d))"
    using metadata_laws.upgrade_runs [OF m fresh] by auto
  show ?thesis
    using d1 schema_laws.init_models_runs [OF laws fresh] schema_laws.init_models_again [OF laws d1(2)]
    by (fastforce simp: same_schema_def)
qed

theorem migration_matches_models_witness:
  "\<exists>d1 d2 d3. in_transaction (run_ops mem_exec upgrade) empty_database = (Inr (), d1) \<and>
    init_models mem_create_all declared_table declared_indexes empty_database = (Inr (), d2) \<and> same_schema d1 d2 \<and>
    init_models mem_create_all declared_table declared_indexes d1 = (Inr (), d3) \<and> same_schema d3 d1"
  by (rule migration_matches_models [OF mem_schema.schema_laws_axioms]) (rule empty_database_fresh)

text \<open>
  C27.  An upgrade runs exactly when no name it creates is taken, and its downgrade takes it back:
  where a table or an index of such a name exists the upgrade raises and the database stays as it
  was, and otherwise upgrade and downgrade both succeed and the tables and indexes are again those
  from before.
\<close>

theorem downgrade_undoes_upgrade:
  assumes laws: "metadata_laws exec catalog create_all" and closed: "closed_catalog (catalog d)"
  shows "if fresh_for upgrade (catalog d)
    then \<exists>d1 d2. in_transaction (run_ops exec upgrade) d = (Inr (), d1) \<and>
      in_transaction (run_ops exec downgrade) d1 = (Inr (), d2) \<and> same_schema (catalog d2) (catalog d)
    else \<exists>e. in_transaction (run_ops exec upgrade) d = (Inl e, d)"
proof (cases "fresh_for upgrade (catalog d)")
  case True
  then show ?thesis using metadata_laws.downgrade_runs [OF laws True closed] by simp
next
  case False
  have "ddl_laws exec catalog" using laws by (simp add: metadata_laws_def)
  then have "run_ops exec upgrade d \<noteq> Inr d'" for d'
    using False ddl_laws.run_ops_fresh [of exec catalog upgrade d d'] downgrade_undoes(2) by auto
  then show ?thesis using False by (cases "run_ops exec upgrade d") (auto simp: in_transaction_def)
qed

definition taken_database :: catalog where
  "taken_database = empty_database\<lparr>ct_tables := [''users'' \<mapsto> users_table]\<rparr>"

theorem downgrade_undoes_upgrade_witness:
  "(\<exists>d1 d2. in_transaction (run_ops mem_exec upgrade) empty_database = (Inr (), d1) \<and>
      in_transaction (run_ops mem_exec downgrade) d1 = (Inr (), d2) \<and> same_schema d2 empty_database) \<and>
   (\<exists>e. in_transaction (run_ops mem_exec upgrade) taken_database = (Inl e, taken_database))"
proof -
  note mem = downgrade_undoes_upgrade [OF mem_schema.metadata_laws_axioms]
  have "closed_catalog taken_database"
    by (auto simp: closed_catalog_def taken_database_def empty_database_def users_table_def split: if_splits)
  moreover have "\<not> fresh_for upgrade taken_database"
    by (simp add: fresh_defs taken_database_def)
  ultimately show ?thesis
    using mem [of empty_database] mem [of taken_database] empty_database_fresh by simp
qed

end
