(* ===== verification/Table_Rows.thy ===== *)
theory Table_Rows
  imports Schema Accounts Worker_Task Proxy
begin

text \<open>
  The rows the gateway writes, as values of the columns of \<^verbatim>\<open>gateway/models/db.py\<close>: what the
  accounts, the dead-letter table and the request log are given, and whether PostgreSQL's column
  types hold it.  The lemmas show that the account tables stay well typed under every validated
  request, and which queued writes the dead-letter table cannot hold.
\<close>

section \<open>Values and column types\<close>

datatype cell = Null_Cell | Uuid_Cell uuid | Str_Cell string | Bool_Cell bool | Int_Cell int | Float_Cell pyfloat
  | Time_Cell datetime | Json_Cell "(string \<times> json) list"

definition storable :: "string \<Rightarrow> bool" where
  \<comment> \<open>a text of the database has no zero character\<close>
  "storable s = (CHR 0x00 \<notin> set s)"

fun value_fits :: "col_type \<Rightarrow> cell \<Rightarrow> bool" where
  "value_fits T_Uuid (Uuid_Cell i) = True"
| "value_fits (T_String n) (Str_Cell s) = (length s \<le> n \<and> storable s)"
| "value_fits T_Text (Str_Cell s) = storable s"
| "value_fits T_Boolean (Bool_Cell b) = True"
| "value_fits T_Integer (Int_Cell i) = (- (2 ^ 31) \<le> i \<and> i < 2 ^ 31)"
| "value_fits T_Float (Float_Cell x) = True"
| "value_fits T_JSON (Json_Cell j) = True"
| "value_fits (T_DateTime tz) (Time_Cell t) = (case t of Aware _ \<Rightarrow> tz | Naive _ \<Rightarrow> \<not> tz)"
| "value_fits ty v = False"

definition cell_fits :: "column \<Rightarrow> cell \<Rightarrow> bool" where
  "cell_fits c v = (if v = Null_Cell then c_nullable c else value_fits (c_type c) v)"

type_synonym table_row = "(string \<times> cell) list"

definition row_fits :: "table_def \<Rightarrow> table_row \<Rightarrow> bool" where
  "row_fits t row =
     list_all (\<lambda>(n, v). case find (\<lambda>c. c_name c = n) (tb_columns t) of None \<Rightarrow> False | Some c \<Rightarrow> cell_fits c v) row"

definition row_complete :: "orm_class \<Rightarrow> table_row \<Rightarrow> bool" where
  \<comment> \<open>a column that is not given has a default or may be null\<close>
  "row_complete m row =
     list_all (\<lambda>a. ma_name a \<in> fst ` set row \<or> ma_default a \<or> ma_server_default a \<noteq> None \<or> ma_nullable a = Some True)
       (oc_attrs m)"

definition well_typed :: "orm_class \<Rightarrow> table_def \<Rightarrow> table_row \<Rightarrow> bool" where
  "well_typed m t row = (row_fits t row \<and> row_complete m row)"

section \<open>The rows\<close>

definition str_or_null :: "string option \<Rightarrow> cell" where
  "str_or_null x = (case x of None \<Rightarrow> Null_Cell | Some s \<Rightarrow> Str_Cell s)"

definition user_cells :: "user_row \<Rightarrow> table_row" where
  "user_cells u =
     [(''id'', Uuid_Cell (u_id u)), (''email'', Str_Cell (u_email u)), (''hashed_password'', Str_Cell (u_hashed_password u)),
      (''is_active'', Bool_Cell (u_is_active u)), (''is_admin'', Bool_Cell (u_is_admin u))]"

definition token_cells :: "token_row \<Rightarrow> table_row" where
  "token_cells t =
     [(''token_hash'', Str_Cell (t_hash t)), (''user_id'', Uuid_Cell (t_user t)), (''expires_at'', Time_Cell (t_expires_at t)),
      (''revoked'', Bool_Cell (t_revoked t))]"

definition key_cells :: "key_row \<Rightarrow> table_row" where
  "key_cells k =
     [(''id'', Uuid_Cell (k_id k)), (''name'', Str_Cell (k_name k)), (''key_hash'', Str_Cell (k_hash k)),
      (''prefix'', Str_Cell (k_prefix k)), (''user_id'', case k_user k of None \<Rightarrow> Null_Cell | Some i \<Rightarrow> Uuid_Cell i),
      (''is_active'', Bool_Cell (k_is_active k))]"

definition log_cells :: "log_record \<Rightarrow> table_row" where
  "log_cells r =
     [(''method'', Str_Cell (lg_method r)), (''path'', Str_Cell (lg_path r)), (''network_quality'', Str_Cell (lg_network_quality r)),
      (''cache_status'', Str_Cell (lg_cache_status r)), (''status_code'', Int_Cell (lg_status_code r)),
      (''rtt_ms'', Float_Cell (lg_rtt_ms r)),
      (''upstream_latency_ms'', case lg_upstream_latency_ms r of None \<Rightarrow> Null_Cell | Some x \<Rightarrow> Float_Cell x),
      (''response_size_original'', Int_Cell (lg_response_size_original r)),
      (''response_size_optimized'', case lg_response_size_optimized r of None \<Rightarrow> Null_Cell | Some n \<Rightarrow> Int_Cell n),
      (''client_id'', Str_Cell (lg_client_id r))]"

definition failed_cells :: "failed_request \<Rightarrow> table_row" where
  "failed_cells f =
     [(''method'', Str_Cell (fr_method f)), (''path'', Str_Cell (fr_path f)), (''headers'', Json_Cell (fr_headers f)),
      (''body'', str_or_null (fr_body f)), (''client_id'', str_or_null (fr_client_id f)), (''retries'', Int_Cell (fr_retries f)),
      (''last_error'', str_or_null (fr_last_error f))]"

definition typed_db :: "dbase \<Rightarrow> bool" where
  "typed_db db =
     (list_all (\<lambda>u. well_typed User users_table (user_cells u)) (db_users db) \<and>
      list_all (\<lambda>t. well_typed RefreshToken refresh_tokens_table (token_cells t)) (db_tokens db) \<and>
      list_all (\<lambda>k. well_typed APIKey api_keys_table (key_cells k)) (db_keys db))"

lemmas row_defs = well_typed_def row_fits_def row_complete_def cell_fits_def str_or_null_def
lemmas orm_defs = User_def RefreshToken_def APIKey_def RequestLog_def FailedRequest_def id_attr_def created_at_attr_def
  mapped_column_def optional_def

lemma user_typed:
  "well_typed User users_table (user_cells u) \<longleftrightarrow>
     length (u_email u) \<le> 320 \<and> storable (u_email u) \<and> length (u_hashed_password u) \<le> 128 \<and> storable (u_hashed_password u)"
  by (auto simp: row_defs orm_defs users_table_def Column_def created_at_column_def user_cells_def)

lemma token_typed:
  "well_typed RefreshToken refresh_tokens_table (token_cells t) \<longleftrightarrow>
     length (t_hash t) \<le> 64 \<and> storable (t_hash t) \<and> t_expires_at t = Aware (aware (t_expires_at t))"
  by (auto simp: row_defs orm_defs refresh_tokens_table_def Column_def created_at_column_def token_cells_def split: datetime.split)

lemma key_typed:
  "well_typed APIKey api_keys_table (key_cells k) \<longleftrightarrow>
     length (k_name k) \<le> 128 \<and> storable (k_name k) \<and> length (k_hash k) \<le> 64 \<and> storable (k_hash k) \<and>
     length (k_prefix k) \<le> 12 \<and> storable (k_prefix k)"
  by (auto simp: row_defs orm_defs api_keys_table_def Column_def created_at_column_def key_cells_def split: option.split)

lemma failed_typed:
  "well_typed FailedRequest failed_requests_table (failed_cells f) \<longleftrightarrow>
     length (fr_method f) \<le> 8 \<and> storable (fr_method f) \<and> length (fr_path f) \<le> 2048 \<and> storable (fr_path f) \<and>
     (\<forall>b. fr_body f = Some b \<longrightarrow> storable b) \<and> (\<forall>c. fr_client_id f = Some c \<longrightarrow> length c \<le> 128 \<and> storable c) \<and>
     - (2 ^ 31) \<le> fr_retries f \<and> fr_retries f < 2 ^ 31 \<and> (\<forall>e. fr_last_error f = Some e \<longrightarrow> storable e)"
  by (auto simp: row_defs orm_defs failed_requests_table_def Column_def created_at_column_def failed_cells_def split: option.split)

lemma log_typed:
  "well_typed RequestLog request_logs_table (log_cells r) \<longleftrightarrow>
     length (lg_method r) \<le> 8 \<and> storable (lg_method r) \<and> length (lg_path r) \<le> 2048 \<and> storable (lg_path r) \<and>
     length (lg_network_quality r) \<le> 16 \<and> storable (lg_network_quality r) \<and>
     length (lg_cache_status r) \<le> 16 \<and> storable (lg_cache_status r) \<and> - (2 ^ 31) \<le> lg_status_code r \<and> lg_status_code r < 2 ^ 31 \<and>
     - (2 ^ 31) \<le> lg_response_size_original r \<and> lg_response_size_original r < 2 ^ 31 \<and>
     (\<forall>n. lg_response_size_optimized r = Some n \<longrightarrow> - (2 ^ 31) \<le> n \<and> n < 2 ^ 31) \<and>
     length (lg_client_id r) \<le> 128 \<and> storable (lg_client_id r)"
  by (auto simp: row_defs orm_defs request_logs_table_def Column_def created_at_column_def log_cells_def split: option.split)

section \<open>The account tables stay well typed\<close>

text \<open>
  Requests after pydantic's validation.  The name of a key has to be storable: the database refuses
  any other, and the tables stay as they are.
\<close>

inductive validated_step ::
  "auth_lib \<Rightarrow> settings \<Rightarrow> (string \<Rightarrow> string option) \<Rightarrow> dbase \<Rightarrow> dbase \<Rightarrow> bool" for lib cfg valid_email where
  v_register: "RegisterRequest valid_email email password = Inr payload \<Longrightarrow>
    validated_step lib cfg valid_email db (snd (register_user lib up now i salt payload db))"
| v_login: "LoginRequest valid_email email password = Inr payload \<Longrightarrow>
    validated_step lib cfg valid_email db (snd (login_user lib cfg up now random (rg_email payload) (rg_password payload) db))"
| v_refresh: "RefreshRequest raw = Inr presented \<Longrightarrow>
    validated_step lib cfg valid_email db (snd (refresh lib cfg up now random presented db))"
| v_logout: "LogoutRequest raw = Inr presented \<Longrightarrow> validated_step lib cfg valid_email db (snd (logout lib up presented db))"
| v_create_key: "APIKeyCreate raw = Inr name \<Longrightarrow> storable name \<Longrightarrow> length key_prefix = 8 \<Longrightarrow> storable key_prefix \<Longrightarrow>
    validated_step lib cfg valid_email db (snd (create_api_key lib up now i key_prefix secret who name db))"
| v_revoke_key: "validated_step lib cfg valid_email db (snd (revoke_api_key up i db))"
| v_create_admin: "RegisterRequest valid_email email password = Inr payload \<Longrightarrow>
    validated_step lib cfg valid_email db (snd (create_admin_user lib up now i salt payload db))"
| v_operator: "validated_step lib cfg valid_email db (snd (manage_main lib valid_email up now i salt email password again db))"

definition library_typed :: "auth_lib \<Rightarrow> (string \<Rightarrow> string option) \<Rightarrow> bool" where
  \<comment> \<open>a SHA-256 digest has 64 hexadecimal digits, a bcrypt hash 60 characters; an address has at most
    254 characters and no control character\<close>
  "library_typed lib valid_email =
     ((\<forall>x. length (al_sha256 lib x) = 64 \<and> storable (al_sha256 lib x)) \<and>
      (\<forall>salt p h. al_bcrypt_hash lib salt p = Inr h \<longrightarrow> length h = 60 \<and> storable h) \<and>
      (\<forall>e e'. valid_email e = Some e' \<longrightarrow> length e' \<le> 254 \<and> storable e'))"

lemma typed_finish: "typed_db db \<Longrightarrow> typed_db db' \<Longrightarrow> typed_db (snd (finish up db' x db))"
  by (auto simp: finish_def commit_def split: sum.splits)

lemma commit_Inr_iff: "commit up db' = Inr db'' \<longleftrightarrow> up \<and> constraints_ok db' \<and> db'' = db'"
  by (auto simp: commit_def)

lemma typed_revoke: "typed_db db \<Longrightarrow> typed_db (revoke_where P db)"
  by (auto simp: typed_db_def revoke_where_def list_all_iff token_typed revoke_row_def)

lemma typed_issue:
  assumes "library_typed lib valid_email" "typed_db db" "issue_tokens lib cfg now random user db = (x, db')"
  shows "typed_db db'"
  using assms
  by (auto simp: issue_tokens_def generate_refresh_token_def hash_token_def typed_db_def token_typed library_typed_def
      refresh_token_expiry_def)

lemma typed_add_user:
  assumes "library_typed lib valid_email" "typed_db db" "hash_password lib salt p = Inr hashed"
    and "RegisterRequest valid_email e q = Inr payload" "add_user now i (rg_email payload) hashed admin db = (user, db')"
  shows "typed_db db'"
proof -
  have "length (rg_email payload) \<le> 254" "storable (rg_email payload)"
    using assms(1,4) by (auto simp: RegisterRequest_def library_typed_def split: option.splits if_splits sum.splits)
  moreover have "length hashed = 60" "storable hashed"
    using assms(1,3) by (auto simp: hash_password_def library_typed_def split: if_splits)
  ultimately show ?thesis using assms(2,5) by (auto simp: add_user_def Let_def typed_db_def user_typed)
qed

lemma http_fail_db [simp]: "snd (http_fail status detail db) = db"
  by (simp add: http_fail_def)

lemma typed_register:
  assumes "library_typed lib valid_email" "typed_db db" "RegisterRequest valid_email e p = Inr payload"
  shows "typed_db (snd (register_user lib up now i salt payload db))" "typed_db (snd (create_admin_user lib up now i salt payload db))"
  using assms typed_add_user [OF assms(1,2) _ assms(3)]
  by (auto simp: register_user_def create_admin_user_def commit_Inr_iff intro: typed_finish
      split: sum.splits option.splits prod.splits db_error.splits)

lemma typed_create_admin:
  assumes "library_typed lib valid_email" "typed_db db"
  shows "typed_db (snd (create_admin lib valid_email up now i salt email password db))"
  using assms typed_add_user [OF assms]
  by (auto simp: create_admin_def intro: typed_finish split: sum.splits option.splits prod.splits)

lemma typed_login:
  assumes "library_typed lib valid_email" "typed_db db"
  shows "typed_db (snd (login_user lib cfg up now random email password db))"
  using assms typed_issue [OF assms]
  by (auto simp: login_user_def intro: typed_finish split: sum.splits option.splits prod.splits)

lemma typed_refresh:
  assumes "library_typed lib valid_email" "typed_db db"
  shows "typed_db (snd (refresh lib cfg up now random presented db))"
  using assms typed_issue [OF assms(1) typed_revoke [OF assms(2)]] typed_revoke [OF assms(2)]
  by (auto simp: refresh_def Let_def commit_Inr_iff intro: typed_finish split: sum.splits option.splits prod.splits)

lemma typed_set_keys:
  "typed_db db \<Longrightarrow> list_all (\<lambda>k. well_typed APIKey api_keys_table (key_cells k)) ks \<Longrightarrow> typed_db (db\<lparr>db_keys := ks\<rparr>)"
  "typed_db db \<Longrightarrow> list_all (\<lambda>k. well_typed APIKey api_keys_table (key_cells k)) (db_keys db)"
  by (simp_all add: typed_db_def)

lemma typed_keys:
  assumes "library_typed lib valid_email" "typed_db db"
  shows "APIKeyCreate raw = Inr name \<Longrightarrow> storable name \<Longrightarrow> length key_prefix = 8 \<Longrightarrow> storable key_prefix \<Longrightarrow>
      typed_db (snd (create_api_key lib up now i key_prefix secret who name db))"
    and "typed_db (snd (revoke_api_key up j db))"
proof -
  assume "APIKeyCreate raw = Inr name" "storable name" "length key_prefix = 8" "storable key_prefix"
  moreover have "length (al_sha256 lib x) = 64" "storable (al_sha256 lib x)" for x
    using assms(1) by (auto simp: library_typed_def)
  ultimately show "typed_db (snd (create_api_key lib up now i key_prefix secret who name db))"
    unfolding create_api_key_def generate_api_key_def hash_token_def Let_def split_conv
    using typed_set_keys(2) [OF assms(2)]
    by (intro typed_finish typed_set_keys(1) assms(2)) (auto simp: key_typed APIKeyCreate_def text_field_def split: if_splits)
next
  show "typed_db (snd (revoke_api_key up j db))"
    using typed_set_keys(2) [OF assms(2)]
    by (auto simp: revoke_api_key_def key_typed list_all_iff assms(2) intro!: typed_finish typed_set_keys(1))
qed

lemma validated_step_typed:
  assumes "library_typed lib valid_email" "validated_step lib cfg valid_email db db'" "typed_db db"
  shows "typed_db db'"
  using assms(2,3)
proof (induction rule: validated_step.induct)
  case (v_logout raw presented db up)
  then show ?case by (simp add: logout_def typed_finish typed_revoke)
next
  case (v_create_key raw name key_prefix db up now i secret who)
  then show ?case by (blast intro: typed_keys(1) [OF assms(1)])
next
  case (v_operator db up now i salt email password again)
  then show ?case by (simp add: manage_main_tables typed_create_admin [OF assms(1)])
qed (blast intro: typed_register [OF assms(1)] typed_login [OF assms(1)] typed_refresh [OF assms(1)] typed_keys [OF assms(1)])+

section \<open>Writes the dead-letter table cannot hold\<close>

definition unstorable :: "(string, string) dict \<Rightarrow> bool" where
  \<comment> \<open>the fields of a queue entry: a path beyond its column, or a zero character in path or body\<close>
  "unstorable flds =
     (2048 < length (dict_get flds ''path'' []) \<or> \<not> storable (dict_get flds ''path'' []) \<or>
      (\<exists>b. map_of flds ''body'' = Some b \<and> \<not> storable b))"

definition strict_table :: "'r worker_env \<Rightarrow> bool" where
  \<comment> \<open>the database accepts a dead letter only if its columns hold the values, as PostgreSQL does; SQLite, which the
    tests use, enforces neither the length nor the characters of a text\<close>
  "strict_table env = (\<forall>row. we_db env row \<noteq> Refused \<longrightarrow> well_typed FailedRequest failed_requests_table (failed_cells row))"

lemma unstorable_row:
  "unstorable flds \<Longrightarrow> dead_letter_row env flds n err = Inr row \<Longrightarrow> \<not> well_typed FailedRequest failed_requests_table (failed_cells row)"
  by (auto simp: unstorable_def dead_letter_row_def failed_typed Let_def split: sum.splits)

lemma unstorable_dead_letter:
  "strict_table env \<Longrightarrow> unstorable flds \<Longrightarrow> \<exists>e. dead_letter env flds n err w = (Inl e, w)"
  using unstorable_row [of flds env n err]
  by (cases "dead_letter_row env flds n err")
     (auto simp: strict_table_def dead_letter_def io_bind_def py_io_def io_raise_def io_return_def)

lemma unstorable_bury:
  "strict_table env \<Longrightarrow> unstorable flds \<Longrightarrow> \<exists>e. io_bind (dead_letter env flds n err) k w = (Inl e, w)"
  using unstorable_dead_letter [of env flds n err w] by (auto simp: io_bind_def)

lemma storable_latin1: "storable (latin1_decode b) \<longleftrightarrow> 0 \<notin> set b"
proof -
  have zero: "char_of (unat (0 :: byte)) = CHR 0x00" "ccode (CHR 0x00) = 0" by code_simp+
  have "CHR 0x00 \<in> set (latin1_decode b)" if "0 \<in> set b"
    using imageI [OF that, of "\<lambda>b. char_of (unat b)"] zero(1) by (simp add: latin1_decode_def)
  moreover have "0 \<in> set (latin1_encode (latin1_decode b))" if "CHR 0x00 \<in> set (latin1_decode b)"
    using imageI [OF that, of "\<lambda>c. of_nat (ccode c) :: byte"] zero(2) by (simp add: latin1_encode_def)
  ultimately show ?thesis by (auto simp: storable_def)
qed

context redis_queue_laws
begin

text \<open>Such a write is never recorded, on any path, and leaves the stream only when it was accepted.\<close>

lemma unstorable_handle:
  assumes env: "we_kv env = ops" "we_q env = qops" "strict_table env" and flds: "unstorable flds"
    and run: "handle env ck m flds w = (res, w')"
  shows "w_failed w' = w_failed w" and "m \<in> stream_ids env sv w \<Longrightarrow> m \<notin> stream_ids env sv w' \<Longrightarrow> accepted m w w'"
proof -
  let ?R = "\<lambda>w w'. w_failed w' = w_failed w"
  have "?R w w'"
  proof (rule handle_keeps [where R = ?R, OF env(1,2) _ _ _ _ _ _ _ run])
    show "reflp ?R" "transp ?R" by (simp_all add: reflp_def transp_def)
    show "io_keeps ?R (dead_letter env flds n err)" for n err
    proof (rule io_keepsI)
      fix w res w' assume "dead_letter env flds n err w = (res, w')"
      then show "?R w w'" using unstorable_dead_letter [OF env(3) flds, of n err w] by auto
    qed
    show "io_keeps ?R (replay_request env m flds hs)" for hs
      by (rule io_keepsI) (auto simp: replay_request_def Let_def split: option.splits sum.splits upstream_error.splits)
    show "io_keeps ?R (ack env m)" by (rule io_keepsI) (rule ack_run(2) [OF env(2)])
    show "io_keeps ?R (redis_io (rq_hset qops h f v))" for h f v by (rule io_keepsI) (rule hset_run(3))
  qed (simp_all add: quiet_def)
  then show "w_failed w' = w_failed w" .
  then show "m \<in> stream_ids env sv w \<Longrightarrow> m \<notin> stream_ids env sv w' \<Longrightarrow> accepted m w w'"
    using handle_accounted [OF env(1,2) run] by (auto simp: accounted_def recorded_def)
qed

lemma unstorable_deliver:
  assumes env: "we_q env = qops" "strict_table env" and flds: "unstorable flds"
    and spent: "stored_attempts hv m w = Some k" "max_attempts env \<le> k"
    and due: "not_due (ck_due ck) (hv (w_redis w) DUE_HASH m) = Inr False"
    and run: "deliver env ck m flds w = (res, w')"
  shows "\<not> is_ok res \<and> quiet hv sv w w'"
  using env(1) run
proof (cases rule: deliver_cases)
  case quiet
  then show ?thesis using due by auto
next
  case (bury n w1)
  then show ?thesis using unstorable_bury [OF env(2) flds, of n "Some ''replay ineligible or expired''" "\<lambda>_. ack env m" w1] by auto
next
  case (send n w1 hs service timestamp)
  then show ?thesis using spent quiet_stored [of hv sv w w1 m env] by simp
qed

lemma unstorable_round:
  assumes env: "we_q env = qops" "strict_table env" and flds: "unstorable flds"
    and spent: "stored_attempts hv m w = Some k" "max_attempts env \<le> k"
    and due: "not_due (ck_due ck) (hv (w_redis w) DUE_HASH m) = Inr False"
    and run: "deliver_or_bury env ck m flds w = (res, w')"
  shows "\<not> is_ok res \<and> quiet hv sv w w'"
proof -
  obtain res1 w1 where d: "deliver env ck m flds w = (res1, w1)" by fastforce
  have 1: "\<not> is_ok res1" "quiet hv sv w w1" using unstorable_deliver [OF env flds spent due d] by auto
  obtain a w2 where g: "get_attempts env m w1 = (a, w2)" by fastforce
  have 2: "quiet hv sv w w2"
    using 1(2) io_keepsD [OF attempts_quiet [OF env(1)] g] transpD [OF quiet_trans] by blast
  have "\<exists>e. io_bind (dead_letter env flds n err) j w2 = (Inl e, w2)" for n err and j :: "unit \<Rightarrow> ('r world, unit) io"
    by (rule unstorable_bury [OF env(2) flds])
  then have "\<exists>e. bury_malformed env m flds w1 = (Inl e, w2)"
    using g by (cases a) (auto simp: bury_malformed_def io_bind_def [of "get_attempts env m"])
  then show ?thesis using run d 1 2 by (cases res1) (auto simp: deliver_or_bury_def split: if_splits)
qed

lemma unstorable_blocks:
  assumes env: "we_kv env = ops" "we_q env = qops" "strict_table env" and flds: "unstorable flds"
    and spent: "stored_attempts hv m w = Some k" "max_attempts env \<le> k"
    and due: "not_due (ck_due ck) (hv (w_redis w) DUE_HASH m) = Inr False"
    and lease: "acquire_lock (we_kv env) (ck_lock ck) (ck_token ck) (''replay:'' @ m) (queue_claim_idle_seconds (we_cfg env))
      (w_redis w) = (Some lease, r1)"
    and run: "handle_all env ((ck, (m, flds)) # rest) w = (res, w')"
  shows "\<not> is_ok res \<and> quiet hv sv w w'"
proof -
  let ?w1 = "w\<lparr>w_redis := r1\<rparr>"
  have 1: "quiet hv sv w ?w1" by (rule acquire_quiet [OF env(1) lease])
  obtain d w2 where d: "deliver_or_bury env ck m flds ?w1 = (d, w2)" by fastforce
  have "stored_attempts hv m ?w1 = Some k" using quiet_stored [OF 1, of m env] spent(1) by simp
  moreover have "not_due (ck_due ck) (hv (w_redis ?w1) DUE_HASH m) = Inr False" using 1 due by (simp add: quiet_def)
  ultimately have 2: "\<not> is_ok d" "quiet hv sv ?w1 w2" using unstorable_round [OF env(2,3) flds _ spent(2) _ d] by auto
  let ?w3 = "w2\<lparr>w_redis := release_lock (we_kv env) (ck_release ck) (''replay:'' @ m) lease (w_redis w2)\<rparr>"
  have "handle env ck m flds w = (d, ?w3)" using lease d by (simp add: handle_def)
  then have "res = d" "w' = ?w3" using run 2(1) by (cases d; simp add: io_bind_def)+
  then show ?thesis using 1 2 release_quiet [OF env(1), of w2 "ck_release ck" "''replay:'' @ m" lease] transpD [OF quiet_trans]
    by blast
qed

end

text \<open>
  C19.  A write the dead-letter table cannot hold blocks the queue for ever.  Let the database accept
  only what its columns hold (PostgreSQL does; the SQLite of the tests stores such a row), and let a
  queued write have a path of more than 2048 characters or a zero byte in its body, which the gateway
  accepted with 202.  Then no handling of it, whatever the upstream answers and whatever fails,
  records it, and it leaves the stream only when the upstream accepted it; and once its budget is
  spent, every round that picks it up raises: nothing is recorded, the stream and the stored attempts
  stay as they were, and no entry behind it in the batch is handled or sent.
\<close>

theorem unstorable_write_blocks_batch:
  assumes "redis_queue_laws (we_kv env) view (we_q env) hv sv" "strict_table env"
    and "2048 < length path \<or> 0 \<in> set body"
    and entry: "entry = queue_entry env now verb url path hs body client_id"
  shows "(\<forall>ck w res w'. handle env ck m entry w = (res, w') \<longrightarrow>
      w_failed w' = w_failed w \<and> (m \<in> stream_ids env sv w \<and> m \<notin> stream_ids env sv w' \<longrightarrow> accepted m w w')) \<and>
    (\<forall>ck k lease r1 rest w res w'.
      stored_attempts hv m w = Some k \<and> queue_max_retries (we_cfg env) + 1 \<le> k \<and>
      not_due (ck_due ck) (hv (w_redis w) DUE_HASH m) = Inr False \<and>
      acquire_lock (we_kv env) (ck_lock ck) (ck_token ck) (''replay:'' @ m) (queue_claim_idle_seconds (we_cfg env))
        (w_redis w) = (Some lease, r1) \<and>
      handle_all env ((ck, (m, entry)) # rest) w = (res, w') \<longrightarrow>
        \<not> is_ok res \<and> w_failed w' = w_failed w \<and> w_sent w' = w_sent w \<and> sv (w_redis w') = sv (w_redis w) \<and>
        hv (w_redis w') = hv (w_redis w))"
proof -
  have flds: "unstorable entry"
    using assms(3) by (auto simp: entry unstorable_def queue_entry_def dict_get_def storable_latin1)
  show ?thesis
    using redis_queue_laws.unstorable_handle [OF assms(1) refl refl assms(2) flds]
      redis_queue_laws.unstorable_blocks [OF assms(1) refl refl assms(2) flds, unfolded quiet_def] by blast
qed

text \<open>
  C13.  The account tables stay well typed.  Whatever sequence of validated requests and operator
  commands the gateway serves, where the name of a new API key has no zero character (validation lets
  one pass, and the database then refuses the row), every row of users, refresh tokens and API keys
  has a value for each column that needs one, of the column's type and within its length, and every
  expiry carries its time zone.
\<close>

theorem account_tables_typed:
  assumes "library_typed lib valid_email" "typed_db db" "(validated_step lib cfg valid_email)\<^sup>*\<^sup>* db db'"
  shows "typed_db db'"
  using assms(3,2)
proof (induction rule: rtranclp_induct)
  case (step y z)
  then show ?case using validated_step_typed [OF assms(1)] by blast
qed

section \<open>Witnesses\<close>

definition hex_lib :: auth_lib where
  "hex_lib = demo_auth_lib\<lparr>al_sha256 := \<lambda>x. replicate 64 (CHR ''a''), al_bcrypt_hash := \<lambda>salt p. Inr (replicate 60 (CHR ''b''))\<rparr>"

definition short_email :: "string \<Rightarrow> string option" where
  "short_email e = (if length e \<le> 254 \<and> storable e then Some e else None)"

definition no_accounts :: dbase where
  "no_accounts = \<lparr>db_users = [], db_tokens = [], db_keys = []\<rparr>"

theorem account_tables_typed_witness:
  "\<exists>payload. RegisterRequest short_email ''a@b'' ''password'' = Inr payload \<and>
     (let db = snd (register_user hex_lib True 0 7 ''s'' payload no_accounts) in db_users db \<noteq> [] \<and> typed_db db)"
proof -
  have len: "utf8_length ''password'' = 8" by code_simp
  then have p: "RegisterRequest short_email ''a@b'' ''password'' = Inr \<lparr>rg_email = ''a@b'', rg_password = ''password''\<rparr>"
    by (simp add: RegisterRequest_def short_email_def storable_def password_bytes_def)
  let ?db = "snd (register_user hex_lib True 0 7 ''s'' \<lparr>rg_email = ''a@b'', rg_password = ''password''\<rparr> no_accounts)"
  have "library_typed hex_lib short_email"
    by (auto simp: library_typed_def hex_lib_def short_email_def storable_def split: if_splits)
  moreover have "typed_db no_accounts" by (simp add: typed_db_def no_accounts_def)
  moreover have "(validated_step hex_lib default_settings short_email)\<^sup>*\<^sup>* no_accounts ?db"
    by (rule r_into_rtranclp) (rule v_register [OF p])
  ultimately have "typed_db ?db" by (rule account_tables_typed)
  moreover have "db_users ?db \<noteq> []"
    by (simp add: register_user_def users_by_email_def no_accounts_def scalar_one_or_none_def hash_password_def len hex_lib_def
        BCRYPT_MAX_BYTES_def add_user_def commit_def constraints_ok_def Let_def)
  ultimately show ?thesis using p by (simp add: Let_def)
qed

definition strict_env :: "mem_redis worker_env" where
  "strict_env = (demo_queue_env demo_down)\<lparr>we_db := \<lambda>row. if well_typed FailedRequest failed_requests_table (failed_cells row) then Stored else Refused\<rparr>"

definition spent_world :: "mem_redis world" where
  "spent_world = demo_queue_world\<lparr>w_redis := (w_redis demo_queue_world)\<lparr>m_hash := \<lambda>h. if h = ATTEMPTS_HASH then [''0'' \<mapsto> ''2''] else Map.empty\<rparr>\<rparr>"

theorem unstorable_write_blocks_batch_witness:
  "\<exists>w'. w_failed w' = w_failed spent_world \<and> w_sent w' = w_sent spent_world \<and>
     (\<exists>e. handle_all strict_env [(demo_clock, (''0'', queue_entry strict_env (Fin 0) ''POST'' ''http://h/x'' ''/x''
        [(''idempotency-key'', ''k'')] [0, 255] None))] spent_world = (Inl e, w'))"
proof -
  let ?entry = "queue_entry strict_env (Fin 0) ''POST'' ''http://h/x'' ''/x'' [(''idempotency-key'', ''k'')] [0, 255] None"
  obtain res w' where run: "handle_all strict_env [(demo_clock, (''0'', ?entry))] spent_world = (res, w')" by fastforce
  obtain lease r1 where l: "acquire_lock (we_kv strict_env) (ck_lock demo_clock) (ck_token demo_clock) (''replay:'' @ ''0'')
      (queue_claim_idle_seconds (we_cfg strict_env)) (w_redis spent_world) = (Some lease, r1)"
    by (auto simp: strict_env_def acquire_lock_def mem_kv_def mem_view_def spent_world_def demo_queue_world_def mem_empty_def demo_clock_def)
  have two: "py_int_of_str ''2'' = Some 2" by code_simp
  have laws: "redis_queue_laws (we_kv strict_env) mem_view (we_q strict_env) m_hash m_stream"
    using memq.redis_queue_laws_axioms by (simp add: strict_env_def)
  have "\<not> is_ok res \<and> w_failed w' = w_failed spent_world \<and> w_sent w' = w_sent spent_world \<and>
      m_stream (w_redis w') = m_stream (w_redis spent_world) \<and> m_hash (w_redis w') = m_hash (w_redis spent_world)"
    using unstorable_write_blocks_batch [OF laws, THEN conjunct2, rule_format, where k = 2, OF _ _ refl conjI [OF _ conjI [OF _ conjI [OF _ conjI [OF l run]]]]]
    by (simp add: strict_table_def strict_env_def stored_attempts_def spent_world_def two not_due_def ATTEMPTS_HASH_def DUE_HASH_def)
  then show ?thesis using run by (cases res) auto
qed

end
