(* ===== verification/Migration_Env.thy ===== *)
theory Migration_Env
  imports Schema Settings
begin

text \<open>
  \<^verbatim>\<open>gateway/migrations/env.py\<close> and the engine of \<^verbatim>\<open>gateway/models/db.py\<close>.  The URL travels
  through a \<^verbatim>\<open>ConfigParser\<close> with its \<^verbatim>\<open>%\<close> interpolation, which is modelled; Alembic's revision
  runner, the logging configuration and SQLAlchemy's check of the engine options are parameters, and
  the databases are a map from URLs.  The lemmas show that the URL comes out of the parser as it went
  in, whatever it contains, and that a migration touches the gateway's database and no other.
\<close>

section \<open>Options with interpolation\<close>

datatype config_error = Config_ValueError | InterpolationSyntaxError | InterpolationMissingOptionError
  | InterpolationDepthError | NoOptionError

definition percent :: char where
  "percent = CHR ''%''"

definition replace_char :: "char \<Rightarrow> string \<Rightarrow> string \<Rightarrow> string" where
  "replace_char a b s = concat (map (\<lambda>c. if c = a then b else [c]) s)"

fun remove_pairs :: "string \<Rightarrow> string" where
  \<comment> \<open>\<^verbatim>\<open>value.replace("%%", "")\<close>\<close>
  "remove_pairs (a # b # s) = (if a = percent \<and> b = percent then remove_pairs s else a # remove_pairs (b # s))"
| "remove_pairs s = s"

fun key_match :: "string \<Rightarrow> (string \<times> string) option" where
  \<comment> \<open>a match of \<^verbatim>\<open>%\(([^)]+)\)s\<close> at the start: the name and what follows\<close>
  "key_match (a # b # s) =
     (let name = takeWhile (\<lambda>c. c \<noteq> CHR '')'') s; rest = dropWhile (\<lambda>c. c \<noteq> CHR '')'') s
      in if a = percent \<and> b = CHR ''('' \<and> name \<noteq> [] \<and> take 2 rest = '')s'' then Some (name, drop 2 rest) else None)"
| "key_match s = None"

lemma key_match_shorter: "key_match s = Some (name, rest) \<Longrightarrow> length rest < length s"
proof (cases s rule: key_match.cases)
  case (1 a b r)
  then show "key_match s = Some (name, rest) \<Longrightarrow> length rest < length s"
    using length_dropWhile_le [of "\<lambda>c. c \<noteq> CHR '')''" r] by (auto simp: Let_def split: if_splits)
qed auto

function remove_keys :: "string \<Rightarrow> string" where
  \<comment> \<open>\<^verbatim>\<open>_KEYCRE.sub("", value)\<close>\<close>
  "remove_keys [] = []"
| "remove_keys (c # s) = (case key_match (c # s) of Some (_, rest) \<Rightarrow> remove_keys rest | None \<Rightarrow> c # remove_keys s)"
  by pat_completeness auto
termination
  by (relation "measure length") (auto dest: key_match_shorter)

definition MAX_INTERPOLATION_DEPTH :: nat where
  "MAX_INTERPOLATION_DEPTH = 10"

function interpolate :: "nat \<Rightarrow> (string \<Rightarrow> string option) \<Rightarrow> string \<Rightarrow> (config_error, string) result" where
  \<comment> \<open>\<^verbatim>\<open>BasicInterpolation._interpolate_some\<close>; the first argument is the depth that is left\<close>
  "interpolate 0 opts s = Inl InterpolationDepthError"
| "interpolate (Suc d) opts [] = Inr []"
| "interpolate (Suc d) opts (c # s) =
     (if c \<noteq> percent then map_sum id (\<lambda>t. c # t) (interpolate (Suc d) opts s)
      else if take 1 s = [percent] then map_sum id (\<lambda>t. percent # t) (interpolate (Suc d) opts (drop 1 s))
      else if take 1 s = ''('' then
        (case key_match (c # s) of
           None \<Rightarrow> Inl InterpolationSyntaxError
         | Some (name, rest) \<Rightarrow>
             (case opts (py_lower name) of
                None \<Rightarrow> Inl InterpolationMissingOptionError
              | Some v \<Rightarrow>
                  (case (if percent \<in> set v then interpolate d opts v else Inr v) of
                     Inl e \<Rightarrow> Inl e
                   | Inr x \<Rightarrow> map_sum id (\<lambda>t. x @ t) (interpolate (Suc d) opts rest))))
      else Inl InterpolationSyntaxError)"
  by pat_completeness auto
termination
  by (relation "measures [\<lambda>(d, _, _). d, \<lambda>(_, _, s). length s]") (auto dest: key_match_shorter)

definition set_main_option :: "string \<Rightarrow> string \<Rightarrow> (string, string) dict \<Rightarrow> (config_error, (string, string) dict) result" where
  "set_main_option name value opts =
     (if percent \<in> set (remove_keys (remove_pairs value)) then Inl Config_ValueError
      else Inr (AList.update name value opts))"

definition get_main_option :: "string \<Rightarrow> (string, string) dict \<Rightarrow> (config_error, string) result" where
  "get_main_option name opts =
     (case map_of opts name of
        None \<Rightarrow> Inl NoOptionError
      | Some raw \<Rightarrow> interpolate MAX_INTERPOLATION_DEPTH (map_of opts) raw)"

fun section_items :: "(string \<Rightarrow> string option) \<Rightarrow> (string, string) dict \<Rightarrow> (config_error, (string, string) dict) result" where
  "section_items opts [] = Inr []"
| "section_items opts ((k, raw) # items) =
     (case interpolate MAX_INTERPOLATION_DEPTH opts raw of
        Inl e \<Rightarrow> Inl e
      | Inr v \<Rightarrow> map_sum id (\<lambda>rest. (k, v) # rest) (section_items opts items))"

definition get_section :: "(string, string) dict \<Rightarrow> (config_error, (string, string) dict) result" where
  \<comment> \<open>every option of the section is interpolated, and the first that cannot be raises\<close>
  "get_section opts = section_items (map_of opts) opts"

section \<open>The migration environment\<close>

definition url_option :: string where
  "url_option = ''sqlalchemy.url''"

definition inject_url :: "settings \<Rightarrow> (string, string) dict \<Rightarrow> (config_error, (string, string) dict) result" where
  "inject_url cfg opts = set_main_option url_option (replace_char percent [percent, percent] (database_url cfg)) opts"

datatype context_target = Context_Url string | Context_Connection

record context_args =
  ca_target :: context_target
  ca_literal_binds :: bool
  ca_paramstyle :: "string option"
  ca_compare_type :: bool

datatype ('e, 'o) env_outcome =
    Config_Failed config_error
  | Logging_Failed
  | Engine_Failed
  | Connect_Failed
  | Migration_Failed 'e
  | Script_Written context_args 'o \<comment> \<open>the SQL script of the offline mode\<close>
  | Migrated context_args

definition run_migrations_offline ::
  "(context_args \<Rightarrow> ('e, 'o) result) \<Rightarrow> (string, string) dict \<Rightarrow> ('e, 'o) env_outcome" where
  \<comment> \<open>the parameter renders the revisions of the command as SQL\<close>
  "run_migrations_offline render opts =
     (case get_main_option url_option opts of
        Inl e \<Rightarrow> Config_Failed e
      | Inr url \<Rightarrow>
          (let args = \<lparr>ca_target = Context_Url url, ca_literal_binds = True, ca_paramstyle = Some ''named'', ca_compare_type = True\<rparr>
           in case render args of Inl e \<Rightarrow> Migration_Failed e | Inr script \<Rightarrow> Script_Written args script))"

definition do_run_migrations ::
  "('d \<Rightarrow> ('e, 'd) result) \<Rightarrow> 'd \<Rightarrow> ('e, 'o) env_outcome \<times> 'd" where
  \<comment> \<open>the parameter runs the revisions of the command on the connection\<close>
  "do_run_migrations revisions d =
     (let args = \<lparr>ca_target = Context_Connection, ca_literal_binds = False, ca_paramstyle = None, ca_compare_type = True\<rparr>
      in case in_transaction revisions d of
           (Inl e, d') \<Rightarrow> (Migration_Failed e, d')
         | (Inr _, d') \<Rightarrow> (Migrated args, d'))"

definition engine_options :: "(string, string) dict \<Rightarrow> (string, string) dict" where
  \<comment> \<open>the options \<^verbatim>\<open>async_engine_from_config\<close> takes with the prefix \<^verbatim>\<open>sqlalchemy.\<close>, without it\<close>
  "engine_options sect = map (\<lambda>(k, v). (drop 11 k, v)) (filter (\<lambda>(k, v). take 11 k = ''sqlalchemy.'') sect)"

definition run_async_migrations ::
  "(string \<Rightarrow> (string, string) dict \<Rightarrow> bool) \<Rightarrow> ('d \<Rightarrow> ('e, 'd) result) \<Rightarrow> (string, string) dict \<Rightarrow> (string \<Rightarrow> 'd option) \<Rightarrow>
     ('e, 'o) env_outcome \<times> (string \<Rightarrow> 'd option)" where
  \<comment> \<open>the first parameter: SQLAlchemy makes an engine of the URL and the other options; the last: the databases that can be
    reached, by URL\<close>
  "run_async_migrations engine_ok revisions opts dbs =
     (case get_section opts of
        Inl e \<Rightarrow> (Config_Failed e, dbs)
      | Inr sect \<Rightarrow>
          (let options = engine_options sect
           in case map_of options ''url'' of
                None \<Rightarrow> (Engine_Failed, dbs)
              | Some url \<Rightarrow>
                  if \<not> engine_ok url (filter (\<lambda>(k, v). k \<noteq> ''url'') options) then (Engine_Failed, dbs)
                  else (case dbs url of
                          None \<Rightarrow> (Connect_Failed, dbs)
                        | Some d \<Rightarrow> (case do_run_migrations revisions d of (res, d') \<Rightarrow> (res, dbs(url \<mapsto> d'))))))"

definition run_env ::
  "settings \<Rightarrow> bool \<Rightarrow> bool \<Rightarrow> (context_args \<Rightarrow> ('e, 'o) result) \<Rightarrow> (string \<Rightarrow> (string, string) dict \<Rightarrow> bool) \<Rightarrow> ('d \<Rightarrow> ('e, 'd) result) \<Rightarrow>
     (string, string) dict \<Rightarrow> (string \<Rightarrow> 'd option) \<Rightarrow> ('e, 'o) env_outcome \<times> (string \<Rightarrow> 'd option)" where
  \<comment> \<open>the module: whether \<^verbatim>\<open>fileConfig\<close> takes the logging sections, whether \<^verbatim>\<open>context.is_offline_mode()\<close>, and the options of
    the section \<^verbatim>\<open>[alembic]\<close> with the parser's defaults\<close>
  "run_env cfg logging_ok offline render engine_ok revisions ini dbs =
     (case inject_url cfg ini of
        Inl e \<Rightarrow> (Config_Failed e, dbs)
      | Inr opts \<Rightarrow>
          if \<not> logging_ok then (Logging_Failed, dbs)
          else if offline then (run_migrations_offline render opts, dbs)
          else run_async_migrations engine_ok revisions opts dbs)"

section \<open>The engine of the application\<close>

datatype pool_kind = Pool_Pre_Ping | Null_Pool

record engine_kwargs =
  ek_echo :: bool
  ek_pool :: pool_kind
  ek_hide_parameters :: bool

definition engine_kwargs_for :: "(string, string) dict \<Rightarrow> settings \<Rightarrow> engine_kwargs" where
  \<comment> \<open>the process environment\<close>
  "engine_kwargs_for environ cfg =
     (if map_of environ ''PYTEST_RUNNING'' = Some ''1'' \<and> take 6 (database_url cfg) \<noteq> ''sqlite''
      then \<lparr>ek_echo = False, ek_pool = Null_Pool, ek_hide_parameters = True\<rparr>
      else \<lparr>ek_echo = False, ek_pool = Pool_Pre_Ping, ek_hide_parameters = True\<rparr>)"

section \<open>The URL comes out as it went in\<close>

lemma replace_char_simps [simp]:
  "replace_char a b [] = []" "replace_char a b (c # s) = (if c = a then b else [c]) @ replace_char a b s"
  by (simp_all add: replace_char_def)

lemma remove_pairs_plain: "c \<noteq> percent \<Longrightarrow> remove_pairs (c # s) = c # remove_pairs s"
  by (cases s) auto

lemma remove_pairs_escaped: "remove_pairs (replace_char percent [percent, percent] s) = filter (\<lambda>c. c \<noteq> percent) s"
  by (induction s) (auto simp: remove_pairs_plain)

lemma remove_keys_no_percent: "percent \<notin> set s \<Longrightarrow> remove_keys s = s"
proof (induction s)
  case (Cons c s)
  then show ?case by (cases s) auto
qed simp

lemma interpolate_escaped: "interpolate (Suc d) opts (replace_char percent [percent, percent] s) = Inr s"
  by (induction s) auto

lemma inject_url_ok:
  "inject_url cfg ini = Inr (AList.update url_option (replace_char percent [percent, percent] (database_url cfg)) ini)"
  by (simp add: inject_url_def set_main_option_def remove_pairs_escaped remove_keys_no_percent)

lemma injected_url:
  "inject_url cfg ini = Inr opts \<Longrightarrow> get_main_option url_option opts = Inr (database_url cfg)"
  using interpolate_escaped [of 9] by (auto simp: inject_url_ok get_main_option_def MAX_INTERPOLATION_DEPTH_def eval_nat_numeral)

lemma interpolate_plain: "percent \<notin> set s \<Longrightarrow> interpolate (Suc d) opts s = Inr s"
  by (induction s) auto

lemma interpolate_simps:
  "interpolate MAX_INTERPOLATION_DEPTH opts (replace_char percent [percent, percent] s) = Inr s"
  "percent \<notin> set s \<Longrightarrow> interpolate MAX_INTERPOLATION_DEPTH opts s = Inr s"
  using interpolate_escaped [of 9 opts s] interpolate_plain [of s 9 opts]
  by (simp_all add: MAX_INTERPOLATION_DEPTH_def eval_nat_numeral)

lemma section_items_map:
  "section_items opts items = Inr sect \<Longrightarrow>
     map_of sect k = map_option (\<lambda>raw. case interpolate MAX_INTERPOLATION_DEPTH opts raw of Inr v \<Rightarrow> v) (map_of items k)"
proof (induction items arbitrary: sect)
  case (Cons p items)
  obtain a raw where p: "p = (a, raw)" by fastforce
  then obtain v rest where "interpolate MAX_INTERPOLATION_DEPTH opts raw = Inr v" "section_items opts items = Inr rest"
    "sect = (a, v) # rest"
    using Cons.prems by (cases "section_items opts items") (auto split: sum.splits)
  then show ?case using Cons.IH [of rest] p by auto
qed simp

lemma engine_url: "map_of (engine_options sect) ''url'' = map_of sect url_option"
proof -
  have key: "k = url_option" if "take 11 k = ''sqlalchemy.''" "drop 11 k = ''url''" for k
  proof -
    have "take 11 k @ drop 11 k = ''sqlalchemy.'' @ ''url''" by (simp only: that)
    then show ?thesis by (simp add: url_option_def)
  qed
  have "take 11 url_option = ''sqlalchemy.''" "drop 11 url_option = ''url''" by (simp_all add: url_option_def)
  then have step: "map_of (engine_options ((k, v) # xs)) ''url'' =
      (if k = url_option then Some v else map_of (engine_options xs) ''url'')" for k v xs
    using key [of k] by (auto simp: engine_options_def)
  show ?thesis
  proof (induction sect)
    case (Cons p sect)
    then show ?case by (cases p) (simp add: step)
  qed (simp add: engine_options_def)
qed

lemma section_url:
  assumes "get_section (AList.update url_option (replace_char percent [percent, percent] url) ini) = Inr sect"
  shows "map_of (engine_options sect) ''url'' = Some url"
  using section_items_map [OF assms [unfolded get_section_def], of url_option]
  by (simp add: engine_url update_conv' interpolate_simps)

lemma section_items_plain:
  assumes "\<And>k v. (k, v) \<in> set ini \<Longrightarrow> k \<noteq> url_option \<Longrightarrow> percent \<notin> set v" "distinct (map fst ini)"
  shows "section_items opts (AList.update url_option (replace_char percent [percent, percent] url) ini) =
     Inr (AList.update url_option url ini)"
  using assms
proof (induction ini)
  case Nil
  then show ?case by (simp add: interpolate_simps)
next
  case (Cons p ini)
  obtain k v where p: "p = (k, v)" by fastforce
  have plain: "section_items opts xs = Inr xs" if "\<forall>(k, v) \<in> set xs. percent \<notin> set v" for xs
    using that by (induction xs) (auto simp: interpolate_simps)
  show ?case
  proof (cases "k = url_option")
    case True
    have "section_items opts ini = Inr ini"
      by (rule plain) (use Cons.prems True in \<open>force simp: p\<close>)
    then show ?thesis using True p by (simp add: interpolate_simps)
  next
    case False
    then have "percent \<notin> set v" using Cons.prems(1) [of k v] p by simp
    moreover have "section_items opts (AList.update url_option (replace_char percent [percent, percent] url) ini) =
        Inr (AList.update url_option url ini)"
      by (rule Cons.IH) (use Cons.prems in auto)
    ultimately show ?thesis using False p by (simp add: interpolate_simps)
  qed
qed

text \<open>
  C28.  Migrations reach the gateway's database and no other.  Whatever characters its URL has (a
  percent-encoded password, say) and whatever \<^verbatim>\<open>alembic.ini\<close> sets, the URL survives the option
  parser: offline, the script is rendered for it and no database is touched; online, another option
  whose own interpolation fails, or an engine option SQLAlchemy refuses, stops the run before any
  database is touched, and otherwise the revisions run in one transaction of the database under that
  URL, a failing revision leaves it as it was, and every other database keeps its state.  When no
  other option has a \<^verbatim>\<open>%\<close>, as in the \<^verbatim>\<open>alembic.ini\<close> of the repository, no interpolation fails.
\<close>

theorem migrations_target_gateway_database:
  assumes "opts = AList.update url_option (replace_char percent [percent, percent] (database_url cfg)) ini"
  shows "run_env cfg True offline render engine_ok revisions ini dbs =
     (if offline
      then (let args = \<lparr>ca_target = Context_Url (database_url cfg), ca_literal_binds = True, ca_paramstyle = Some ''named'',
                        ca_compare_type = True\<rparr>
            in case render args of Inl e \<Rightarrow> Migration_Failed e | Inr script \<Rightarrow> Script_Written args script, dbs)
      else case get_section opts of
             Inl e \<Rightarrow> (Config_Failed e, dbs)
           | Inr sect \<Rightarrow>
               if \<not> engine_ok (database_url cfg) (filter (\<lambda>(k, v). k \<noteq> ''url'') (engine_options sect)) then (Engine_Failed, dbs)
               else case dbs (database_url cfg) of
                 None \<Rightarrow> (Connect_Failed, dbs)
               | Some d \<Rightarrow>
                   (case revisions d of
                      Inl e \<Rightarrow> (Migration_Failed e, dbs)
                    | Inr d' \<Rightarrow> (Migrated \<lparr>ca_target = Context_Connection, ca_literal_binds = False, ca_paramstyle = None,
                                    ca_compare_type = True\<rparr>, dbs(database_url cfg \<mapsto> d')))) \<and>
    snd (run_env cfg False offline render engine_ok revisions ini dbs) = dbs \<and>
    (distinct (map fst ini) \<and> (\<forall>k v. (k, v) \<in> set ini \<and> k \<noteq> url_option \<longrightarrow> percent \<notin> set v) \<longrightarrow>
       get_section opts = Inr (AList.update url_option (database_url cfg) ini))"
proof (intro conjI impI)
  have o: "inject_url cfg ini = Inr opts" using inject_url_ok assms by simp
  show "snd (run_env cfg False offline render engine_ok revisions ini dbs) = dbs" by (simp add: run_env_def o)
  note url = injected_url [OF o] and sect = section_url [of "database_url cfg" ini, folded assms]
  show "run_env cfg True offline render engine_ok revisions ini dbs =
     (if offline
      then (let args = \<lparr>ca_target = Context_Url (database_url cfg), ca_literal_binds = True, ca_paramstyle = Some ''named'',
                        ca_compare_type = True\<rparr>
            in case render args of Inl e \<Rightarrow> Migration_Failed e | Inr script \<Rightarrow> Script_Written args script, dbs)
      else case get_section opts of
             Inl e \<Rightarrow> (Config_Failed e, dbs)
           | Inr sect \<Rightarrow>
               if \<not> engine_ok (database_url cfg) (filter (\<lambda>(k, v). k \<noteq> ''url'') (engine_options sect)) then (Engine_Failed, dbs)
               else case dbs (database_url cfg) of
                 None \<Rightarrow> (Connect_Failed, dbs)
               | Some d \<Rightarrow>
                   (case revisions d of
                      Inl e \<Rightarrow> (Migration_Failed e, dbs)
                    | Inr d' \<Rightarrow> (Migrated \<lparr>ca_target = Context_Connection, ca_literal_binds = False, ca_paramstyle = None,
                                    ca_compare_type = True\<rparr>, dbs(database_url cfg \<mapsto> d'))))"
    by (auto simp: run_env_def o url sect run_migrations_offline_def run_async_migrations_def do_run_migrations_def
        in_transaction_def Let_def fun_upd_idem split: option.split sum.split)
next
  assume "distinct (map fst ini) \<and> (\<forall>k v. (k, v) \<in> set ini \<and> k \<noteq> url_option \<longrightarrow> percent \<notin> set v)"
  then show "get_section opts = Inr (AList.update url_option (database_url cfg) ini)"
    unfolding get_section_def assms by (intro section_items_plain) auto
qed

section \<open>Witnesses\<close>

text \<open>The options of the repository's \<^verbatim>\<open>alembic.ini\<close>, and a password with a percent-encoded character.\<close>

definition alembic_options :: "(string, string) dict" where
  "alembic_options = [(''script_location'', ''migrations''), (''prepend_sys_path'', ''.''), (''sqlalchemy.url'', [])]"

definition encoded_settings :: settings where
  "encoded_settings = default_settings\<lparr>database_url := ''db://u:%40@h''\<rparr>"

theorem migrations_target_gateway_database_witness:
  "\<exists>args. run_env encoded_settings True False (\<lambda>_. Inr ()) (\<lambda>url others. others = [])
     (\<lambda>d. Inr (d + 1)) alembic_options [''db://u:%40@h'' \<mapsto> 0] =
       (Migrated args :: (unit, unit) env_outcome, [''db://u:%40@h'' \<mapsto> (1 :: nat)])"
proof -
  define opts where "opts = AList.update url_option (replace_char percent [percent, percent] (database_url encoded_settings)) alembic_options"
  define sect where "sect = AList.update url_option (database_url encoded_settings) alembic_options"
  have plain: "distinct (map fst alembic_options) \<and> (\<forall>k v. (k, v) \<in> set alembic_options \<and> k \<noteq> url_option \<longrightarrow> percent \<notin> set v)"
    by (auto simp: alembic_options_def percent_def url_option_def)
  note both = migrations_target_gateway_database [OF opts_def, of False "\<lambda>_. Inr () :: (unit, unit) result" "\<lambda>url others. others = []"
      "\<lambda>d. Inr (d + 1)" "[''db://u:%40@h'' \<mapsto> (0 :: nat)]", folded sect_def]
  have s: "get_section opts = Inr sect" using both plain by blast
  have u: "database_url encoded_settings = ''db://u:%40@h''" by (simp add: encoded_settings_def)
  have none: "filter (\<lambda>(k, v). k \<noteq> ''url'') (engine_options sect) = []"
    by (simp add: sect_def engine_options_def alembic_options_def url_option_def)
  show ?thesis using conjunct1 [OF both] by (simp add: s none u)
qed

end
