(* ===== verification/Spec2Isabelle.thy ===== *)
theory Spec2Isabelle
  imports Queue_System Table_Rows Migration_Env
begin

text \<open>
  Verification library for the adaptive gateway: a FastAPI reverse proxy (\<^verbatim>\<open>src/gateway\<close>) that
  classifies the connection of every client, adapts and caches the answers of upstream services,
  queues writes while an upstream is down and replays them, and manages accounts, API keys and its
  own route policy.

  \<^bold>\<open>How the parts interact.\<close>  A request passes the middleware in the order of \<open>middleware_stack\<close>
  (theory \<open>Gateway\<close>): CORS, body limit, the optional rate limiter, the network detector, the
  authentication and the response optimizer, and reaches one of the routers; \<open>serve\<close> composes these
  definitions into the answer of the whole application to one request, an exception of a handler
  passing through the layers with the state and the reports made so far.  The proxy handler
  reads and fills the cache in Redis, calls the upstream, or hands a failed write to the offline
  queue, which the background worker drains.  The detector writes one log record per request to the
  batch writer.  Settings and route policy are read by all of them.  \<open>Site\<close> puts the state of the
  process together (Redis and the dead letters, the account tables, the policy in force, the log
  writer, the background refreshes, the metrics), gives every endpoint its handler on that state,
  and \<open>site_step\<close> is what the system does next: serve a request, run a round of a queue worker, let a
  worker read, claim, handle or lose single copies of queued entries, let the log writer work, finish a
  background refresh, cancel the background tasks, or run the operator's command.  In a run of the
  system the upstreams and the database may behave differently at every step (\<open>meanwhile\<close>).

  \<^bold>\<open>Theories and sources.\<close>
  \<^item> \<open>Prelude\<close>, \<open>Py_String\<close>, \<open>Py_Float\<close>, \<open>Py_Bytes\<close>, \<open>Py_Json\<close>, \<open>Py_Url\<close>, \<open>Py_Uuid\<close>: the Python types and
    library functions the code uses: dictionaries in insertion order, text in the Latin-1 range,
    IEEE 754 doubles as rounded rationals, Latin-1 and Base64, JSON values, \<^verbatim>\<open>urlsplit\<close>, \<^verbatim>\<open>uuid.UUID\<close>.
  \<^item> \<open>Settings\<close> and \<open>Config\<close>: \<^verbatim>\<open>config.py\<close>.  \<open>Redis_Service\<close>: the commands of Redis with their laws.
    \<open>Http\<close>: requests, responses, \<^verbatim>\<open>request.state\<close>, reported effects.
  \<^item> \<open>Rtt_State\<close>, \<open>Network_Detector\<close>, \<open>Rate_Limit\<close>, \<open>Body_Limit\<close>, \<open>Response_Optimizer\<close>: the files of the
    same names in \<^verbatim>\<open>middleware\<close>.  \<open>Auth\<close>: \<^verbatim>\<open>middleware/auth.py\<close>, \<^verbatim>\<open>auth/security.py\<close>, \<^verbatim>\<open>auth/dependencies.py\<close>
    and the rows of \<^verbatim>\<open>models/db.py\<close>.
  \<^item> \<open>Client_Identity\<close>, \<open>Proxy_Http\<close>, \<open>Metrics\<close>, \<open>Request_Logger\<close>: \<^verbatim>\<open>utils\<close>.  \<open>Redis_Client\<close>:
    \<^verbatim>\<open>cache/redis_client.py\<close>.
  \<^item> \<open>Sync_Worker\<close> and \<open>Worker_Task\<close>: \<^verbatim>\<open>offline_queue/sync_worker.py\<close>, the handling of one message and the
    task around it.  \<open>Proxy\<close>: \<^verbatim>\<open>routes/proxy.py\<close>.
  \<^item> \<open>Accounts\<close>: \<^verbatim>\<open>routes/auth.py\<close>, the account and key operations of \<^verbatim>\<open>routes/admin.py\<close>, \<^verbatim>\<open>manage.py\<close>,
    \<^verbatim>\<open>models/schemas.py\<close>.  \<open>Admin\<close>: the rest of \<^verbatim>\<open>routes/admin.py\<close>.  \<open>Gateway\<close>: \<^verbatim>\<open>main.py\<close>, the routes,
    the middleware stack around them and the start and stop of the process.  \<open>Site\<close>: the endpoints of
    \<^verbatim>\<open>routes/auth.py\<close>, \<^verbatim>\<open>routes/admin.py\<close> and \<^verbatim>\<open>routes/proxy.py\<close> with the bodies they read and the
    answers they give (\<^verbatim>\<open>models/schemas.py\<close>), joined as \<^verbatim>\<open>main.py\<close> joins them.
  \<^item> \<open>Schema\<close>: the table classes of \<^verbatim>\<open>models/db.py\<close> and the initial revision of \<^verbatim>\<open>migrations/versions\<close>, as
    data and as operations on a catalog.  \<open>Migration_Env\<close>: \<^verbatim>\<open>migrations/env.py\<close> and the engine of \<^verbatim>\<open>models/db.py\<close>.
  \<^item> \<open>Table_Rows\<close>, \<open>Task_Runs\<close>, \<open>Pipeline\<close>: properties that span components: the rows the program writes
    against the columns of the schema, a queued write over the rounds of the worker task, and requests
    through the whole stack.
  \<^item> \<open>Frame\<close>: relations that commands, middleware, routes and worker rounds keep, proved once in locales.
    \<open>System\<close>, \<open>Queue_System\<close>: properties of runs of the whole system, by interpreting these locales.

  Definitions keep the names of the source; a leading underscore is dropped, and a part of a long
  function has a name of its own (\<open>get_miss\<close>, \<open>sent_tail\<close>).

  \<^bold>\<open>What the lemmas show.\<close>
  \<^item> Connection tiers: a tier changes only after a streak of votes and then does; the stored state
    stays well formed over any history of samples of moderate size, survives its encoding, and
    concurrent updates lose no sample.
  \<^item> Forwarding: a target stays below the configured base, discovered addresses are public, buffers
    are bounded, forged forwarding headers do not pass, a request is forwarded at most once.
  \<^item> Cache: answers are read back byte for byte while they are fresh or stale, private requests never
    touch the cache, one refresh runs at a time; locks exclude each other under every interleaving
    of acquisitions, releases, crashes and expiries; a flush stays in the cache.
  \<^item> Queue: a queued write is bounded, replayed exactly, never lost silently, sent within its budget
    however workers crash, and once more for each copy a worker handles after the entry has left the
    stream, spaced by its backoff, and its replay ends.
  \<^item> Identity: every identity has a valid credential behind it, only administrators reach the
    administration, refresh tokens are single use after any history, the token table implements
    an abstract map of sessions, and an API key identifies its owner until it is revoked.
  \<^item> Configuration: accepted settings meet what the components assume; the policy in force is always
    valid, and a reload is as good as a restart.
  \<^item> Adaptation: field removal removes exactly the configured paths, and body, labels, coding and sizes
    of an adapted answer agree.  Log records are written, on their way or counted.
  \<^item> Database: the migration creates the schema that the classes declare, its downgrade removes exactly
    that, and migrations run against the database of the settings whatever characters its URL
    has, as long as the ini file itself can be read; account operations write only rows their columns
    accept, while a queued write that the dead-letter table cannot hold is never recorded and, its budget
    spent, blocks its batch.
  \<^item> Whole requests: without an administrator's token the administration handlers make no difference
    to the outcome, and every answer of the proxy is reported exactly once, under one tier.
  \<^item> The whole system, over any sequence of its steps: privileges come only from administrators and the
    operator; the policy stays valid, the account tables keep their constraints, tokens are not revived
    and log rows are accounted for; and a queued write is in the queue, dead-lettered or accepted, sent
    within its budget and the stale copies of it, whatever the rest of the gateway does to Redis and the
    policy meanwhile.

  \<^bold>\<open>Parameters.\<close>  Code outside the repository is an argument: Redis (\<open>redis_kv\<close>, \<open>redis_queue\<close>,
  \<open>redis_admin\<close>), the HTTP client, DNS and \<^verbatim>\<open>ipaddress\<close>, the JSON and gzip codecs, bcrypt, SHA-256 and the
  JWT library (\<open>auth_lib\<close>), the YAML parser and pydantic's conversions (\<open>config_env\<close>), clocks, random
  texts, whether the database can be reached and what becomes of a commit, the checks of SQLAlchemy's engine
  and of the logging set-up in \<open>Migration_Env\<close>, and FastAPI itself (\<open>framework\<close>: how
  it reads a body and a path parameter, and what it answers to a request it refuses).  What is relied on
  is stated as locales (\<open>redis_kv_laws\<close>, \<open>redis_queue_laws\<close>, \<open>redis_scan_laws\<close>, \<open>redis_consumer_laws\<close>,
  \<open>redis_site_laws\<close>, \<open>queue_site\<close>) or as premises; an in-memory server interprets the locales.  The locales \<open>kv_frame\<close>,
  \<open>queue_frame\<close> and \<open>worker_frame\<close> take a relation on states instead: what every command on the gateway's
  own keys keeps, everything built from commands keeps; they are interpreted on the state of the system.  SQLAlchemy and Alembic enter through the locales of
  \<open>Schema\<close> (\<open>ddl_laws\<close>, \<open>declarative_laws\<close>, \<open>metadata_laws\<close>, \<open>schema_laws\<close>), interpreted by a catalog in memory.  A command that raises may or may not have taken effect, so the death of a
  process at a command is among the runs.

  \<^bold>\<open>Bounds and recursion.\<close>  Every loop of the source is structural recursion over what it consumes (chunks,
  messages, hops, keys, rounds) or over the list of its attempts; no fuel is used.  Tasks that run for
  ever are step relations or folds over their inputs.

  \<^bold>\<open>Assumptions of the model.\<close>
  \<^item> Text is in the Latin-1 range.  A configured path of the policy file is kept as it is written, and one
    path stands for the decoded path and for \<^verbatim>\<open>url.path\<close>.
  \<^item> Each database operation is one atomic transaction; under READ COMMITTED a concurrent refresh could
    add a token that the revocation of a family does not see.  A commit of the account tables that raises is
    taken as rolled back; dead letters and log batches may also be stored by a commit that raises.
    \<open>strict_table\<close> is PostgreSQL, which refuses a value its column cannot hold.
  \<^item> Redis runs a script as one step, and a stream issues no identifier twice.  SET, DEL, EXPIRE and EXEC
    may change whatever is under their own key, a stream too, and nothing else; the properties of the
    queue in the whole system therefore need a stream whose name does not begin like the gateway's own
    keys (\<open>own_key\<close>), which the settings do not check.
  \<^item> Components are proved under interleavings of their own commands (locks, rate windows, tier updates).
    Copies of queue entries are read, claimed and handled by any number of workers in any order, but the
    handling of one copy is taken as one step, which the lease on the entry is there for.  In \<open>Site\<close>
    requests and refreshes follow one another.
  \<^item> A raised exception that no modelled code catches ends the request.

  \<^bold>\<open>Not modelled.\<close>  What sessions and the engine do inside SQLAlchemy, Alembic's version table, the
  set-up of logging, the work of the CORS layer (only its configuration is modelled), the text of
  the metrics exposition, the pages under \<^verbatim>\<open>/docs\<close> and the conversion of an unhandled exception to an answer
  are library code.  What is left of the sources are imports, loggers, documentation, wrappers of one
  call (\<^verbatim>\<open>_client_ip\<close>, \<^verbatim>\<open>_http\<close>, \<^verbatim>\<open>_now\<close>), the start and cancelling of asyncio tasks, and names nothing
  reads (\<^verbatim>\<open>HOP_BY_HOP\<close> of \<^verbatim>\<open>routes/proxy.py\<close>, \<^verbatim>\<open>CacheEntryInfo\<close>, two settings for a cloud store).  Benchmarks, the dashboard and
  the JavaScript clients are not part of the program that serves requests.
\<close>

section \<open>What validated settings give the components\<close>

lemma backoff_positive:
  assumes "queue_backoff_schedule s \<noteq> []" "list_all (\<lambda>d. 0 < d) (queue_backoff_schedule s)"
  shows "0 < backoff_seconds s attempts"
proof -
  let ?idx = "min (max (attempts - 1) 0) (int (length (queue_backoff_schedule s)) - 1)"
  have "nat ?idx < length (queue_backoff_schedule s)" using assms(1) by (cases "queue_backoff_schedule s") auto
  then show ?thesis using assms(2) by (simp add: backoff_seconds_def Let_def list_all_length)
qed

lemma timeout_lease:
  assumes "f_isfinite x" "f_lt (Fin 0) x"
  shows "\<exists>n. py_int_of_json (JFloat x) = Inr n \<and> f_lt x (Fin (of_int (max ttl (n + 5))))"
proof -
  obtain q where q: "x = Fin q" "0 < q" using assms by (cases x) auto
  have "q < of_int (\<lfloor>q\<rfloor> + 5)" by linarith
  also have "\<dots> \<le> of_int (max ttl (\<lfloor>q\<rfloor> + 5))" by (simp only: of_int_le_iff max.cobounded2)
  finally show ?thesis using q by (simp add: trunc_rat_def)
qed

text \<open>
  C20.  Settings that the validator accepts meet what the components assume of them: the thresholds are
  those the tier state machine is proved for; every delay between replays is positive; the lease on
  a queued write outlives its request, and the lease on a cache refresh outlives the call it
  guards, whatever timeout an accepted route rule sets; limits and windows are positive; and in
  production the signing key has at least 32 characters and cross-origin access names its origins.
\<close>

theorem accepted_settings_contract:
  assumes valid: "Settings network_ok bracket_ok s = Inr s'" and rule: "rule_ok rule"
  shows "s' = s \<and> thresholds_ok (thresholds_of s) \<and>
    (\<forall>attempts. 0 < backoff_seconds s attempts) \<and>
    f_lt (upstream_timeout_seconds s) (Fin (of_int (queue_claim_idle_seconds s))) \<and>
    (\<exists>n. py_int_of_json (JFloat (effective_timeout s rule)) = Inr n \<and>
       f_lt (effective_timeout s rule) (Fin (of_int (max (revalidate_lock_ttl_seconds s) (n + 5))))) \<and>
    0 < login_rate_limit s \<and> 0 < login_rate_window_seconds s \<and> 0 < global_rate_limit s \<and> 0 < global_rate_window_seconds s \<and>
    0 < max_request_body_bytes s \<and> 0 < queue_max_depth s \<and> 0 \<le> queue_max_retries s \<and>
    (is_production s \<longrightarrow> 32 \<le> length (secret_key s) \<and> ''*'' \<notin> set (allowed_origins s))"
proof -
  have same: "s' = s" using valid by (rule Settings_same)
  note ok = valid [unfolded Settings_def settings_fields_ok_def validate_boundaries_def]
  have fields: "list_all (\<lambda>x. f_valid x \<and> f_isfinite x) (settings_floats s)"
    "0 < max_request_body_bytes s" "0 < queue_max_depth s"
    using ok by (simp_all split: if_splits)
  have bounds: "f_lt (Fin 0) (rtt_good_threshold_ms s)" "f_lt (rtt_good_threshold_ms s) (rtt_degraded_threshold_ms s)"
    "f_le (Fin 0) (rtt_hysteresis_ms s)" "f_lt (rtt_hysteresis_ms s) (rtt_good_threshold_ms s)"
    "f_lt (Fin 0) (rtt_ewma_alpha s)" "f_le (rtt_ewma_alpha s) (Fin 1)"
    "list_all (\<lambda>n. 0 < n) (positive_settings s)"
    "\<not> f_le (upstream_timeout_seconds s) (Fin 0)" "0 \<le> queue_max_retries s"
    "queue_backoff_schedule s \<noteq> []" "list_all (\<lambda>d. 0 < d) (queue_backoff_schedule s)"
    "\<not> f_le (Fin (of_int (queue_claim_idle_seconds s))) (upstream_timeout_seconds s)"
    "is_production s \<longrightarrow> production_ok bracket_ok s"
    using ok by (simp_all add: list_ex_iff list_all_iff not_le split: if_splits)
  have thresholds: "thresholds_ok (thresholds_of s)"
    using fields(1) bounds by (simp add: thresholds_ok_def thresholds_of_def settings_floats_def positive_settings_def)
  have timeout: "f_isfinite (upstream_timeout_seconds s)" "f_lt (Fin 0) (upstream_timeout_seconds s)"
    using fields(1) bounds(8) by (auto simp: settings_floats_def not_le elim: f_isfinite.elims)
  then have lease: "f_lt (upstream_timeout_seconds s) (Fin (of_int (queue_claim_idle_seconds s)))"
    using bounds(12) by (auto simp: not_le elim: f_isfinite.elims)
  have "f_isfinite (effective_timeout s rule)" "f_lt (Fin 0) (effective_timeout s rule)"
    using rule timeout by (auto simp: effective_timeout_def rule_ok_def timeout_bound_def split: option.splits)
  from timeout_lease [OF this] show ?thesis
    using same thresholds lease fields(2,3) bounds(7,9,13) backoff_positive [OF bounds(10,11)]
    by (auto simp: positive_settings_def production_ok_def weak_secret_def)
qed

theorem accepted_settings_contract_witness:
  "Settings (\<lambda>_. True) (\<lambda>_. False) default_settings = Inr default_settings \<and> rule_ok RouteRule_default \<and>
   thresholds_ok (thresholds_of default_settings) \<and> 0 < backoff_seconds default_settings 7"
proof -
  have r: "rule_ok RouteRule_default" by (simp add: rule_ok_def RouteRule_default_def timeout_bound_def)
  show ?thesis using accepted_settings_contract [OF default_settings_valid r] default_settings_valid r by blast
qed

end
